theory Spec2Isabelle
  imports Complex_Main
begin

section \<open>Data model of GameStateManager.ts\<close>

text \<open>
  The TypeScript string unions become datatypes and the interfaces become records.
  Record fields live in one name space, so the fields that several interfaces share
  (\<open>x\<close>, \<open>y\<close>, \<open>id\<close>, \<open>health\<close>, \<open>maxHealth\<close>, \<open>state\<close>, \<open>type\<close>, \<open>value\<close>)
  carry a prefix: \<open>p_\<close> for Player, \<open>e_\<close> for Enemy, \<open>k_\<close> for Pickup.

  JavaScript numbers that only ever hold integers in this program (health, ammunition,
  frame timers, ids, floor numbers) are \<open>int\<close>. Positions, angles and the boss
  thresholds are \<open>real\<close> with exact arithmetic. The clock (\<open>FIXED_TIMESTEP\<close>,
  \<open>lastUpdateTime\<close>, \<open>accumulator\<close>) is \<open>real\<close> as well, and every arithmetic
  operation on it is rounded as an IEEE double rounds it, see \<open>roundDouble\<close> below.
\<close>

datatype Weapon = Pistol | Shotgun | Chaingun

datatype GameStatus = Playing | Paused | Victory | Defeat

datatype EnemyState = Idle | Patrolling | Chasing | Attacking | Spawning

datatype EnemyType =
  Grunt | Soldier | Captain | BossDemon | BossCyberdemon | BossSpiderMastermind

datatype PickupType = HealthPickup | AmmoPickup | WeaponPickup

record Player =
  p_x :: real
  p_y :: real
  p_angle :: real
  p_health :: int
  p_ammo :: "Weapon \<Rightarrow> int"
  p_maxHealth :: int
  p_maxAmmo :: "Weapon \<Rightarrow> int"
  weapon :: Weapon
  availableWeapons :: "Weapon set"
  isAttacking :: bool
  attackTimer :: int
  muzzleFlash :: bool
  muzzleFlashTimer :: int

record Enemy =
  e_id :: int
  e_x :: real
  e_y :: real
  e_health :: int
  e_maxHealth :: int
  e_state :: EnemyState
  lastPlayerX :: real
  lastPlayerY :: real
  attackCooldown :: int
  patrolTarget :: "(real \<times> real) option"
  enemyType :: EnemyType
  explorationCooldown :: int
  explorationDirection :: "(int \<times> int) option"
  isBoss :: bool
  spawnCooldown :: real
  spawnsRemaining :: int
  phaseTransitions :: "real list"
  currentPhase :: nat
  isHurt :: bool
  hurtTimer :: int

record Pickup =
  k_id :: int
  k_x :: real
  k_y :: real
  k_type :: PickupType
  k_value :: int
  spawnTime :: real
  animationOffset :: real
  weaponType :: "Weapon option"

record GameState =
  player :: Player
  enemies :: "Enemy list"
  pickups :: "Pickup list"
  gameStatus :: GameStatus
  worldMap :: "int list list"
  lastUpdateTime :: real
  accumulator :: real
  isPaused :: bool
  nextPickupId :: int
  nextEnemyId :: int
  worldSize :: int
  currentFloor :: int
  floorTheme :: string
  isBossFloor :: bool
  bossDefeated :: bool

text \<open>
  The class instance: \<open>this.state\<close>, and two counters that stand for what the class does
  to the outside. \<open>notifications\<close> counts the calls of \<open>notifyListeners\<close> (each one
  publishes the snapshot \<open>{...this.state}\<close> to every subscriber); \<open>randomCalls\<close> counts
  the calls of \<open>Math.random()\<close>, whose results are read from an oracle
  \<open>rnd :: nat \<Rightarrow> real\<close> in call order.
\<close>

record GameStateManager =
  state :: GameState
  notifications :: nat
  randomCalls :: nat

record WeaponStats =
  damage :: int
  ammoUse :: int
  attackDuration :: int
  muzzleDuration :: int
  w_range :: real
  accuracy :: real

text \<open>
  IEEE 754 binary64 arithmetic, as far as the clock needs it. A double is a real of the
  form \<open>k * 2 ^ e\<close> with \<open>\<bar>k\<bar> < 2 ^ 53\<close>; the result of an operation is the exact
  result rounded to the nearest double, a tie going to the even significand.
  \<open>ulp x\<close> is the distance between the doubles around \<open>x\<close>. The exponent range is not
  modelled (no overflow to \<open>Infinity\<close>, no subnormal numbers), and \<open>NaN\<close> is not a
  value: time stamps are finite numbers of milliseconds.
\<close>

definition roundEven :: "real \<Rightarrow> int" where
  "roundEven r =
     (let f = \<lfloor>r\<rfloor> in
      if r - of_int f < 1 / 2 then f
      else if r - of_int f > 1 / 2 then f + 1
      else if even f then f else f + 1)"

definition ulp :: "real \<Rightarrow> real" where
  "ulp x = 2 powr (of_int (\<lfloor>log 2 \<bar>x\<bar>\<rfloor> - 52))"

definition roundDouble :: "real \<Rightarrow> real" where
  "roundDouble x = (if x = 0 then 0 else ulp x * of_int (roundEven (x / ulp x)))"

text \<open>\<open>private readonly FIXED_TIMESTEP = 1000 / 60\<close>: a division of two doubles.\<close>

definition FIXED_TIMESTEP :: real where
  "FIXED_TIMESTEP = roundDouble (1000 / 60)"

fun WEAPON_STATS :: "Weapon \<Rightarrow> WeaponStats" where
  "WEAPON_STATS Pistol =
     \<lparr>damage = 12, ammoUse = 1, attackDuration = 15, muzzleDuration = 8,
      w_range = 15, accuracy = 0.2\<rparr>"
| "WEAPON_STATS Shotgun =
     \<lparr>damage = 22, ammoUse = 1, attackDuration = 25, muzzleDuration = 12,
      w_range = 8, accuracy = 0.3\<rparr>"
| "WEAPON_STATS Chaingun =
     \<lparr>damage = 7, ammoUse = 1, attackDuration = 8, muzzleDuration = 5,
      w_range = 12, accuracy = 0.2\<rparr>"

section \<open>Notification, pause and weapon handling\<close>

definition notifyListeners :: "GameStateManager \<Rightarrow> GameStateManager" where
  "notifyListeners m = m\<lparr>notifications := Suc (notifications m)\<rparr>"

text \<open>\<open>Math.random()\<close>: the next oracle value, and the call is counted.\<close>

definition random :: "(nat \<Rightarrow> real) \<Rightarrow> GameStateManager \<Rightarrow> real \<times> GameStateManager" where
  "random rnd m = (rnd (randomCalls m), m\<lparr>randomCalls := Suc (randomCalls m)\<rparr>)"

definition pause :: "GameStateManager \<Rightarrow> GameStateManager" where
  "pause m =
     (if gameStatus (state m) = Playing
      then notifyListeners (m\<lparr>state := (state m)\<lparr>isPaused := True, gameStatus := Paused\<rparr>\<rparr>)
      else m)"

definition resume :: "GameStateManager \<Rightarrow> GameStateManager" where
  "resume m =
     (if gameStatus (state m) = Paused
      then notifyListeners
             (m\<lparr>state := (state m)\<lparr>isPaused := False, gameStatus := Playing, accumulator := 0\<rparr>\<rparr>)
      else m)"

definition togglePause :: "GameStateManager \<Rightarrow> GameStateManager" where
  "togglePause m = (if isPaused (state m) then resume m else pause m)"

definition switchWeapon :: "Weapon \<Rightarrow> GameStateManager \<Rightarrow> GameStateManager \<times> bool" where
  "switchWeapon w m =
     (if w \<in> availableWeapons (player (state m))
      then (notifyListeners (m\<lparr>state := (state m)\<lparr>player := (player (state m))\<lparr>weapon := w\<rparr>\<rparr>\<rparr>),
            True)
      else (m, False))"

definition shoot :: "GameStateManager \<Rightarrow> GameStateManager \<times> bool" where
  "shoot m =
     (let s = state m; p = player s in
      if gameStatus s \<noteq> Playing \<or> isPaused s \<or> p_ammo p (weapon p) \<le> 0 then (m, False)
      else
        let stats = WEAPON_STATS (weapon p);
            p' = p\<lparr>p_ammo := (p_ammo p)(weapon p := p_ammo p (weapon p) - ammoUse stats),
                   isAttacking := True,
                   attackTimer := attackDuration stats,
                   muzzleFlash := True,
                   muzzleFlashTimer := muzzleDuration stats\<rparr>
        in (notifyListeners (m\<lparr>state := s\<lparr>player := p'\<rparr>\<rparr>), True))"

definition getWeaponDamage :: "GameStateManager \<Rightarrow> int" where
  "getWeaponDamage m = damage (WEAPON_STATS (weapon (player (state m))))"

definition getWeaponRange :: "GameStateManager \<Rightarrow> real" where
  "getWeaponRange m = w_range (WEAPON_STATS (weapon (player (state m))))"

definition getWeaponAccuracy :: "GameStateManager \<Rightarrow> real" where
  "getWeaponAccuracy m = accuracy (WEAPON_STATS (weapon (player (state m))))"

section \<open>Pickups and enemy drops\<close>

text \<open>
  \<open>spawnPickup\<close> draws three random numbers (two position offsets and the animation
  offset, in this order) and appends the pickup.
\<close>

definition spawnPickup ::
  "(nat \<Rightarrow> real) \<Rightarrow> real \<Rightarrow> real \<Rightarrow> PickupType \<Rightarrow> int \<Rightarrow> Weapon option
     \<Rightarrow> GameStateManager \<Rightarrow> GameStateManager" where
  "spawnPickup rnd x y ty v wt m =
     (let (r1, m1) = random rnd m;
          offsetX = (r1 - 0.5) * 0.4;
          (r2, m2) = random rnd m1;
          offsetY = (r2 - 0.5) * 0.4;
          s = state m2;
          (r3, m3) = random rnd m2;
          pickup = \<lparr>k_id = nextPickupId s, k_x = x + offsetX, k_y = y + offsetY,
                    k_type = ty, k_value = v, spawnTime = lastUpdateTime s,
                    animationOffset = r3 * pi * 2, weaponType = wt\<rparr>
      in m3\<lparr>state := s\<lparr>nextPickupId := nextPickupId s + 1,
                           pickups := pickups s @ [pickup]\<rparr>\<rparr>)"

fun healthDropChance :: "EnemyType \<Rightarrow> real" where
  "healthDropChance Grunt = 0.5"
| "healthDropChance Soldier = 0.7"
| "healthDropChance Captain = 0.8"
| "healthDropChance BossDemon = 1.0"
| "healthDropChance BossCyberdemon = 1.0"
| "healthDropChance BossSpiderMastermind = 1.0"

fun ammoDropChance :: "EnemyType \<Rightarrow> real" where
  "ammoDropChance Grunt = 0.7"
| "ammoDropChance Soldier = 0.8"
| "ammoDropChance Captain = 0.9"
| "ammoDropChance BossDemon = 1.0"
| "ammoDropChance BossCyberdemon = 1.0"
| "ammoDropChance BossSpiderMastermind = 1.0"

fun weaponDropChance :: "EnemyType \<Rightarrow> real" where
  "weaponDropChance Grunt = 0.05"
| "weaponDropChance Soldier = 0.15"
| "weaponDropChance Captain = 0.25"
| "weaponDropChance BossDemon = 0.8"
| "weaponDropChance BossCyberdemon = 0.9"
| "weaponDropChance BossSpiderMastermind = 1.0"

definition spawnEnemyDrops ::
  "(nat \<Rightarrow> real) \<Rightarrow> real \<Rightarrow> real \<Rightarrow> EnemyType \<Rightarrow> GameStateManager \<Rightarrow> GameStateManager" where
  "spawnEnemyDrops rnd x y ty m =
     (let (r1, m1) = random rnd m;
          m2 = (if r1 < healthDropChance ty
                then (let (r, ma) = random rnd m1
                      in spawnPickup rnd x y HealthPickup (15 + \<lfloor>r * 26\<rfloor>) None ma)
                else m1);
          (r2, m3) = random rnd m2;
          m4 = (if r2 < ammoDropChance ty
                then (let (r, ma) = random rnd m3
                      in spawnPickup rnd x y AmmoPickup (8 + \<lfloor>r * 18\<rfloor>) None ma)
                else m3);
          (r3, m5) = random rnd m4
      in if r3 < weaponDropChance ty
         then (let (r, ma) = random rnd m5;
                   wt = (if r < 0.7 then Shotgun else Chaingun);
                   ammoValue = (if wt = Shotgun then 12 else 30)
               in spawnPickup rnd x y WeaponPickup ammoValue (Some wt) ma)
         else m5)"

text \<open>
  \<open>Array.prototype.find\<close> and \<open>findIndex\<close> return the first match, so both name the
  same element; \<open>splice(index, 1)\<close> deletes it. The two deferred calls
  (\<open>setTimeout\<close> of \<open>checkFloorProgression\<close>, and from there of
  \<open>progressToNextFloor\<close>) run later as calls of their own and are not part of this call.
\<close>

fun findIndex :: "('a \<Rightarrow> bool) \<Rightarrow> 'a list \<Rightarrow> nat option" where
  "findIndex P [] = None"
| "findIndex P (x # xs) =
     (if P x then Some 0 else map_option Suc (findIndex P xs))"

definition splice1 :: "nat \<Rightarrow> 'a list \<Rightarrow> 'a list" where
  "splice1 i xs = take i xs @ drop (Suc i) xs"

definition damageEnemy ::
  "(nat \<Rightarrow> real) \<Rightarrow> int \<Rightarrow> int \<Rightarrow> GameStateManager \<Rightarrow> GameStateManager \<times> bool" where
  "damageEnemy rnd enemyId dmg m =
     (case findIndex (\<lambda>e. e_id e = enemyId) (enemies (state m)) of
        None \<Rightarrow> (m, False)
      | Some i \<Rightarrow>
          let es = enemies (state m);
              enemy = (es ! i)\<lparr>e_health := e_health (es ! i) - dmg, isHurt := True, hurtTimer := 5\<rparr>;
              m1 = m\<lparr>state := (state m)\<lparr>enemies := es[i := enemy]\<rparr>\<rparr>;
              m2 = (if e_health enemy \<le> 0
                    then (let md = spawnEnemyDrops rnd (e_x enemy) (e_y enemy) (enemyType enemy) m1
                          in case findIndex (\<lambda>e. e_id e = enemyId) (enemies (state md)) of
                               None \<Rightarrow> md
                             | Some j \<Rightarrow>
                                 md\<lparr>state := (state md)\<lparr>enemies := splice1 j (enemies (state md))\<rparr>\<rparr>)
                    else m1)
          in (notifyListeners m2, True))"

section \<open>The tile grid\<close>

text \<open>
  \<open>number[][]\<close>, row-major: \<open>map[y][x]\<close>. Coordinates are \<open>int\<close>, as the code
  adds negative offsets to them. \<open>hasRow\<close> and \<open>inGrid\<close> say whether an index pair is
  inside the arrays; where the code reads an array of unknown shape, the model returns
  \<open>None\<close> for a missing row (JavaScript throws a TypeError on \<open>undefined[x]\<close>).
\<close>

type_synonym grid = "int list list"

definition hasRow :: "'a list list \<Rightarrow> int \<Rightarrow> bool" where
  "hasRow g y = (0 \<le> y \<and> y < int (length g))"

definition inGrid :: "'a list list \<Rightarrow> int \<Rightarrow> int \<Rightarrow> bool" where
  "inGrid g y x = (hasRow g y \<and> 0 \<le> x \<and> x < int (length (g ! nat y)))"

definition getCell :: "'a list list \<Rightarrow> int \<Rightarrow> int \<Rightarrow> 'a" where
  "getCell g y x = g ! nat y ! nat x"

definition setCell :: "'a list list \<Rightarrow> int \<Rightarrow> int \<Rightarrow> 'a \<Rightarrow> 'a list list" where
  "setCell g y x v = g[nat y := (g ! nat y)[nat x := v]]"

text \<open>
  \<open>map[y][x] === 0\<close> on an array of unknown shape: \<open>None\<close> when the row is missing
  (TypeError), false when only the column is (\<open>undefined === 0\<close>).
\<close>

definition cellIsZero :: "grid \<Rightarrow> int \<Rightarrow> int \<Rightarrow> bool option" where
  "cellIsZero g y x =
     (if hasRow g y then Some (inGrid g y x \<and> getCell g y x = 0) else None)"

definition squareGrid :: "int \<Rightarrow> 'a list list \<Rightarrow> bool" where
  "squareGrid sz g = (int (length g) = sz \<and> (\<forall>r \<in> set g. int (length r) = sz))"

definition unvisited :: "bool list list \<Rightarrow> nat" where
  "unvisited v = length (filter Not (concat v))"

lemma filter_Not_update:
  "x < length r \<Longrightarrow> \<not> r ! x \<Longrightarrow>
   Suc (length (filter Not (r[x := True]))) = length (filter Not r)"
proof (induction r arbitrary: x)
  case Nil
  then show ?case by simp
next
  case (Cons a r)
  then show ?case by (cases x) auto
qed

lemma unvisited_setCell:
  assumes "inGrid v y x" and "\<not> getCell v y x"
  shows "Suc (unvisited (setCell v y x True)) = unvisited v"
proof -
  let ?i = "nat y" and ?j = "nat x"
  from assms have i: "?i < length v" and j: "?j < length (v ! ?i)" and n: "\<not> v ! ?i ! ?j"
    by (auto simp: inGrid_def hasRow_def getCell_def)
  have a: "concat (v[?i := (v ! ?i)[?j := True]]) =
           concat (take ?i v) @ (v ! ?i)[?j := True] @ concat (drop (Suc ?i) v)"
    using i by (simp add: upd_conv_take_nth_drop)
  have b: "concat v = concat (take ?i v) @ v ! ?i @ concat (drop (Suc ?i) v)"
    using i by (metis concat.simps(2) concat_append id_take_nth_drop)
  have c: "Suc (length (filter Not ((v ! ?i)[?j := True]))) = length (filter Not (v ! ?i))"
    using j n by (rule filter_Not_update)
  have "unvisited v =
        length (filter Not (concat (take ?i v))) + length (filter Not (v ! ?i))
        + length (filter Not (concat (drop (Suc ?i) v)))"
    unfolding unvisited_def by (subst b) simp
  moreover have "unvisited (setCell v y x True) =
        length (filter Not (concat (take ?i v))) + length (filter Not ((v ! ?i)[?j := True]))
        + length (filter Not (concat (drop (Suc ?i) v)))"
    unfolding unvisited_def setCell_def by (subst a) simp
  ultimately show ?thesis using c by simp
qed

section \<open>Flood fill\<close>

definition directions4 :: "(int \<times> int) list" where
  "directions4 = [(0, -1), (1, 0), (0, 1), (-1, 0)]"

text \<open>
  The body of the \<open>for (const dir of directions)\<close> loop, for the cell \<open>(cx, cy)\<close> just
  taken from the queue. \<open>visited\<close> is read before \<open>map\<close> (short-circuit \<open>&&\<close>). The
  result is \<open>None\<close> when an index that passed the \<open>size\<close> test is outside \<open>visited\<close>,
  or its row is outside \<open>map\<close>: the arrays are then not \<open>size \<times> size\<close>.
\<close>

fun visitNeighbours ::
  "grid \<Rightarrow> int \<Rightarrow> int \<times> int \<Rightarrow> (int \<times> int) list
     \<Rightarrow> bool list list \<times> (int \<times> int) list \<Rightarrow> (bool list list \<times> (int \<times> int) list) option" where
  "visitNeighbours g sz cur [] (v, q) = Some (v, q)"
| "visitNeighbours g sz (cx, cy) ((dx, dy) # ds) (v, q) =
     (let newX = cx + dx; newY = cy + dy in
      if newX \<ge> 0 \<and> newX < sz \<and> newY \<ge> 0 \<and> newY < sz then
        if \<not> inGrid v newY newX then None
        else if getCell v newY newX then visitNeighbours g sz (cx, cy) ds (v, q)
        else
          (case cellIsZero g newY newX of
             None \<Rightarrow> None
           | Some False \<Rightarrow> visitNeighbours g sz (cx, cy) ds (v, q)
           | Some True \<Rightarrow>
               visitNeighbours g sz (cx, cy) ds
                 (setCell v newY newX True, q @ [(newX, newY)]))
      else visitNeighbours g sz (cx, cy) ds (v, q))"

lemma visitNeighbours_measure:
  "visitNeighbours g sz cur ds (v, q) = Some (v', q') \<Longrightarrow>
   unvisited v' + length q' = unvisited v + length q"
proof (induction ds arbitrary: v q)
  case Nil
  then show ?case by simp
next
  case (Cons d ds)
  obtain cx cy where cur: "cur = (cx, cy)" by (cases cur)
  obtain dx dy where d: "d = (dx, dy)" by (cases d)
  show ?case
  proof (cases "cx + dx \<ge> 0 \<and> cx + dx < sz \<and> cy + dy \<ge> 0 \<and> cy + dy < sz \<and>
                inGrid v (cy + dy) (cx + dx) \<and> \<not> getCell v (cy + dy) (cx + dx) \<and>
                cellIsZero g (cy + dy) (cx + dx) = Some True")
    case True
    with Cons.prems cur d have
      "visitNeighbours g sz cur ds
         (setCell v (cy + dy) (cx + dx) True, q @ [(cx + dx, cy + dy)]) = Some (v', q')"
      by (simp add: Let_def)
    from Cons.IH [OF this] unvisited_setCell [of v "cy + dy" "cx + dx"] True
    show ?thesis by simp
  next
    case False
    with Cons.prems cur d have "visitNeighbours g sz cur ds (v, q) = Some (v', q')"
      by (auto simp: Let_def split: if_splits option.splits bool.splits)
    from Cons.IH [OF this] show ?thesis .
  qed
qed

text \<open>The \<open>while (queue.length > 0)\<close> loop; \<open>queue.shift()\<close> takes the head.\<close>

function floodLoop ::
  "grid \<Rightarrow> int \<Rightarrow> bool list list \<Rightarrow> (int \<times> int) list \<Rightarrow> bool list list option" where
  "floodLoop g sz v [] = Some v"
| "floodLoop g sz v (cur # rest) =
     (case visitNeighbours g sz cur directions4 (v, rest) of
        None \<Rightarrow> None
      | Some (v', q') \<Rightarrow> floodLoop g sz v' q')"
  by pat_completeness auto
termination
proof (relation "measure (\<lambda>(g, sz, v, q). unvisited v + length q)", goal_cases)
  case 1
  show ?case by simp
next
  case (2 g sz v cur rest x2 v' q')
  then have "visitNeighbours g sz cur directions4 (v, rest) = Some (v', q')" by simp
  from visitNeighbours_measure [OF this] show ?case by simp
qed

text \<open>
  \<open>Array(size)\<close> with a negative size throws, and \<open>visited[startY][startX] = true\<close>
  throws or grows a row when the start is outside the fresh array: \<open>None\<close>.
\<close>

definition floodFill :: "grid \<Rightarrow> int \<Rightarrow> int \<Rightarrow> int \<Rightarrow> bool list list option" where
  "floodFill g startX startY sz =
     (let visited = replicate (nat sz) (replicate (nat sz) False) in
      if \<not> inGrid visited startY startX then None
      else floodLoop g sz (setCell visited startY startX True) [(startX, startY)])"

section \<open>Connectivity repair\<close>

text \<open>
  The functions of this section are private and run on the \<open>size \<times> size\<close> array that
  \<open>generateWorldMapWithTheme\<close> has just allocated, with every index in \<open>1..size-2\<close>,
  so no access leaves the array. \<open>interiorCells\<close> lists the cells in the order of
  \<open>for y = 1..size-2, for x = 1..size-2\<close>, as pairs \<open>(x, y)\<close>.
\<close>

definition interiorCells :: "int \<Rightarrow> (int \<times> int) list" where
  "interiorCells sz = concat (map (\<lambda>y. map (\<lambda>x. (x, y)) [1..sz - 2]) [1..sz - 2])"

definition isInterior :: "int \<Rightarrow> int \<Rightarrow> int \<Rightarrow> bool" where
  "isInterior sz x y = (x > 0 \<and> x < sz - 1 \<and> y > 0 \<and> y < sz - 1)"

function carveHorizontal :: "grid \<Rightarrow> int \<Rightarrow> int \<Rightarrow> int \<Rightarrow> int \<Rightarrow> grid" where
  "carveHorizontal g sz currentX currentY toX =
     (if currentX \<noteq> toX
      then carveHorizontal
             (if isInterior sz currentX currentY then setCell g currentY currentX 0 else g)
             sz (currentX + (if currentX < toX then 1 else -1)) currentY toX
      else g)"
  by pat_completeness auto
termination
  by (relation "measure (\<lambda>(g, sz, cx, cy, tx). nat \<bar>tx - cx\<bar>)") auto

declare carveHorizontal.simps [simp del]

function carveVertical :: "grid \<Rightarrow> int \<Rightarrow> int \<Rightarrow> int \<Rightarrow> int \<Rightarrow> grid" where
  "carveVertical g sz currentX currentY toY =
     (if currentY \<noteq> toY
      then carveVertical
             (if isInterior sz currentX currentY then setCell g currentY currentX 0 else g)
             sz currentX (currentY + (if currentY < toY then 1 else -1)) toY
      else g)"
  by pat_completeness auto
termination
  by (relation "measure (\<lambda>(g, sz, cx, cy, ty). nat \<bar>ty - cy\<bar>)") auto

declare carveVertical.simps [simp del]

text \<open>
  \<open>createPath\<close>: the first loop ends with \<open>currentX = to.x\<close>, the second one walks the
  column \<open>to.x\<close>. The target cell itself is not written.
\<close>

definition createPath :: "grid \<Rightarrow> int \<times> int \<Rightarrow> int \<times> int \<Rightarrow> int \<Rightarrow> grid" where
  "createPath g from to sz =
     carveVertical (carveHorizontal g sz (fst from) (snd from) (fst to))
       sz (fst to) (snd from) (snd to)"

text \<open>
  The nearest reachable interior cell in Manhattan distance; \<open>None\<close> stands for the
  initial \<open>Infinity\<close>/\<open>null\<close>. The comparison is strict, so the first minimum in scan
  order wins.
\<close>

fun closestLoop ::
  "bool list list \<Rightarrow> int \<times> int \<Rightarrow> (int \<times> int) list \<Rightarrow> (int \<times> (int \<times> int)) option
     \<Rightarrow> (int \<times> (int \<times> int)) option" where
  "closestLoop reachable area [] best = best"
| "closestLoop reachable area ((x, y) # cells) best =
     closestLoop reachable area cells
       (if getCell reachable y x
        then (let distance = \<bar>x - fst area\<bar> + \<bar>y - snd area\<bar> in
              case best of
                None \<Rightarrow> Some (distance, (x, y))
              | Some (closestDistance, c) \<Rightarrow>
                  if distance < closestDistance then Some (distance, (x, y)) else best)
        else best)"

definition closestReachable ::
  "bool list list \<Rightarrow> int \<Rightarrow> int \<times> int \<Rightarrow> (int \<times> (int \<times> int)) option" where
  "closestReachable reachable sz area = closestLoop reachable area (interiorCells sz) None"

text \<open>
  The list of unreachable cells is computed once, from the grid and the flood fill as
  they are on entry; the paths are then carved one after the other into the same grid
  (\<open>unreachableAreas.forEach\<close>).
\<close>

fun connectAreas :: "bool list list \<Rightarrow> int \<Rightarrow> (int \<times> int) list \<Rightarrow> grid \<Rightarrow> grid" where
  "connectAreas reachable sz [] g = g"
| "connectAreas reachable sz (area # rest) g =
     connectAreas reachable sz rest
       (case closestReachable reachable sz area of
          None \<Rightarrow> g
        | Some (d, c) \<Rightarrow> createPath g area c sz)"

definition connectUnreachableAreas :: "grid \<Rightarrow> bool list list \<Rightarrow> int \<Rightarrow> grid" where
  "connectUnreachableAreas g reachable sz =
     (let unreachableAreas =
            filter (\<lambda>(x, y). getCell g y x = 0 \<and> \<not> getCell reachable y x) (interiorCells sz)
      in connectAreas reachable sz unreachableAreas g)"

text \<open>
  The two loops of \<open>createEmergencyConnections\<close> that clear cells of the middle row and
  of the middle column, each cell with one call of \<open>Math.random()\<close>; \<open>k\<close> is the
  position in the oracle.
\<close>

fun clearMiddleRow :: "(nat \<Rightarrow> real) \<Rightarrow> int \<Rightarrow> int list \<Rightarrow> grid \<times> nat \<Rightarrow> grid \<times> nat" where
  "clearMiddleRow rnd midPoint [] (g, k) = (g, k)"
| "clearMiddleRow rnd midPoint (x # xs) (g, k) =
     clearMiddleRow rnd midPoint xs
       (if rnd k < 0.3 then setCell g midPoint x 0 else g, Suc k)"

fun clearMiddleColumn :: "(nat \<Rightarrow> real) \<Rightarrow> int \<Rightarrow> int list \<Rightarrow> grid \<times> nat \<Rightarrow> grid \<times> nat" where
  "clearMiddleColumn rnd midPoint [] (g, k) = (g, k)"
| "clearMiddleColumn rnd midPoint (y # ys) (g, k) =
     clearMiddleColumn rnd midPoint ys
       (if rnd k < 0.3 then setCell g y midPoint 0 else g, Suc k)"

definition clearSpawnArea :: "int \<Rightarrow> int \<Rightarrow> grid \<Rightarrow> grid" where
  "clearSpawnArea midPoint sz g =
     fold (\<lambda>(dx, dy) g'.
             if isInterior sz (midPoint + dx) (midPoint + dy)
             then setCell g' (midPoint + dy) (midPoint + dx) 0 else g')
          (concat (map (\<lambda>dy. map (\<lambda>dx. (dx, dy)) [-1, 0, 1]) [-1, 0, 1])) g"

definition createEmergencyConnections ::
  "(nat \<Rightarrow> real) \<Rightarrow> grid \<Rightarrow> int \<Rightarrow> nat \<Rightarrow> grid \<times> nat" where
  "createEmergencyConnections rnd g sz k =
     (let midPoint = sz div 2;
          (g1, k1) = clearMiddleRow rnd midPoint [1..sz - 2] (g, k);
          (g2, k2) = clearMiddleColumn rnd midPoint [1..sz - 2] (g1, k1)
      in (clearSpawnArea midPoint sz g2, k2))"

definition ensureMapConnectivity ::
  "(nat \<Rightarrow> real) \<Rightarrow> grid \<Rightarrow> int \<Rightarrow> nat \<Rightarrow> (grid \<times> nat) option" where
  "ensureMapConnectivity rnd g sz k =
     (let playerStartX = sz div 2; playerStartY = sz div 2 in
      case floodFill g playerStartX playerStartY sz of
        None \<Rightarrow> None
      | Some reachable \<Rightarrow>
          Some (createEmergencyConnections rnd (connectUnreachableAreas g reachable sz) sz k))"

section \<open>Dungeon generation\<close>

record WallTypes =
  border :: int
  primary :: int
  secondary :: int
  accent :: int

definition getThemeWallTypes :: "string \<Rightarrow> WallTypes" where
  "getThemeWallTypes theme =
     (if theme = ''tech_base'' then \<lparr>border = 1, primary = 2, secondary = 3, accent = 4\<rparr>
      else if theme = ''hell_fortress'' then \<lparr>border = 1, primary = 18, secondary = 19, accent = 20\<rparr>
      else if theme = ''ancient_ruins'' then \<lparr>border = 1, primary = 14, secondary = 15, accent = 16\<rparr>
      else if theme = ''cyber_facility'' then \<lparr>border = 1, primary = 10, secondary = 11, accent = 13\<rparr>
      else if theme = ''void_realm'' then \<lparr>border = 1, primary = 22, secondary = 23, accent = 24\<rparr>
      else if theme = ''industrial_complex'' then \<lparr>border = 1, primary = 6, secondary = 7, accent = 8\<rparr>
      else \<lparr>border = 1, primary = 2, secondary = 3, accent = 4\<rparr>)"

text \<open>
  \<open>themes[Math.floor((floor - 1) / 5) % themes.length]\<close>. For \<open>floor \<le> 0\<close> the
  JavaScript remainder is negative or zero, and a negative index reads \<open>undefined\<close>,
  written here as the string \<open>''undefined''\<close>.
\<close>

definition getFloorTheme :: "int \<Rightarrow> string" where
  "getFloorTheme floorNo =
     (let themes = [''tech_base'', ''hell_fortress'', ''ancient_ruins'', ''cyber_facility'',
                    ''void_realm''];
          q = (floorNo - 1) div 5
      in if q \<ge> 0 then themes ! nat (q mod 5)
         else if q mod 5 = 0 then themes ! 0
         else ''undefined'')"

text \<open>The fresh array with its border filled in: the first two steps of the generator.\<close>

definition borderedGrid :: "int \<Rightarrow> int \<Rightarrow> grid" where
  "borderedGrid sz b =
     map (\<lambda>y. map (\<lambda>x. if x = 0 \<or> x = sz - 1 \<or> y = 0 \<or> y = sz - 1 then b else 0)
                [0..sz - 1])
         [0..sz - 1]"

text \<open>
  The four structure stages (\<open>generateRooms\<close>, \<open>generateMaze\<close>, \<open>generatePillars\<close>,
  \<open>generateSpecialRooms\<close>) do nothing to the grid but assign cells, at places and with
  values that depend on \<open>Math.random()\<close>. They enter the model as the list of the
  assignments \<open>map[y][x] = v\<close> they make, in order, each a triple \<open>(y, x, v)\<close>:
  a parameter of the generator, not computed here. An assignment outside the array is
  skipped.
\<close>

definition applyWrites :: "(int \<times> int \<times> int) list \<Rightarrow> grid \<Rightarrow> grid" where
  "applyWrites ws g =
     fold (\<lambda>(y, x, v) g'. if inGrid g' y x then setCell g' y x v else g') ws g"

definition generateWorldMapWithTheme ::
  "(int \<times> int \<times> int) list \<Rightarrow> (nat \<Rightarrow> real) \<Rightarrow> int \<Rightarrow> string \<Rightarrow> nat \<Rightarrow> (grid \<times> nat) option" where
  "generateWorldMapWithTheme structure rnd sz theme k =
     (let wallTypes = getThemeWallTypes theme;
          g = applyWrites structure (borderedGrid sz (border wallTypes))
      in ensureMapConnectivity rnd g sz k)"

section \<open>Populating a floor\<close>

text \<open>
  \<open>reachable[y][x]\<close> as a condition: \<open>None\<close> when the row is missing (TypeError),
  false when only the column is (\<open>undefined\<close> is falsy).
\<close>

definition cellIsTrue :: "bool list list \<Rightarrow> int \<Rightarrow> int \<Rightarrow> bool option" where
  "cellIsTrue v y x =
     (if hasRow v y then Some (inGrid v y x \<and> getCell v y x) else None)"

text \<open>
  \<open>this.state?.nextEnemyId || fallback\<close>: the state exists whenever these methods run,
  and \<open>||\<close> takes the fallback when the id is \<open>0\<close>.
\<close>

definition enemyIdOr :: "GameStateManager \<Rightarrow> int \<Rightarrow> int" where
  "enemyIdOr m fallback =
     (if nextEnemyId (state m) \<noteq> 0 then nextEnemyId (state m) else fallback)"

definition newEnemy ::
  "int \<Rightarrow> real \<Rightarrow> real \<Rightarrow> int \<Rightarrow> EnemyType \<Rightarrow> int \<Rightarrow> Enemy" where
  "newEnemy i x y maxHealth ty exploration =
     \<lparr>e_id = i, e_x = x, e_y = y, e_health = maxHealth, e_maxHealth = maxHealth,
      e_state = Idle, lastPlayerX = 0, lastPlayerY = 0, attackCooldown = 0,
      patrolTarget = None, enemyType = ty, explorationCooldown = exploration,
      explorationDirection = None, isBoss = False, spawnCooldown = 0,
      spawnsRemaining = 0, phaseTransitions = [], currentPhase = 0,
      isHurt = False, hurtTimer = 0\<rparr>"

text \<open>
  One regular enemy, once its position has passed the three tests: the draws are the
  type, the health roll and the exploration cooldown, in this order. \<open>None\<close> when the
  type index is outside \<open>enemyTypes\<close>, which \<open>Math.random()\<close> in \<open>[0, 1)\<close> never
  gives.
\<close>

definition pushRandomEnemy ::
  "(nat \<Rightarrow> real) \<Rightarrow> real \<Rightarrow> real \<Rightarrow> Enemy list \<Rightarrow> GameStateManager
     \<Rightarrow> (Enemy list \<times> GameStateManager) option" where
  "pushRandomEnemy rnd x y es m =
     (let (r1, m1) = random rnd m;
          idx = \<lfloor>r1 * 3\<rfloor>;
          (r2, m2) = random rnd m1;
          (r3, m3) = random rnd m2;
          i = enemyIdOr m3 (int (length es) + 1);
          exploration = \<lfloor>r3 * 300\<rfloor> + 60;
          m4 = m3\<lparr>state := (state m3)\<lparr>nextEnemyId := nextEnemyId (state m3) + 1\<rparr>\<rparr>
      in if idx = 0 then Some (es @ [newEnemy i x y (20 + \<lfloor>r2 * 16\<rfloor>) Grunt exploration], m4)
         else if idx = 1 then Some (es @ [newEnemy i x y (30 + \<lfloor>r2 * 21\<rfloor>) Soldier exploration], m4)
         else if idx = 2 then Some (es @ [newEnemy i x y (45 + \<lfloor>r2 * 26\<rfloor>) Captain exploration], m4)
         else None)"

text \<open>
  The three tests on a drawn position: the cell is free, it is more than 5 away from
  the spawn point, and the flood fill from the spawn cell reaches it. \<open>None\<close> when a
  lookup throws.
\<close>

definition enemyPositionValid :: "grid \<Rightarrow> int \<Rightarrow> real \<Rightarrow> real \<Rightarrow> bool option" where
  "enemyPositionValid wm sz x y =
     (case cellIsZero wm \<lfloor>y\<rfloor> \<lfloor>x\<rfloor> of
        None \<Rightarrow> None
      | Some False \<Rightarrow> Some False
      | Some True \<Rightarrow>
          if sqrt ((x - real_of_int sz / 2)\<^sup>2 + (y - real_of_int sz / 2)\<^sup>2) > 5 then
            (case floodFill wm (sz div 2) (sz div 2) sz of
               None \<Rightarrow> None
             | Some reachable \<Rightarrow> cellIsTrue reachable \<lfloor>y\<rfloor> \<lfloor>x\<rfloor>)
          else Some False)"

text \<open>
  The loop \<open>while (enemies.length < enemyCount && attempts < 200)\<close>; the fifth
  argument is the number of attempts left.
\<close>

fun enemyAttempts ::
  "(nat \<Rightarrow> real) \<Rightarrow> grid \<Rightarrow> int \<Rightarrow> int \<Rightarrow> nat \<Rightarrow> Enemy list \<Rightarrow> GameStateManager
     \<Rightarrow> (Enemy list \<times> GameStateManager) option" where
  "enemyAttempts rnd wm sz enemyCount 0 es m = Some (es, m)"
| "enemyAttempts rnd wm sz enemyCount (Suc n) es m =
     (if int (length es) < enemyCount then
        (let (r1, m1) = random rnd m;
             x = 2 + r1 * (real_of_int sz - 4);
             (r2, m2) = random rnd m1;
             y = 2 + r2 * (real_of_int sz - 4)
         in case enemyPositionValid wm sz x y of
              None \<Rightarrow> None
            | Some False \<Rightarrow> enemyAttempts rnd wm sz enemyCount n es m2
            | Some True \<Rightarrow>
                (case pushRandomEnemy rnd x y es m2 of
                   None \<Rightarrow> None
                 | Some (es', m3) \<Rightarrow> enemyAttempts rnd wm sz enemyCount n es' m3))
      else Some (es, m))"

definition generateRandomEnemies ::
  "(nat \<Rightarrow> real) \<Rightarrow> grid \<Rightarrow> int \<Rightarrow> GameStateManager
     \<Rightarrow> (Enemy list \<times> GameStateManager) option" where
  "generateRandomEnemies rnd wm sz m =
     (let (r, m1) = random rnd m;
          enemyCount = 8 + \<lfloor>r * 9\<rfloor>
      in enemyAttempts rnd wm sz enemyCount 200 [] m1)"

definition bossTypeOf :: "int \<Rightarrow> EnemyType" where
  "bossTypeOf floorNumber =
     [BossDemon, BossCyberdemon, BossSpiderMastermind] ! nat ((floorNumber div 5) mod 3)"

definition newBoss :: "int \<Rightarrow> real \<Rightarrow> real \<Rightarrow> int \<Rightarrow> Enemy" where
  "newBoss i x y floorNumber =
     (let bossType = bossTypeOf floorNumber;
          maxHealth = (case bossType of
                         BossDemon \<Rightarrow> 150 + floorNumber * 20
                       | BossCyberdemon \<Rightarrow> 200 + floorNumber * 25
                       | _ \<Rightarrow> 250 + floorNumber * 30);
          spawns = (case bossType of
                      BossDemon \<Rightarrow> 3 + floorNumber div 5
                    | BossCyberdemon \<Rightarrow> 4 + floorNumber div 5
                    | _ \<Rightarrow> 5 + floorNumber div 5);
          h = real_of_int maxHealth;
          transitions = (case bossType of
                           BossDemon \<Rightarrow> [h * 0.75, h * 0.5, h * 0.25]
                         | BossCyberdemon \<Rightarrow> [h * 0.8, h * 0.6, h * 0.4, h * 0.2]
                         | _ \<Rightarrow> [h * 0.85, h * 0.7, h * 0.55, h * 0.4, h * 0.25])
      in \<lparr>e_id = i, e_x = x, e_y = y, e_health = maxHealth, e_maxHealth = maxHealth,
          e_state = Idle, lastPlayerX = 0, lastPlayerY = 0, attackCooldown = 0,
          patrolTarget = None, enemyType = bossType, explorationCooldown = 0,
          explorationDirection = None, isBoss = True, spawnCooldown = 0,
          spawnsRemaining = spawns, phaseTransitions = transitions, currentPhase = 0,
          isHurt = False, hurtTimer = 0\<rparr>)"

text \<open>The two tests on a drawn boss position: free cell, more than 15 from the spawn.\<close>

definition bossPositionValid :: "grid \<Rightarrow> int \<Rightarrow> real \<Rightarrow> real \<Rightarrow> bool option" where
  "bossPositionValid wm sz x y =
     (case cellIsZero wm \<lfloor>y\<rfloor> \<lfloor>x\<rfloor> of
        None \<Rightarrow> None
      | Some False \<Rightarrow> Some False
      | Some True \<Rightarrow>
          Some (sqrt ((x - real_of_int sz / 2)\<^sup>2 + (y - real_of_int sz / 2)\<^sup>2) > 15))"

text \<open>
  \<open>generateBossEnemy\<close>: up to 100 placement attempts; the result is the boss or
  \<open>null\<close>. The boss takes \<open>nextEnemyId\<close> as its id, and the counter is left as it is.
\<close>

fun bossAttempts ::
  "(nat \<Rightarrow> real) \<Rightarrow> grid \<Rightarrow> int \<Rightarrow> int \<Rightarrow> nat \<Rightarrow> GameStateManager
     \<Rightarrow> (Enemy option \<times> GameStateManager) option" where
  "bossAttempts rnd wm sz floorNumber 0 m = Some (None, m)"
| "bossAttempts rnd wm sz floorNumber (Suc n) m =
     (let (r1, m1) = random rnd m;
          x = 5 + r1 * (real_of_int sz - 10);
          (r2, m2) = random rnd m1;
          y = 5 + r2 * (real_of_int sz - 10)
      in case bossPositionValid wm sz x y of
           None \<Rightarrow> None
         | Some False \<Rightarrow> bossAttempts rnd wm sz floorNumber n m2
         | Some True \<Rightarrow>
             Some (Some (newBoss (enemyIdOr m2 (1000 + floorNumber)) x y floorNumber), m2))"

definition generateBossEnemy ::
  "(nat \<Rightarrow> real) \<Rightarrow> grid \<Rightarrow> int \<Rightarrow> int \<Rightarrow> GameStateManager
     \<Rightarrow> (Enemy option \<times> GameStateManager) option" where
  "generateBossEnemy rnd wm sz floorNumber m = bossAttempts rnd wm sz floorNumber 100 m"

text \<open>
  One ambient pickup at an accepted position: the type draw, then the value draw (or the
  weapon draw), then \<open>spawnPickup\<close>. \<open>None\<close> when the type index is outside
  \<open>pickupTypes\<close>.
\<close>

definition spawnRandomPickup ::
  "(nat \<Rightarrow> real) \<Rightarrow> real \<Rightarrow> real \<Rightarrow> GameStateManager \<Rightarrow> GameStateManager option" where
  "spawnRandomPickup rnd x y m =
     (let (r1, m1) = random rnd m;
          idx = \<lfloor>r1 * 3\<rfloor>;
          (r2, m2) = random rnd m1
      in if idx = 0 then Some (spawnPickup rnd x y HealthPickup (25 + \<lfloor>r2 * 26\<rfloor>) None m2)
         else if idx = 1 then Some (spawnPickup rnd x y AmmoPickup (15 + \<lfloor>r2 * 21\<rfloor>) None m2)
         else if idx = 2 then
           (let wt = (if r2 < 0.7 then Shotgun else Chaingun)
            in Some (spawnPickup rnd x y WeaponPickup (if wt = Shotgun then 12 else 30) (Some wt) m2))
         else None)"

text \<open>The two tests on a drawn pickup position: free cell, more than 3 from the spawn.\<close>

definition pickupPositionValid :: "GameStateManager \<Rightarrow> real \<Rightarrow> real \<Rightarrow> bool option" where
  "pickupPositionValid m x y =
     (let sz = real_of_int (worldSize (state m)) in
      case cellIsZero (worldMap (state m)) \<lfloor>y\<rfloor> \<lfloor>x\<rfloor> of
        None \<Rightarrow> None
      | Some False \<Rightarrow> Some False
      | Some True \<Rightarrow> Some (sqrt ((x - sz / 2)\<^sup>2 + (y - sz / 2)\<^sup>2) > 3))"

text \<open>
  The loop \<open>while (this.state.pickups.length < pickupCount && attempts < 200)\<close>; the
  third argument is the number of attempts left.
\<close>

fun pickupAttempts ::
  "(nat \<Rightarrow> real) \<Rightarrow> int \<Rightarrow> nat \<Rightarrow> GameStateManager \<Rightarrow> GameStateManager option" where
  "pickupAttempts rnd pickupCount 0 m = Some m"
| "pickupAttempts rnd pickupCount (Suc n) m =
     (if int (length (pickups (state m))) < pickupCount then
        (let sz = real_of_int (worldSize (state m));
             (r1, m1) = random rnd m;
             x = 2 + r1 * (sz - 4);
             (r2, m2) = random rnd m1;
             y = 2 + r2 * (sz - 4)
         in case pickupPositionValid m2 x y of
              None \<Rightarrow> None
            | Some False \<Rightarrow> pickupAttempts rnd pickupCount n m2
            | Some True \<Rightarrow>
                (case spawnRandomPickup rnd x y m2 of
                   None \<Rightarrow> None
                 | Some m3 \<Rightarrow> pickupAttempts rnd pickupCount n m3))
      else Some m)"

definition generateRandomPickups ::
  "(nat \<Rightarrow> real) \<Rightarrow> GameStateManager \<Rightarrow> GameStateManager option" where
  "generateRandomPickups rnd m =
     (let (r, m1) = random rnd m;
          pickupCount = 5 + \<lfloor>r * 6\<rfloor>
      in pickupAttempts rnd pickupCount 200 m1)"

section \<open>Floor progression\<close>

text \<open>\<open>Array.prototype.slice(0, n)\<close>; a negative \<open>n\<close> counts from the end.\<close>

definition slice0 :: "int \<Rightarrow> 'a list \<Rightarrow> 'a list" where
  "slice0 n xs = (if n \<ge> 0 then take (nat n) xs else take (length xs - nat (- n)) xs)"

text \<open>
  \<open>progressToNextFloor\<close>. The grid is generated before anything is assigned; the
  result is \<open>None\<close> when one of the generators throws. \<open>structure\<close> is the list of
  assignments of the structure stages of this one generation.
\<close>

definition progressToNextFloor ::
  "(int \<times> int \<times> int) list \<Rightarrow> (nat \<Rightarrow> real) \<Rightarrow> GameStateManager \<Rightarrow> GameStateManager option" where
  "progressToNextFloor structure rnd m =
     (if enemies (state m) = [] \<or> (isBossFloor (state m) \<and> bossDefeated (state m)) then
        (let nextFloor = currentFloor (state m) + 1;
             bossFloor = (nextFloor mod 5 = 0);
             theme = getFloorTheme nextFloor;
             newSize = min (64 + (nextFloor div 5) * 8) 96
         in case generateWorldMapWithTheme structure rnd newSize theme (randomCalls m) of
              None \<Rightarrow> None
            | Some (newMap, k) \<Rightarrow>
                (let p = player (state m);
                     p' = p\<lparr>p_x := real_of_int newSize / 2,
                            p_y := real_of_int newSize / 2,
                            p_angle := 0,
                            p_health := min (p_maxHealth p) (p_health p + 25),
                            p_ammo := (\<lambda>w. case w of
                                         Pistol \<Rightarrow> min (p_maxAmmo p Pistol) (p_ammo p Pistol + 20)
                                       | Shotgun \<Rightarrow> min (p_maxAmmo p Shotgun) (p_ammo p Shotgun + 10)
                                       | Chaingun \<Rightarrow> min (p_maxAmmo p Chaingun) (p_ammo p Chaingun + 30))\<rparr>;
                     m1 = m\<lparr>randomCalls := k,
                            state := (state m)\<lparr>player := p', currentFloor := nextFloor,
                                               floorTheme := theme, isBossFloor := bossFloor,
                                               bossDefeated := False, worldMap := newMap,
                                               worldSize := newSize\<rparr>\<rparr>;
                     populated =
                       (if bossFloor then
                          (case generateRandomEnemies rnd newMap newSize m1 of
                             None \<Rightarrow> None
                           | Some (regularEnemies, m2) \<Rightarrow>
                               (case generateBossEnemy rnd newMap newSize nextFloor m2 of
                                  None \<Rightarrow> None
                                | Some (bossEnemy, m3) \<Rightarrow>
                                    Some (m3\<lparr>state := (state m3)
                                            \<lparr>enemies := slice0 (3 + nextFloor div 10) regularEnemies
                                                          @ (case bossEnemy of None \<Rightarrow> [] | Some b \<Rightarrow> [b])\<rparr>\<rparr>)))
                        else
                          (case generateRandomEnemies rnd newMap newSize m1 of
                             None \<Rightarrow> None
                           | Some (es, m2) \<Rightarrow> Some (m2\<lparr>state := (state m2)\<lparr>enemies := es\<rparr>\<rparr>)))
                 in case populated of
                      None \<Rightarrow> None
                    | Some m4 \<Rightarrow>
                        (case generateRandomPickups rnd (m4\<lparr>state := (state m4)\<lparr>pickups := []\<rparr>\<rparr>) of
                           None \<Rightarrow> None
                         | Some m5 \<Rightarrow>
                             Some (notifyListeners
                                     (m5\<lparr>state := (state m5)\<lparr>gameStatus := Playing\<rparr>\<rparr>)))))
      else Some m)"

text \<open>
  \<open>checkFloorProgression\<close> sets the boss-defeated flag and schedules
  \<open>progressToNextFloor\<close> with \<open>setTimeout\<close>. The second component says whether a call
  was scheduled; the scheduled call itself happens later, as a call of its own.
\<close>

definition checkFloorProgression :: "GameStateManager \<Rightarrow> GameStateManager \<times> bool" where
  "checkFloorProgression m =
     (let aliveBosses = filter (\<lambda>e. isBoss e \<and> e_health e > 0) (enemies (state m));
          aliveEnemies = filter (\<lambda>e. e_health e > 0) (enemies (state m))
      in if isBossFloor (state m) then
           (if aliveEnemies = [] \<and> aliveBosses = []
            then (m\<lparr>state := (state m)\<lparr>bossDefeated := True\<rparr>\<rparr>, True)
            else (m, False))
         else (m, aliveEnemies = []))"

section \<open>Construction and reset\<close>

definition initialPlayer :: "int \<Rightarrow> Player" where
  "initialPlayer sz =
     \<lparr>p_x = real_of_int sz / 2, p_y = real_of_int sz / 2, p_angle = 0, p_health = 100,
      p_ammo = (\<lambda>w. case w of Pistol \<Rightarrow> 50 | Shotgun \<Rightarrow> 0 | Chaingun \<Rightarrow> 0),
      p_maxHealth = 100,
      p_maxAmmo = (\<lambda>w. case w of Pistol \<Rightarrow> 200 | Shotgun \<Rightarrow> 50 | Chaingun \<Rightarrow> 200),
      weapon = Pistol, availableWeapons = {Pistol}, isAttacking = False, attackTimer = 0,
      muzzleFlash = False, muzzleFlashTimer = 0\<rparr>"

definition createInitialState ::
  "(int \<times> int \<times> int) list \<Rightarrow> (nat \<Rightarrow> real) \<Rightarrow> nat \<Rightarrow> (GameState \<times> nat) option" where
  "createInitialState structure rnd k =
     (let sz = 64;
          floorNo = 1;
          theme = getFloorTheme floorNo
      in case generateWorldMapWithTheme structure rnd sz theme k of
           None \<Rightarrow> None
         | Some (newMap, k') \<Rightarrow>
             Some (\<lparr>player = initialPlayer sz, enemies = [], pickups = [],
                    gameStatus = Playing, worldMap = newMap, lastUpdateTime = 0,
                    accumulator = 0, isPaused = False, nextPickupId = 1, nextEnemyId = 1,
                    worldSize = sz, currentFloor = floorNo, floorTheme = theme,
                    isBossFloor = (floorNo mod 5 = 0), bossDefeated = False\<rparr>, k'))"

text \<open>The constructor; \<open>k\<close> is the number of \<open>Math.random()\<close> calls made so far.\<close>

definition newGameStateManager ::
  "(int \<times> int \<times> int) list \<Rightarrow> (nat \<Rightarrow> real) \<Rightarrow> nat \<Rightarrow> GameStateManager option" where
  "newGameStateManager structure rnd k =
     map_option (\<lambda>(s, k'). \<lparr>state = s, notifications = 0, randomCalls = k'\<rparr>)
       (createInitialState structure rnd k)"

definition reset ::
  "(int \<times> int \<times> int) list \<Rightarrow> (nat \<Rightarrow> real) \<Rightarrow> GameStateManager \<Rightarrow> GameStateManager option" where
  "reset structure rnd m =
     map_option (\<lambda>(s, k'). notifyListeners (m\<lparr>state := s, randomCalls := k'\<rparr>))
       (createInitialState structure rnd (randomCalls m))"

definition initializeEnemiesAfterState ::
  "(nat \<Rightarrow> real) \<Rightarrow> GameStateManager \<Rightarrow> GameStateManager option" where
  "initializeEnemiesAfterState rnd m =
     map_option (\<lambda>(es, m'). m'\<lparr>state := (state m')\<lparr>enemies := es\<rparr>\<rparr>)
       (generateRandomEnemies rnd (worldMap (state m)) (worldSize (state m)) m)"

section \<open>The fixed-timestep clock\<close>

definition updatePlayerAttackState :: "GameStateManager \<Rightarrow> GameStateManager" where
  "updatePlayerAttackState m =
     (let p = player (state m);
          p1 = (if attackTimer p > 0
                then (let p' = p\<lparr>attackTimer := attackTimer p - 1\<rparr>
                      in if attackTimer p' = 0 then p'\<lparr>isAttacking := False\<rparr> else p')
                else p);
          p2 = (if muzzleFlashTimer p1 > 0
                then (let p' = p1\<lparr>muzzleFlashTimer := muzzleFlashTimer p1 - 1\<rparr>
                      in if muzzleFlashTimer p' = 0 then p'\<lparr>muzzleFlash := False\<rparr> else p')
                else p1)
      in m\<lparr>state := (state m)\<lparr>player := p2\<rparr>\<rparr>)"

definition updateGameStatus :: "GameStateManager \<Rightarrow> GameStateManager" where
  "updateGameStatus m =
     (if p_health (player (state m)) \<le> 0
      then m\<lparr>state := (state m)\<lparr>gameStatus := Defeat, isPaused := False\<rparr>\<rparr>
      else if enemies (state m) = []
      then m\<lparr>state := (state m)\<lparr>gameStatus := Victory, isPaused := False\<rparr>\<rparr>
      else m)"

definition collectPickup :: "Pickup \<Rightarrow> GameStateManager \<Rightarrow> GameStateManager" where
  "collectPickup pickup m =
     (let p = player (state m) in
      case k_type pickup of
        HealthPickup \<Rightarrow>
          m\<lparr>state := (state m)\<lparr>player :=
               p\<lparr>p_health := min (p_health p + k_value pickup) (p_maxHealth p)\<rparr>\<rparr>\<rparr>
      | AmmoPickup \<Rightarrow>
          (let currentWeapon = weapon p in
           m\<lparr>state := (state m)\<lparr>player :=
                p\<lparr>p_ammo := (p_ammo p)(currentWeapon :=
                      min (p_ammo p currentWeapon + k_value pickup) (p_maxAmmo p currentWeapon))\<rparr>\<rparr>\<rparr>)
      | WeaponPickup \<Rightarrow>
          (case weaponType pickup of
             None \<Rightarrow> m
           | Some wt \<Rightarrow>
               m\<lparr>state := (state m)\<lparr>player :=
                    p\<lparr>availableWeapons := insert wt (availableWeapons p),
                      weapon := wt,
                      p_ammo := (p_ammo p)(wt :=
                        min (p_ammo p wt + k_value pickup) (p_maxAmmo p wt))\<rparr>\<rparr>\<rparr>))"

text \<open>
  \<open>updatePickupCollection\<close>: the loop runs from the last index down to \<open>0\<close>; the first
  argument is the number of indices still to visit, so the index visited is one less.
\<close>

fun pickupSweep :: "nat \<Rightarrow> GameStateManager \<Rightarrow> GameStateManager" where
  "pickupSweep 0 m = m"
| "pickupSweep (Suc i) m =
     pickupSweep i
       (let pickup = pickups (state m) ! i;
            p = player (state m)
        in if sqrt ((k_x pickup - p_x p)\<^sup>2 + (k_y pickup - p_y p)\<^sup>2) < 0.8
           then (let m' = collectPickup pickup m
                 in m'\<lparr>state := (state m')\<lparr>pickups := splice1 i (pickups (state m'))\<rparr>\<rparr>)
           else m)"

definition updatePickupCollection :: "GameStateManager \<Rightarrow> GameStateManager" where
  "updatePickupCollection m = pickupSweep (length (pickups (state m))) m"

definition fixedUpdate :: "GameStateManager \<Rightarrow> GameStateManager" where
  "fixedUpdate m =
     (if gameStatus (state m) \<noteq> Playing then m
      else updateGameStatus (updatePickupCollection (updatePlayerAttackState m)))"

lemma state_collectPickup:
  "\<exists>p'. collectPickup pickup m = m\<lparr>state := (state m)\<lparr>player := p'\<rparr>\<rparr>"
proof (cases "k_type pickup")
  case HealthPickup
  then show ?thesis by (simp add: collectPickup_def Let_def) blast
next
  case AmmoPickup
  then show ?thesis by (simp add: collectPickup_def Let_def) blast
next
  case WeaponPickup
  show ?thesis
  proof (cases "weaponType pickup")
    case None
    from WeaponPickup None have "collectPickup pickup m = m"
      by (simp add: collectPickup_def Let_def)
    then show ?thesis by (intro exI [of _ "player (state m)"]) simp
  next
    case (Some wt)
    with WeaponPickup show ?thesis by (simp add: collectPickup_def Let_def) blast
  qed
qed

lemma accumulator_collectPickup [simp]:
  "accumulator (state (collectPickup pickup m)) = accumulator (state m)"
  using state_collectPickup [of pickup m] by auto

lemma accumulator_pickupSweep [simp]:
  "accumulator (state (pickupSweep i m)) = accumulator (state m)"
  by (induction i arbitrary: m) (simp_all add: Let_def)

lemma accumulator_fixedUpdate [simp]:
  "accumulator (state (fixedUpdate m)) = accumulator (state m)"
  by (simp add: fixedUpdate_def updateGameStatus_def updatePickupCollection_def
        updatePlayerAttackState_def Let_def)

text \<open>
  The loop \<open>while (accumulator >= FIXED_TIMESTEP) { fixedUpdate(); accumulator -=
  FIXED_TIMESTEP }\<close>. The second argument counts the calls of \<open>fixedUpdate\<close>; it is
  returned with the final state and has no counterpart in the code. The subtraction is
  rounded, and for a large accumulator it returns the accumulator itself: the loop need
  not end, and \<open>None\<close> is the value of a run that does not.
\<close>

partial_function (option) fixedSteps ::
  "GameStateManager \<Rightarrow> nat \<Rightarrow> (GameStateManager \<times> nat) option" where
  "fixedSteps m n =
     (if accumulator (state m) \<ge> FIXED_TIMESTEP
      then fixedSteps
             ((fixedUpdate m)\<lparr>state := (state (fixedUpdate m))
                \<lparr>accumulator :=
                   roundDouble (accumulator (state (fixedUpdate m)) - FIXED_TIMESTEP)\<rparr>\<rparr>)
             (Suc n)
      else Some (m, n))"

text \<open>
  \<open>updateWithDeltaTime\<close>, returning the new manager and the number of \<open>fixedUpdate\<close>
  calls it made; \<open>None\<close> when the first-tick enemy generation throws or the loop does
  not end.
\<close>

definition updateWithDeltaTime ::
  "(nat \<Rightarrow> real) \<Rightarrow> real \<Rightarrow> GameStateManager \<Rightarrow> (GameStateManager \<times> nat) option" where
  "updateWithDeltaTime rnd currentTime m =
     (if isPaused (state m)
      then Some (m\<lparr>state := (state m)\<lparr>lastUpdateTime := currentTime\<rparr>\<rparr>, 0)
      else if lastUpdateTime (state m) = 0 then
        (let m1 = m\<lparr>state := (state m)\<lparr>lastUpdateTime := currentTime\<rparr>\<rparr>
         in if enemies (state m1) = []
            then map_option (\<lambda>m'. (m', 0)) (initializeEnemiesAfterState rnd m1)
            else Some (m1, 0))
      else
        (let deltaTime = roundDouble (currentTime - lastUpdateTime (state m));
             m1 = m\<lparr>state := (state m)
                      \<lparr>lastUpdateTime := currentTime,
                       accumulator := roundDouble (accumulator (state m) + deltaTime)\<rparr>\<rparr>
         in case fixedSteps m1 0 of
              None \<Rightarrow> None
            | Some (m2, n) \<Rightarrow> Some (notifyListeners m2, n)))"

section \<open>Player movement\<close>

record MovementInput =
  forward :: bool
  backward :: bool
  left :: bool
  right :: bool
  rotateLeft :: bool
  rotateRight :: bool

text \<open>
  \<open>updatePlayer\<close>: the rotation is applied first and the movement uses the new angle;
  the second collision test already sees the new \<open>x\<close>. \<open>None\<close> when a collision
  lookup throws.
\<close>

definition updatePlayer :: "MovementInput \<Rightarrow> GameStateManager \<Rightarrow> GameStateManager option" where
  "updatePlayer input m =
     (if gameStatus (state m) \<noteq> Playing \<or> isPaused (state m) then Some m
      else
        (let moveSpeed = 0.15;
             rotationSpeed = 0.03;
             p = player (state m);
             a1 = (if rotateLeft input then p_angle p - rotationSpeed else p_angle p);
             a = (if rotateRight input then a1 + rotationSpeed else a1);
             x1 = (if forward input then p_x p + cos a * moveSpeed else p_x p);
             y1 = (if forward input then p_y p + sin a * moveSpeed else p_y p);
             x2 = (if backward input then x1 - cos a * moveSpeed else x1);
             y2 = (if backward input then y1 - sin a * moveSpeed else y1);
             x3 = (if left input then x2 + cos (a - pi / 2) * moveSpeed else x2);
             y3 = (if left input then y2 + sin (a - pi / 2) * moveSpeed else y2);
             newX = (if right input then x3 - cos (a - pi / 2) * moveSpeed else x3);
             newY = (if right input then y3 - sin (a - pi / 2) * moveSpeed else y3)
         in case cellIsZero (worldMap (state m)) \<lfloor>newY\<rfloor> \<lfloor>newX\<rfloor> of
              None \<Rightarrow> None
            | Some free1 \<Rightarrow>
                (let px = (if free1 then newX else p_x p) in
                 case cellIsZero (worldMap (state m)) \<lfloor>newY\<rfloor> \<lfloor>px\<rfloor> of
                   None \<Rightarrow> None
                 | Some free2 \<Rightarrow>
                     Some (notifyListeners
                             (m\<lparr>state := (state m)\<lparr>player :=
                                  p\<lparr>p_angle := a, p_x := px,
                                    p_y := (if free2 then newY else p_y p)\<rparr>\<rparr>\<rparr>)))))"

definition updateMouseLook :: "real \<Rightarrow> GameStateManager \<Rightarrow> GameStateManager" where
  "updateMouseLook deltaX m =
     (if gameStatus (state m) \<noteq> Playing \<or> isPaused (state m) then m
      else notifyListeners
             (m\<lparr>state := (state m)\<lparr>player :=
                  (player (state m))\<lparr>p_angle := p_angle (player (state m)) + deltaX * 0.005\<rparr>\<rparr>\<rparr>))"

section \<open>Enemy behaviour\<close>

definition atan2 :: "real \<Rightarrow> real \<Rightarrow> real" where
  "atan2 y x =
     (if x > 0 then arctan (y / x)
      else if x < 0 \<and> y \<ge> 0 then arctan (y / x) + pi
      else if x < 0 \<and> y < 0 then arctan (y / x) - pi
      else if y > 0 then pi / 2
      else if y < 0 then - pi / 2
      else 0)"

text \<open>
  \<open>isPathClear\<close>: the cells at steps \<open>1..distance\<close>; a cell outside the interior or a
  wall ends the loop with false.
\<close>

fun pathClearLoop ::
  "GameStateManager \<Rightarrow> real \<Rightarrow> real \<Rightarrow> int \<Rightarrow> int \<Rightarrow> int list \<Rightarrow> bool option" where
  "pathClearLoop m startX startY directionX directionY [] = Some True"
| "pathClearLoop m startX startY directionX directionY (i # rest) =
     (let checkX = \<lfloor>startX + real_of_int (directionX * i)\<rfloor>;
          checkY = \<lfloor>startY + real_of_int (directionY * i)\<rfloor>
      in if checkX < 1 \<or> checkX \<ge> worldSize (state m) - 1 \<or>
            checkY < 1 \<or> checkY \<ge> worldSize (state m) - 1
         then Some False
         else (case cellIsZero (worldMap (state m)) checkY checkX of
                 None \<Rightarrow> None
               | Some False \<Rightarrow> Some False
               | Some True \<Rightarrow> pathClearLoop m startX startY directionX directionY rest))"

definition isPathClear ::
  "GameStateManager \<Rightarrow> real \<Rightarrow> real \<Rightarrow> int \<Rightarrow> int \<Rightarrow> int \<Rightarrow> bool option" where
  "isPathClear m startX startY directionX directionY distance =
     pathClearLoop m startX startY directionX directionY [1..distance]"

definition directions8 :: "(int \<times> int) list" where
  "directions8 = [(1, 0), (-1, 0), (0, 1), (0, -1), (1, 1), (-1, 1), (1, -1), (-1, -1)]"

text \<open>
  The enemy functions take and return the enemy being updated together with the manager:
  the enemy is an element of \<open>this.state.enemies\<close> that the code mutates in place, and
  \<open>updateEnemy\<close> below writes it back at its index. \<open>None\<close> in
  \<open>startEnemyExploration\<close> also covers a direction index outside the table
  (\<open>direction.dx\<close> on \<open>undefined\<close> throws).
\<close>

definition startEnemyExploration ::
  "(nat \<Rightarrow> real) \<Rightarrow> Enemy \<times> GameStateManager \<Rightarrow> (Enemy \<times> GameStateManager) option" where
  "startEnemyExploration rnd em =
     (let (enemy, m) = em;
          (r1, m1) = random rnd m;
          idx = \<lfloor>r1 * 8\<rfloor>;
          (r2, m2) = random rnd m1;
          explorationDistance = 3 + \<lfloor>r2 * 4\<rfloor>
      in if idx < 0 \<or> idx \<ge> 8 then None
         else
           (let direction = directions8 ! nat idx in
            case isPathClear m2 (e_x enemy) (e_y enemy) (fst direction) (snd direction)
                   explorationDistance of
              None \<Rightarrow> None
            | Some True \<Rightarrow>
                Some (enemy\<lparr>explorationDirection := Some direction,
                            explorationCooldown := explorationDistance * 30\<rparr>, m2)
            | Some False \<Rightarrow>
                (let (r3, m3) = random rnd m2
                 in Some (enemy\<lparr>explorationCooldown := 120 + \<lfloor>r3 * 180\<rfloor>\<rparr>, m3))))"

definition continueEnemyExploration ::
  "(nat \<Rightarrow> real) \<Rightarrow> real \<Rightarrow> Enemy \<times> GameStateManager \<Rightarrow> (Enemy \<times> GameStateManager) option" where
  "continueEnemyExploration rnd baseSpeed em =
     (let (enemy, m) = em in
      case explorationDirection enemy of
        None \<Rightarrow> Some (enemy, m)
      | Some (dx, dy) \<Rightarrow>
          (let explorationSpeed = baseSpeed * 0.7;
               newX = e_x enemy + real_of_int dx * explorationSpeed;
               newY = e_y enemy + real_of_int dy * explorationSpeed
           in case cellIsZero (worldMap (state m)) \<lfloor>newY\<rfloor> \<lfloor>newX\<rfloor> of
                None \<Rightarrow> None
              | Some free \<Rightarrow>
                  (let (e1, m1) =
                         (if free then (enemy\<lparr>e_x := newX, e_y := newY\<rparr>, m)
                          else (let (r, ma) = random rnd m
                                in (enemy\<lparr>explorationDirection := None,
                                          explorationCooldown := 180 + \<lfloor>r * 240\<rfloor>\<rparr>, ma)))
                   in if explorationCooldown e1 \<le> 0
                      then (let (r, mb) = random rnd m1
                            in Some (e1\<lparr>explorationDirection := None,
                                        explorationCooldown := 240 + \<lfloor>r * 360\<rfloor>\<rparr>, mb))
                      else Some (e1, m1))))"

text \<open>
  \<open>checkBossPhaseTransition\<close>: \<open>phaseTransitions[currentPhase]\<close> is \<open>undefined\<close> past
  the end of the list, and the test \<open>nextThreshold && ...\<close> also fails for \<open>0\<close>.
\<close>

definition checkBossPhaseTransition :: "Enemy \<Rightarrow> Enemy" where
  "checkBossPhaseTransition boss =
     (if \<not> isBoss boss \<or> phaseTransitions boss = [] then boss
      else if currentPhase boss < length (phaseTransitions boss) \<and>
              phaseTransitions boss ! currentPhase boss \<noteq> 0 \<and>
              real_of_int (e_health boss) \<le> phaseTransitions boss ! currentPhase boss
      then (let b = boss\<lparr>currentPhase := Suc (currentPhase boss)\<rparr> in
            case enemyType b of
              BossDemon \<Rightarrow> b\<lparr>spawnCooldown := 60\<rparr>
            | BossCyberdemon \<Rightarrow> b\<lparr>attackCooldown := max 10 (attackCooldown b - 20)\<rparr>
            | BossSpiderMastermind \<Rightarrow>
                b\<lparr>spawnCooldown := 30, spawnsRemaining := spawnsRemaining b + 2\<rparr>
            | _ \<Rightarrow> b)
      else boss)"

text \<open>
  The minion's class and health, with the draws the boss type asks for: one draw for the
  two first bosses, one or two for the spider mastermind (the second \<open>Math.random()\<close>
  is only evaluated when the first is not below \<open>0.3\<close>), none otherwise.
\<close>

definition minionKind ::
  "(nat \<Rightarrow> real) \<Rightarrow> EnemyType \<Rightarrow> GameStateManager \<Rightarrow> (EnemyType \<times> int) \<times> GameStateManager" where
  "minionKind rnd bossType m =
     (case bossType of
        BossDemon \<Rightarrow>
          (let (r, m1) = random rnd m
           in (if r < 0.7 then (Grunt, 25) else (Soldier, 35), m1))
      | BossCyberdemon \<Rightarrow>
          (let (r, m1) = random rnd m
           in (if r < 0.5 then (Soldier, 40) else (Captain, 55), m1))
      | BossSpiderMastermind \<Rightarrow>
          (let (r, m1) = random rnd m
           in if r < 0.3 then ((Grunt, 30), m1)
              else (let (r', m2) = random rnd m1
                    in (if r' < 0.6 then (Soldier, 45) else (Captain, 60), m2)))
      | _ \<Rightarrow> ((Grunt, 25), m))"

text \<open>
  The tests on a drawn minion position: inside the world, on a free cell, more than 4
  from the player.
\<close>

definition minionPositionValid :: "GameStateManager \<Rightarrow> real \<Rightarrow> real \<Rightarrow> bool option" where
  "minionPositionValid m spawnX spawnY =
     (let mapX = \<lfloor>spawnX\<rfloor>;
          mapY = \<lfloor>spawnY\<rfloor>;
          p = player (state m)
      in if mapX \<ge> 0 \<and> mapX < worldSize (state m) \<and> mapY \<ge> 0 \<and> mapY < worldSize (state m)
         then (case cellIsZero (worldMap (state m)) mapY mapX of
                 None \<Rightarrow> None
               | Some False \<Rightarrow> Some False
               | Some True \<Rightarrow> Some (sqrt ((spawnX - p_x p)\<^sup>2 + (spawnY - p_y p)\<^sup>2) > 4))
         else Some False)"

definition newMinion ::
  "int \<Rightarrow> real \<Rightarrow> real \<Rightarrow> EnemyType \<Rightarrow> int \<Rightarrow> Player \<Rightarrow> Enemy" where
  "newMinion i spawnX spawnY minionType minionHealth p =
     \<lparr>e_id = i, e_x = spawnX, e_y = spawnY,
      e_health = minionHealth, e_maxHealth = minionHealth,
      e_state = Chasing, lastPlayerX = p_x p, lastPlayerY = p_y p,
      attackCooldown = 0, patrolTarget = None,
      enemyType = minionType, explorationCooldown = 0,
      explorationDirection = None, isBoss = False,
      spawnCooldown = 0, spawnsRemaining = 0,
      phaseTransitions = [], currentPhase = 0,
      isHurt = False, hurtTimer = 0\<rparr>"

text \<open>
  The loop of \<open>spawnBossMinion\<close>, at most 20 attempts. The minion takes the id
  \<open>this.state.nextEnemyId++\<close> and is pushed at the end of the enemy array.
\<close>

fun minionAttempts ::
  "(nat \<Rightarrow> real) \<Rightarrow> nat \<Rightarrow> Enemy \<times> GameStateManager \<Rightarrow> (Enemy \<times> GameStateManager) option" where
  "minionAttempts rnd 0 (boss, m) = Some (boss, m)"
| "minionAttempts rnd (Suc n) (boss, m) =
     (let (r1, m1) = random rnd m;
          spawnRadius = 3 + r1 * 4;
          (r2, m2) = random rnd m1;
          spawnAngle = r2 * pi * 2;
          spawnX = e_x boss + cos spawnAngle * spawnRadius;
          spawnY = e_y boss + sin spawnAngle * spawnRadius
      in case minionPositionValid m2 spawnX spawnY of
           None \<Rightarrow> None
         | Some False \<Rightarrow> minionAttempts rnd n (boss, m2)
         | Some True \<Rightarrow>
             (let ((minionType, minionHealth), m3) = minionKind rnd (enemyType boss) m2;
                  minion = newMinion (nextEnemyId (state m3)) spawnX spawnY minionType
                             minionHealth (player (state m3));
                  m4 = m3\<lparr>state := (state m3)
                          \<lparr>nextEnemyId := nextEnemyId (state m3) + 1,
                           enemies := enemies (state m3) @ [minion]\<rparr>\<rparr>;
                  (r3, m5) = random rnd m4
              in Some (boss\<lparr>spawnsRemaining := spawnsRemaining boss - 1,
                            spawnCooldown := 120 + r3 * 180\<rparr>, m5)))"

definition spawnBossMinion ::
  "(nat \<Rightarrow> real) \<Rightarrow> Enemy \<times> GameStateManager \<Rightarrow> (Enemy \<times> GameStateManager) option" where
  "spawnBossMinion rnd bm =
     (if spawnsRemaining (fst bm) \<le> 0 then Some bm else minionAttempts rnd 20 bm)"

text \<open>The three countdowns at the head of the \<open>forEach\<close> body.\<close>

definition tickTimers :: "Enemy \<Rightarrow> Enemy" where
  "tickTimers enemy =
     (let e1 = (if attackCooldown enemy > 0
                then enemy\<lparr>attackCooldown := attackCooldown enemy - 1\<rparr> else enemy);
          e2 = (if explorationCooldown e1 > 0
                then e1\<lparr>explorationCooldown := explorationCooldown e1 - 1\<rparr> else e1)
      in if hurtTimer e2 > 0
         then (let e3 = e2\<lparr>hurtTimer := hurtTimer e2 - 1\<rparr>
               in if hurtTimer e3 = 0 then e3\<lparr>isHurt := False\<rparr> else e3)
         else e2)"

text \<open>The boss-only part: spawn countdown, phase check, minion spawning.\<close>

definition updateBoss ::
  "(nat \<Rightarrow> real) \<Rightarrow> real \<Rightarrow> Enemy \<times> GameStateManager \<Rightarrow> (Enemy \<times> GameStateManager) option" where
  "updateBoss rnd distanceToPlayer em =
     (let (enemy, m) = em in
      if isBoss enemy then
        (let e1 = (if spawnCooldown enemy > 0
                   then enemy\<lparr>spawnCooldown := spawnCooldown enemy - 1\<rparr> else enemy);
             e2 = checkBossPhaseTransition e1
         in if spawnsRemaining e2 > 0 \<and> spawnCooldown e2 \<le> 0 \<and>
               distanceToPlayer < 20 \<and> distanceToPlayer > 8
            then spawnBossMinion rnd (e2, m)
            else Some (e2, m))
      else Some (enemy, m))"

definition detectionRangeOf :: "Enemy \<Rightarrow> real" where
  "detectionRangeOf enemy =
     (if isBoss enemy then 25
      else if enemyType enemy = Captain then 12
      else if enemyType enemy = Soldier then 10
      else 8)"

definition moveSpeedOf :: "Enemy \<Rightarrow> real" where
  "moveSpeedOf enemy =
     (if isBoss enemy then 0.045
      else if enemyType enemy = Captain then 0.035
      else if enemyType enemy = Soldier then 0.03
      else 0.025)"

text \<open>
  A step of length \<open>speed\<close> towards \<open>(tx, ty)\<close>, taken when the target is more than
  \<open>0.1\<close> away and the cell stepped into is free; shared by the patrolling and the
  chasing branch, which differ in the speed and in what happens at the target.
\<close>

definition stepTowards ::
  "grid \<Rightarrow> real \<Rightarrow> real \<Rightarrow> real \<Rightarrow> Enemy \<Rightarrow> Enemy option" where
  "stepTowards wm tx ty speed enemy =
     (let dx = tx - e_x enemy;
          dy = ty - e_y enemy;
          distance = sqrt (dx * dx + dy * dy);
          newX = e_x enemy + (dx / distance) * speed;
          newY = e_y enemy + (dy / distance) * speed
      in case cellIsZero wm \<lfloor>newY\<rfloor> \<lfloor>newX\<rfloor> of
           None \<Rightarrow> None
         | Some free \<Rightarrow> Some (if free then enemy\<lparr>e_x := newX, e_y := newY\<rparr> else enemy))"

definition attackDamage :: "Enemy \<Rightarrow> int" where
  "attackDamage enemy =
     (if enemyType enemy = Captain then 15
      else if enemyType enemy = Soldier then 12
      else 10)"

text \<open>The \<open>switch (enemy.state)\<close>.\<close>

definition enemyStateStep ::
  "(nat \<Rightarrow> real) \<Rightarrow> real \<Rightarrow> bool \<Rightarrow> Enemy \<times> GameStateManager
     \<Rightarrow> (Enemy \<times> GameStateManager) option" where
  "enemyStateStep rnd distanceToPlayer canSeePlayer em =
     (let (enemy, m) = em;
          p = player (state m);
          detectionRange = detectionRangeOf enemy;
          moveSpeed = moveSpeedOf enemy
      in case e_state enemy of
           Idle \<Rightarrow>
             if canSeePlayer \<and> distanceToPlayer < detectionRange
             then Some (enemy\<lparr>e_state := Chasing, lastPlayerX := p_x p, lastPlayerY := p_y p\<rparr>, m)
             else if explorationCooldown enemy \<le> 0 then startEnemyExploration rnd (enemy, m)
             else (let (r, m1) = random rnd m in
                   if r < 0.001
                   then (let (r1, m2) = random rnd m1;
                             (r2, m3) = random rnd m2
                         in Some (enemy\<lparr>e_state := Patrolling,
                                         patrolTarget := Some (e_x enemy + (r1 - 0.5) * 6,
                                                               e_y enemy + (r2 - 0.5) * 6)\<rparr>, m3))
                   else Some (enemy, m1))
         | Patrolling \<Rightarrow>
             if canSeePlayer \<and> distanceToPlayer < detectionRange
             then Some (enemy\<lparr>e_state := Chasing, lastPlayerX := p_x p, lastPlayerY := p_y p\<rparr>, m)
             else if explorationCooldown enemy \<le> 0 then startEnemyExploration rnd (enemy, m)
             else (case patrolTarget enemy of
                     None \<Rightarrow> Some (enemy, m)
                   | Some (tx, ty) \<Rightarrow>
                       if sqrt ((tx - e_x enemy) * (tx - e_x enemy)
                                + (ty - e_y enemy) * (ty - e_y enemy)) > 0.1
                       then map_option (\<lambda>e. (e, m))
                              (stepTowards (worldMap (state m)) tx ty moveSpeed enemy)
                       else Some (enemy\<lparr>e_state := Idle, patrolTarget := None\<rparr>, m))
         | Chasing \<Rightarrow>
             (let e1 = (if canSeePlayer
                        then enemy\<lparr>lastPlayerX := p_x p, lastPlayerY := p_y p\<rparr> else enemy)
              in if distanceToPlayer < 1.5 then Some (e1\<lparr>e_state := Attacking\<rparr>, m)
                 else
                   (case (if sqrt ((lastPlayerX e1 - e_x e1) * (lastPlayerX e1 - e_x e1)
                                   + (lastPlayerY e1 - e_y e1) * (lastPlayerY e1 - e_y e1)) > 0.1
                          then stepTowards (worldMap (state m)) (lastPlayerX e1) (lastPlayerY e1)
                                 (moveSpeed * 1.5) e1
                          else Some e1) of
                      None \<Rightarrow> None
                    | Some e2 \<Rightarrow>
                        Some (if \<not> canSeePlayer \<and> distanceToPlayer > 10
                              then e2\<lparr>e_state := Idle\<rparr> else e2, m)))
         | Attacking \<Rightarrow>
             if distanceToPlayer > 2.5 then Some (enemy\<lparr>e_state := Chasing\<rparr>, m)
             else if attackCooldown enemy = 0
             then Some (enemy\<lparr>attackCooldown := (if enemyType enemy = Captain then 45 else 60)\<rparr>,
                        m\<lparr>state := (state m)\<lparr>player :=
                             p\<lparr>p_health := p_health p - attackDamage enemy\<rparr>\<rparr>\<rparr>)
             else Some (enemy, m)
         | Spawning \<Rightarrow> Some (enemy, m))"

text \<open>
  The body of \<open>this.state.enemies.forEach\<close> for the enemy at index \<open>i\<close>. The distance
  to the player is computed once, on entry; the ray is cast after the boss part. The
  enemy is written back at its index (minions are pushed behind it).
\<close>

definition updateEnemy ::
  "(real \<Rightarrow> real \<Rightarrow> real \<Rightarrow> real) \<Rightarrow> (nat \<Rightarrow> real) \<Rightarrow> nat \<Rightarrow> GameStateManager
     \<Rightarrow> GameStateManager option" where
  "updateEnemy castRayFunction rnd i m =
     (let enemy = enemies (state m) ! i;
          p = player (state m);
          distanceToPlayer = sqrt ((e_x enemy - p_x p)\<^sup>2 + (e_y enemy - p_y p)\<^sup>2)
      in case updateBoss rnd distanceToPlayer (tickTimers enemy, m) of
           None \<Rightarrow> None
         | Some (e1, m1) \<Rightarrow>
             (let angleToPlayer = atan2 (p_y p - e_y e1) (p_x p - e_x e1);
                  hit = castRayFunction (e_x e1) (e_y e1) angleToPlayer;
                  canSeePlayer = (hit > distanceToPlayer)
              in case enemyStateStep rnd distanceToPlayer canSeePlayer (e1, m1) of
                   None \<Rightarrow> None
                 | Some (e2, m2) \<Rightarrow>
                     (case (if explorationDirection e2 \<noteq> None \<and>
                               (e_state e2 = Idle \<or> e_state e2 = Patrolling)
                            then continueEnemyExploration rnd (moveSpeedOf e2) (e2, m2)
                            else Some (e2, m2)) of
                        None \<Rightarrow> None
                      | Some (e3, m3) \<Rightarrow>
                          Some (m3\<lparr>state := (state m3)
                                  \<lparr>enemies := (enemies (state m3))[i := e3]\<rparr>\<rparr>))))"

text \<open>
  \<open>forEach\<close> visits the indices that exist when it is called: minions pushed during the
  loop are not visited in this call.
\<close>

fun enemyLoop ::
  "(real \<Rightarrow> real \<Rightarrow> real \<Rightarrow> real) \<Rightarrow> (nat \<Rightarrow> real) \<Rightarrow> nat list \<Rightarrow> GameStateManager
     \<Rightarrow> GameStateManager option" where
  "enemyLoop castRayFunction rnd [] m = Some m"
| "enemyLoop castRayFunction rnd (i # rest) m =
     (case updateEnemy castRayFunction rnd i m of
        None \<Rightarrow> None
      | Some m' \<Rightarrow> enemyLoop castRayFunction rnd rest m')"

definition updateEnemies ::
  "(real \<Rightarrow> real \<Rightarrow> real \<Rightarrow> real) \<Rightarrow> (nat \<Rightarrow> real) \<Rightarrow> GameStateManager
     \<Rightarrow> GameStateManager option" where
  "updateEnemies castRayFunction rnd m =
     (if gameStatus (state m) \<noteq> Playing \<or> isPaused (state m) then Some m
      else map_option notifyListeners
             (enemyLoop castRayFunction rnd [0..<length (enemies (state m))] m))"

section \<open>Reachable states\<close>

text \<open>\<open>Math.random()\<close> returns a number in \<open>[0, 1)\<close>.\<close>

definition rnd01 :: "(nat \<Rightarrow> real) \<Rightarrow> bool" where
  "rnd01 rnd = (\<forall>n. 0 \<le> rnd n \<and> rnd n < 1)"

text \<open>
  The states of a manager: the one the constructor builds, and those that a call of a
  public method leads to when it returns. The deferred calls (\<open>setTimeout\<close> of
  \<open>checkFloorProgression\<close> and of \<open>progressToNextFloor\<close>) are calls of public
  methods at a later time, so they are steps of this relation as well; every call
  brings its own oracle, grid structure, ray caster and arguments.
\<close>

inductive reachable :: "GameStateManager \<Rightarrow> bool" where
  construct:
    "rnd01 rnd \<Longrightarrow> newGameStateManager structure rnd k = Some m \<Longrightarrow> reachable m"
| do_pause: "reachable m \<Longrightarrow> reachable (pause m)"
| do_resume: "reachable m \<Longrightarrow> reachable (resume m)"
| do_togglePause: "reachable m \<Longrightarrow> reachable (togglePause m)"
| do_switchWeapon: "reachable m \<Longrightarrow> reachable (fst (switchWeapon w m))"
| do_shoot: "reachable m \<Longrightarrow> reachable (fst (shoot m))"
| do_updateWithDeltaTime:
    "reachable m \<Longrightarrow> rnd01 rnd \<Longrightarrow> updateWithDeltaTime rnd t m = Some (m', n) \<Longrightarrow> reachable m'"
| do_updatePlayer: "reachable m \<Longrightarrow> updatePlayer input m = Some m' \<Longrightarrow> reachable m'"
| do_updateMouseLook: "reachable m \<Longrightarrow> reachable (updateMouseLook deltaX m)"
| do_updateEnemies:
    "reachable m \<Longrightarrow> rnd01 rnd \<Longrightarrow> updateEnemies castRayFunction rnd m = Some m' \<Longrightarrow> reachable m'"
| do_damageEnemy:
    "reachable m \<Longrightarrow> rnd01 rnd \<Longrightarrow> reachable (fst (damageEnemy rnd enemyId dmg m))"
| do_progressToNextFloor:
    "reachable m \<Longrightarrow> rnd01 rnd \<Longrightarrow> progressToNextFloor structure rnd m = Some m' \<Longrightarrow> reachable m'"
| do_checkFloorProgression: "reachable m \<Longrightarrow> reachable (fst (checkFloorProgression m))"
| do_reset: "reachable m \<Longrightarrow> rnd01 rnd \<Longrightarrow> reset structure rnd m = Some m' \<Longrightarrow> reachable m'"

section \<open>Two reachable managers used as concrete inputs\<close>

text \<open>
  The manager as constructed (no structure written into the grid, every random draw
  \<open>1/2\<close>), and the same manager after its first tick at time \<open>1000\<close>.
\<close>

definition firstManager :: GameStateManager where
  "firstManager = the (newGameStateManager [] (\<lambda>_. 1 / 2) 0)"

definition tickedManager :: GameStateManager where
  "tickedManager = fst (the (updateWithDeltaTime (\<lambda>_. 1 / 2) 1000 firstManager))"

text \<open>
  The player record written by a successful \<open>progressToNextFloor\<close>: centred in the
  new world, healed by 25 and resupplied, both capped at the maxima.
\<close>

definition nextFloorPlayer :: "int \<Rightarrow> Player \<Rightarrow> Player" where
  "nextFloorPlayer newSize p =
     p\<lparr>p_x := real_of_int newSize / 2,
       p_y := real_of_int newSize / 2,
       p_angle := 0,
       p_health := min (p_maxHealth p) (p_health p + 25),
       p_ammo := (\<lambda>w. case w of
                    Pistol \<Rightarrow> min (p_maxAmmo p Pistol) (p_ammo p Pistol + 20)
                  | Shotgun \<Rightarrow> min (p_maxAmmo p Shotgun) (p_ammo p Shotgun + 10)
                  | Chaingun \<Rightarrow> min (p_maxAmmo p Chaingun) (p_ammo p Chaingun + 30))\<rparr>"

text \<open>
  The manager after \<open>n\<close> progressions from the first one. With every draw \<open>1/2\<close> the
  enemy generators reject all their positions (the centre of the world is the spawn), so
  each floor starts cleared.
\<close>

fun floorManager :: "nat \<Rightarrow> GameStateManager" where
  "floorManager 0 = firstManager"
| "floorManager (Suc n) = the (progressToNextFloor [] (\<lambda>_. 1 / 2) (floorManager n))"

text \<open>
  A boss floor with its boss. The oracle of this progression is \<open>1/2\<close> everywhere
  except at one index, the draw of the boss's \<open>x\<close> coordinate: counted from the
  position \<open>K\<close> of the oracle on entry, the generator of the \<open>72 \<times> 72\<close> grid takes
  \<open>140\<close> draws, \<open>generateRandomEnemies\<close> takes \<open>401\<close> (all \<open>200\<close> positions are the
  spawn point and are rejected), and the next draw places the boss at \<open>x = 20\<close>; its
  \<open>y\<close> is \<open>36\<close>, the row of the player.
\<close>

definition bossOracle :: "nat \<Rightarrow> nat \<Rightarrow> real" where
  "bossOracle K n = (if n = K + 541 then 15 / 62 else 1 / 2)"

definition bossFloorManager :: GameStateManager where
  "bossFloorManager =
     the (progressToNextFloor [] (bossOracle (randomCalls (floorManager 3))) (floorManager 3))"

text \<open>
  The next call of \<open>updateEnemies\<close>, with a ray caster that sees \<open>100\<close> units in
  every direction and every draw \<open>1/2\<close>: the boss is \<open>16\<close> away from the player, spawns
  its first minion (radius \<open>5\<close>, angle \<open>\<pi>\<close>, a captain) and starts chasing.
\<close>

definition spawnedBoss :: Enemy where
  "spawnedBoss = (newBoss 1 20 36 5)
     \<lparr>spawnsRemaining := 4, spawnCooldown := 210, e_state := Chasing,
      lastPlayerX := 36, lastPlayerY := 36\<rparr>"

definition firstMinion :: Enemy where
  "firstMinion = newMinion 1 15 36 Captain 55 (player (state bossFloorManager))"

definition minionManager :: GameStateManager where
  "minionManager = the (updateEnemies (\<lambda>_ _ _. 100) (\<lambda>_. 1 / 2) bossFloorManager)"

text \<open>The same manager after \<open>damageEnemy(1, 325)\<close>, which kills the boss.\<close>

definition huntedManager :: GameStateManager where
  "huntedManager = fst (damageEnemy (\<lambda>_. 1 / 2) 1 325 minionManager)"

text \<open>
  From there the player walks backwards (angle \<open>0\<close>, so towards smaller \<open>x\<close>) along
  row \<open>36\<close>, \<open>0.15\<close> per call of \<open>updatePlayer\<close>; after \<open>140\<close> calls the player
  stands on the minion's cell.
\<close>

definition backwardInput :: MovementInput where
  "backwardInput = \<lparr>forward = False, backward = True, left = False, right = False,
                     rotateLeft = False, rotateRight = False\<rparr>"

fun walkManager :: "nat \<Rightarrow> GameStateManager" where
  "walkManager 0 = huntedManager"
| "walkManager (Suc n) = the (updatePlayer backwardInput (walkManager n))"

text \<open>
  Then \<open>updateEnemies\<close> is called again and again. The first call turns the minion to
  \<open>attacking\<close>; \<open>attacker k\<close> is the minion from then on, with attack cooldown \<open>k\<close>.
  \<open>siegeState n\<close> is the cooldown and the player's health after \<open>n\<close> further calls:
  the cooldown is counted down first, and at \<open>0\<close> the attack takes \<open>15\<close> and sets it to
  \<open>45\<close>.
\<close>

definition attacker :: "int \<Rightarrow> Enemy" where
  "attacker k = firstMinion\<lparr>lastPlayerX := 15, lastPlayerY := 36, e_state := Attacking,
                             attackCooldown := k\<rparr>"

fun siegeState :: "nat \<Rightarrow> int \<times> int" where
  "siegeState 0 = (0, 100)"
| "siegeState (Suc n) =
     (let (k, h) = siegeState n in if k \<le> 1 then (45, h - 15) else (k - 1, h))"

fun siegeManager :: "nat \<Rightarrow> GameStateManager" where
  "siegeManager 0 = the (updateEnemies (\<lambda>_ _ _. 100) (\<lambda>_. 1 / 2) (walkManager 140))"
| "siegeManager (Suc n) = the (updateEnemies (\<lambda>_ _ _. 100) (\<lambda>_. 1 / 2) (siegeManager n))"

section \<open>An invariant of the reachable states\<close>

text \<open>
  \<open>stateInv\<close>: the player's health is at most its maximum, every ammunition counter
  lies between \<open>0\<close> and its maximum, no pickup has a negative value, every enemy of
  the live set has positive health, and floors are numbered from \<open>1\<close>.
\<close>

definition stateInv :: "GameState \<Rightarrow> bool" where
  "stateInv s =
     (p_health (player s) \<le> p_maxHealth (player s) \<and>
      (\<forall>w. 0 \<le> p_ammo (player s) w \<and> p_ammo (player s) w \<le> p_maxAmmo (player s) w) \<and>
      (\<forall>k \<in> set (pickups s). 0 \<le> k_value k) \<and>
      (\<forall>e \<in> set (enemies s). 0 < e_health e) \<and>
      1 \<le> currentFloor s)"

definition pickupsOk :: "GameStateManager \<Rightarrow> bool" where
  "pickupsOk m = (\<forall>k \<in> set (pickups (state m)). 0 \<le> k_value k)"

definition enemiesAlive :: "Enemy list \<Rightarrow> bool" where
  "enemiesAlive es = (\<forall>e \<in> set es. 0 < e_health e)"

text \<open>
  \<open>zeroAt\<close>: the cell exists and is passable. \<open>arena\<close>: the facts about a manager on
  the boss floor above that the walks and fights below rely on.
\<close>

definition zeroAt :: "grid \<Rightarrow> int \<Rightarrow> int \<Rightarrow> bool" where
  "zeroAt g y x = (inGrid g y x \<and> getCell g y x = 0)"

definition arena :: "GameStateManager \<Rightarrow> bool" where
  "arena m =
     (gameStatus (state m) = Playing \<and> \<not> isPaused (state m) \<and> worldSize (state m) = 72 \<and>
      (\<forall>y x. 0 < y \<and> y < 71 \<and> 0 < x \<and> x < 71
             \<longrightarrow> cellIsZero (worldMap (state m)) y x = Some True) \<and>
      p_y (player (state m)) = 36 \<and> p_angle (player (state m)) = 0 \<and>
      p_maxHealth (player (state m)) = 100)"

text \<open>
  The two pause indicators of the state, and the relation between them that every
  reachable state keeps: status \<open>paused\<close> is only ever set together with \<open>isPaused\<close>.
\<close>

definition pauseFlags :: "GameStateManager \<Rightarrow> GameStatus \<times> bool" where
  "pauseFlags m = (gameStatus (state m), isPaused (state m))"

definition pausedInv :: "GameStateManager \<Rightarrow> bool" where
  "pausedInv m = (gameStatus (state m) = Paused \<longrightarrow> isPaused (state m))"

section \<open>The generators return\<close>

lemma squareGrid_setCell [simp]: "squareGrid sz (setCell g y x v) = squareGrid sz g"
proof -
  have "\<And>r. r \<in> set (g[nat y := (g ! nat y)[nat x := v]]) \<Longrightarrow> \<exists>r' \<in> set g. length r' = length r"
    by (metis in_set_conv_nth length_list_update nth_list_update_eq nth_list_update_neq)
  moreover have "\<And>r. r \<in> set g \<Longrightarrow> \<exists>r' \<in> set (g[nat y := (g ! nat y)[nat x := v]]). length r' = length r"
    by (metis in_set_conv_nth length_list_update nth_list_update_eq nth_list_update_neq)
  ultimately show ?thesis unfolding squareGrid_def setCell_def
    by (metis length_list_update)
qed

lemma squareGrid_inGrid:
  "squareGrid sz g \<Longrightarrow> inGrid g y x = (0 \<le> y \<and> y < sz \<and> 0 \<le> x \<and> x < sz)"
  by (auto simp: squareGrid_def inGrid_def hasRow_def)

lemma squareGrid_hasRow: "squareGrid sz g \<Longrightarrow> hasRow g y = (0 \<le> y \<and> y < sz)"
  by (auto simp: squareGrid_def hasRow_def)

lemma squareGrid_replicate: "squareGrid sz (replicate (nat sz) (replicate (nat sz) v)) = (0 \<le> sz)"
  by (auto simp: squareGrid_def)

lemma visitNeighbours_total:
  "squareGrid sz g \<Longrightarrow> squareGrid sz v \<Longrightarrow>
   \<exists>v' q'. visitNeighbours g sz cur ds (v, q) = Some (v', q') \<and> squareGrid sz v'"
proof (induction ds arbitrary: v q)
  case Nil
  then show ?case by simp
next
  case (Cons d ds)
  obtain cx cy where cur: "cur = (cx, cy)" by (cases cur)
  obtain dx dy where d: "d = (dx, dy)" by (cases d)
  show ?case
    using Cons.IH [OF Cons.prems(1) Cons.prems(2)]
          Cons.IH [OF Cons.prems(1), of "setCell v (cy + dy) (cx + dx) True"]
          Cons.prems
    by (auto simp: cur d Let_def cellIsZero_def squareGrid_inGrid squareGrid_hasRow
          split: bool.splits)
qed

lemma floodLoop_total:
  "squareGrid sz g \<Longrightarrow> squareGrid sz v \<Longrightarrow>
   \<exists>v'. floodLoop g sz v q = Some v' \<and> squareGrid sz v'"
proof (induction g sz v q rule: floodLoop.induct)
  case (1 g sz v)
  then show ?case by simp
next
  case (2 g sz v cur rest)
  from visitNeighbours_total [OF "2.prems", of cur directions4 rest]
  obtain v' q' where h: "visitNeighbours g sz cur directions4 (v, rest) = Some (v', q')"
    and sq: "squareGrid sz v'" by blast
  from "2.IH" [OF h refl "2.prems"(1) sq] h show ?case by simp
qed

lemma floodFill_total:
  assumes "squareGrid sz g" and "0 \<le> sx" and "sx < sz" and "0 \<le> sy" and "sy < sz"
  shows "\<exists>v. floodFill g sx sy sz = Some v \<and> squareGrid sz v"
proof -
  let ?v0 = "replicate (nat sz) (replicate (nat sz) False)"
  have sq: "squareGrid sz ?v0" using assms by (simp add: squareGrid_replicate)
  have "inGrid ?v0 sy sx" using assms by (simp add: squareGrid_inGrid [OF sq])
  moreover have "squareGrid sz (setCell ?v0 sy sx True)" using sq by simp
  ultimately show ?thesis
    using floodLoop_total [OF assms(1), of "setCell ?v0 sy sx True" "[(sx, sy)]"]
    by (simp add: floodFill_def Let_def)
qed

lemma squareGrid_borderedGrid: "0 \<le> sz \<Longrightarrow> squareGrid sz (borderedGrid sz b)"
  by (simp add: squareGrid_def borderedGrid_def)

lemma squareGrid_applyWrites: "squareGrid sz (applyWrites ws g) = squareGrid sz g"
proof (induction ws arbitrary: g)
  case Nil
  show ?case by (simp add: applyWrites_def)
next
  case (Cons w ws)
  obtain y x v where w: "w = (y, x, v)" by (cases w)
  have "applyWrites (w # ws) g = applyWrites ws (if inGrid g y x then setCell g y x v else g)"
    by (simp add: applyWrites_def w)
  then show ?case using Cons.IH by (simp add: squareGrid_setCell)
qed

lemma squareGrid_carveHorizontal [simp]:
  "squareGrid sz' (carveHorizontal g sz cx cy tx) = squareGrid sz' g"
proof (induction g sz cx cy tx rule: carveHorizontal.induct)
  case (1 g sz currentX currentY toX)
  show ?case
  proof (cases "currentX = toX")
    case True
    then show ?thesis by (simp add: carveHorizontal.simps)
  next
    case False
    with "1.IH" show ?thesis
      by (subst carveHorizontal.simps) (simp add: squareGrid_setCell)
  qed
qed

lemma squareGrid_carveVertical [simp]:
  "squareGrid sz' (carveVertical g sz cx cy ty) = squareGrid sz' g"
proof (induction g sz cx cy ty rule: carveVertical.induct)
  case (1 g sz currentX currentY toY)
  show ?case
  proof (cases "currentY = toY")
    case True
    then show ?thesis by (simp add: carveVertical.simps)
  next
    case False
    with "1.IH" show ?thesis
      by (subst carveVertical.simps) (simp add: squareGrid_setCell)
  qed
qed

lemma squareGrid_connectAreas [simp]:
  "squareGrid sz' (connectAreas rch sz areas g) = squareGrid sz' g"
  by (induction areas arbitrary: g) (auto simp: createPath_def split: option.splits)

lemma squareGrid_connectUnreachableAreas [simp]:
  "squareGrid sz' (connectUnreachableAreas g rch sz) = squareGrid sz' g"
  by (simp add: connectUnreachableAreas_def)

lemma clearMiddleRow_square:
  "clearMiddleRow rnd mid xs (g, k) = (g', k') \<Longrightarrow> squareGrid sz g' = squareGrid sz g"
  by (induction xs arbitrary: g k) (auto simp: squareGrid_setCell split: if_splits)

lemma clearMiddleColumn_square:
  "clearMiddleColumn rnd mid ys (g, k) = (g', k') \<Longrightarrow> squareGrid sz g' = squareGrid sz g"
  by (induction ys arbitrary: g k) (auto simp: squareGrid_setCell split: if_splits)

lemma squareGrid_clearSpawnArea [simp]:
  "squareGrid sz' (clearSpawnArea mid sz g) = squareGrid sz' g"
  by (simp add: clearSpawnArea_def squareGrid_setCell)

lemma squareGrid_createEmergencyConnections:
  "squareGrid sz' (fst (createEmergencyConnections rnd g sz k)) = squareGrid sz' g"
proof -
  obtain g1 k1 where a: "clearMiddleRow rnd (sz div 2) [1..sz - 2] (g, k) = (g1, k1)"
    by (cases "clearMiddleRow rnd (sz div 2) [1..sz - 2] (g, k)")
  obtain g2 k2 where b: "clearMiddleColumn rnd (sz div 2) [1..sz - 2] (g1, k1) = (g2, k2)"
    by (cases "clearMiddleColumn rnd (sz div 2) [1..sz - 2] (g1, k1)")
  from clearMiddleRow_square [OF a] clearMiddleColumn_square [OF b] a b show ?thesis
    by (simp add: createEmergencyConnections_def Let_def)
qed

lemma generateWorldMapWithTheme_total:
  assumes "1 \<le> sz"
  shows "\<exists>g k'. generateWorldMapWithTheme structure rnd sz theme k = Some (g, k') \<and> squareGrid sz g"
proof -
  let ?g = "applyWrites structure (borderedGrid sz (border (getThemeWallTypes theme)))"
  have sq: "squareGrid sz ?g" using assms
    by (simp add: squareGrid_applyWrites squareGrid_borderedGrid)
  have "0 \<le> sz div 2" and "sz div 2 < sz" using assms by auto
  from floodFill_total [OF sq this this]
  obtain v where v: "floodFill ?g (sz div 2) (sz div 2) sz = Some v" by blast
  obtain g' k' where e: "createEmergencyConnections rnd (connectUnreachableAreas ?g v sz) sz k = (g', k')"
    by (cases "createEmergencyConnections rnd (connectUnreachableAreas ?g v sz) sz k")
  have "squareGrid sz g'"
    using squareGrid_createEmergencyConnections [of sz rnd "connectUnreachableAreas ?g v sz" sz k] e sq
    by simp
  with v e show ?thesis
    by (simp add: generateWorldMapWithTheme_def ensureMapConnectivity_def Let_def)
qed

lemma rnd01_half: "rnd01 (\<lambda>_. 1 / 2)"
  by (simp add: rnd01_def)

lemma newGameStateManager_total:
  "\<exists>g k'. newGameStateManager structure rnd k =
     Some \<lparr>state = \<lparr>player = initialPlayer 64, enemies = [], pickups = [],
                     gameStatus = Playing, worldMap = g, lastUpdateTime = 0,
                     accumulator = 0, isPaused = False, nextPickupId = 1, nextEnemyId = 1,
                     worldSize = 64, currentFloor = 1, floorTheme = ''tech_base'',
                     isBossFloor = False, bossDefeated = False\<rparr>,
           notifications = 0, randomCalls = k'\<rparr> \<and> squareGrid 64 g"
proof -
  have "(1::int) \<le> 64" by simp
  from generateWorldMapWithTheme_total [OF this, of "structure" rnd "getFloorTheme 1" k]
  obtain g k' where
    "generateWorldMapWithTheme structure rnd 64 (getFloorTheme 1) k = Some (g, k')"
    and "squareGrid 64 g" by blast
  then show ?thesis
    by (simp add: newGameStateManager_def createInitialState_def getFloorTheme_def)
qed

lemma firstManager_fields:
  "\<exists>g k'. firstManager =
     \<lparr>state = \<lparr>player = initialPlayer 64, enemies = [], pickups = [],
                gameStatus = Playing, worldMap = g, lastUpdateTime = 0,
                accumulator = 0, isPaused = False, nextPickupId = 1, nextEnemyId = 1,
                worldSize = 64, currentFloor = 1, floorTheme = ''tech_base'',
                isBossFloor = False, bossDefeated = False\<rparr>,
      notifications = 0, randomCalls = k'\<rparr> \<and> squareGrid 64 g"
  using newGameStateManager_total [of "[]" "\<lambda>_. 1 / 2" 0]
  by (auto simp: firstManager_def)

lemma firstManager_state:
  "player (state firstManager) = initialPlayer 64"
  "enemies (state firstManager) = []"
  "pickups (state firstManager) = []"
  "gameStatus (state firstManager) = Playing"
  "lastUpdateTime (state firstManager) = 0"
  "accumulator (state firstManager) = 0"
  "isPaused (state firstManager) = False"
  "nextPickupId (state firstManager) = 1"
  "nextEnemyId (state firstManager) = 1"
  "worldSize (state firstManager) = 64"
  "currentFloor (state firstManager) = 1"
  "isBossFloor (state firstManager) = False"
  "bossDefeated (state firstManager) = False"
  "notifications firstManager = 0"
  "squareGrid 64 (worldMap (state firstManager))"
proof -
  from firstManager_fields obtain g k' where
    eq: "firstManager =
     \<lparr>state = \<lparr>player = initialPlayer 64, enemies = [], pickups = [],
                gameStatus = Playing, worldMap = g, lastUpdateTime = 0,
                accumulator = 0, isPaused = False, nextPickupId = 1, nextEnemyId = 1,
                worldSize = 64, currentFloor = 1, floorTheme = ''tech_base'',
                isBossFloor = False, bossDefeated = False\<rparr>,
      notifications = 0, randomCalls = k'\<rparr>" and sq: "squareGrid 64 g" by blast
  show "player (state firstManager) = initialPlayer 64" by (subst eq) simp
  show "enemies (state firstManager) = []" by (subst eq) simp
  show "pickups (state firstManager) = []" by (subst eq) simp
  show "gameStatus (state firstManager) = Playing" by (subst eq) simp
  show "lastUpdateTime (state firstManager) = 0" by (subst eq) simp
  show "accumulator (state firstManager) = 0" by (subst eq) simp
  show "isPaused (state firstManager) = False" by (subst eq) simp
  show "nextPickupId (state firstManager) = 1" by (subst eq) simp
  show "nextEnemyId (state firstManager) = 1" by (subst eq) simp
  show "worldSize (state firstManager) = 64" by (subst eq) simp
  show "currentFloor (state firstManager) = 1" by (subst eq) simp
  show "isBossFloor (state firstManager) = False" by (subst eq) simp
  show "bossDefeated (state firstManager) = False" by (subst eq) simp
  show "notifications firstManager = 0" by (subst eq) simp
  show "squareGrid 64 (worldMap (state firstManager))" using sq by (subst eq) simp
qed

lemma reachable_firstManager: "reachable firstManager"
proof -
  from newGameStateManager_total [of "[]" "\<lambda>_. 1 / 2" 0]
  have "newGameStateManager [] (\<lambda>_. 1 / 2) 0 = Some firstManager"
    by (auto simp: firstManager_def)
  with rnd01_half show ?thesis by (rule construct)
qed

lemma findIndex_None: "(findIndex P xs = None) = (\<forall>x \<in> set xs. \<not> P x)"
  by (induction xs) auto

lemma roundEven_err: "\<bar>of_int (roundEven r) - r\<bar> \<le> 1 / 2"
proof -
  have "of_int \<lfloor>r\<rfloor> \<le> r" and "r < of_int \<lfloor>r\<rfloor> + 1" by linarith+
  then show ?thesis by (auto simp: roundEven_def Let_def)
qed

lemma roundEven_of_int [simp]: "roundEven (of_int k) = k"
  by (simp add: roundEven_def)

lemma roundEven_nonneg: "0 \<le> r \<Longrightarrow> 0 \<le> roundEven r"
  by (auto simp: roundEven_def Let_def)

lemma ulp_pos: "0 < ulp x"
  by (simp add: ulp_def)

lemma roundDouble_err: "\<bar>roundDouble x - x\<bar> \<le> ulp x / 2"
proof (cases "x = 0")
  case True
  then show ?thesis using ulp_pos [of x] by (simp add: roundDouble_def)
next
  case False
  have "roundDouble x - x = ulp x * (of_int (roundEven (x / ulp x)) - x / ulp x)"
    using False ulp_pos [of x] by (simp add: roundDouble_def right_diff_distrib)
  then have "\<bar>roundDouble x - x\<bar> = ulp x * \<bar>of_int (roundEven (x / ulp x)) - x / ulp x\<bar>"
    using ulp_pos [of x] by (simp add: abs_mult)
  also have "\<dots> \<le> ulp x * (1 / 2)"
    using roundEven_err [of "x / ulp x"] ulp_pos [of x] by (intro mult_left_mono) simp_all
  finally show ?thesis by simp
qed

lemma roundDouble_nonneg: "0 \<le> x \<Longrightarrow> 0 \<le> roundDouble x"
  using ulp_pos [of x] roundEven_nonneg [of "x / ulp x"]
  by (simp add: roundDouble_def)

lemma ulp_small:
  assumes "x \<noteq> 0" and "\<bar>x\<bar> < 2 ^ 32"
  shows "ulp x \<le> 1 / 2 ^ 21"
proof -
  have "\<bar>x\<bar> < 2 powr 32" using assms(2) by simp
  then have "log 2 \<bar>x\<bar> < 32" using assms(1) by (subst log_less_iff) simp_all
  then have "\<lfloor>log 2 \<bar>x\<bar>\<rfloor> \<le> 31" by linarith
  then have "ulp x \<le> 2 powr (of_int (31 - 52))"
    unfolding ulp_def by (intro powr_mono) simp_all
  also have "\<dots> = 1 / 2 ^ 21" by (simp add: powr_minus_divide)
  finally show ?thesis .
qed

lemma roundDouble_close:
  assumes "\<bar>x\<bar> < 2 ^ 32"
  shows "\<bar>roundDouble x - x\<bar> \<le> 1 / 2 ^ 22"
proof (cases "x = 0")
  case True
  then show ?thesis by (simp add: roundDouble_def)
next
  case False
  from roundDouble_err [of x] ulp_small [OF False assms] show ?thesis by simp
qed

lemma ulp_eq:
  assumes "2 powr (of_int e) \<le> \<bar>x\<bar>" and "\<bar>x\<bar> < 2 powr (of_int (e + 1))"
  shows "ulp x = 2 powr (of_int (e - 52))"
proof -
  have "0 < \<bar>x\<bar>" using assms(1) by (smt (verit) powr_gt_zero)
  have "\<lfloor>log 2 \<bar>x\<bar>\<rfloor> = e"
    using assms \<open>0 < \<bar>x\<bar>\<close> by (subst floor_log_eq_powr_iff) simp_all
  then show ?thesis by (simp add: ulp_def)
qed

lemma roundDouble_16_32:
  assumes "16 \<le> x" and "x < 32"
  shows "roundDouble x = of_int (roundEven (x * 2 ^ 48)) / 2 ^ 48"
proof -
  have "ulp x = 2 powr (of_int (4 - 52))"
    using assms by (intro ulp_eq) simp_all
  then have u: "ulp x = 1 / 2 ^ 48" by (simp add: powr_minus_divide)
  show ?thesis using assms by (simp add: roundDouble_def u)
qed

lemma roundDouble_32_64:
  assumes "32 \<le> x" and "x < 64"
  shows "roundDouble x = of_int (roundEven (x * 2 ^ 47)) / 2 ^ 47"
proof -
  have "ulp x = 2 powr (of_int (5 - 52))"
    using assms by (intro ulp_eq) simp_all
  then have u: "ulp x = 1 / 2 ^ 47" by (simp add: powr_minus_divide)
  show ?thesis using assms by (simp add: roundDouble_def u)
qed

lemma FIXED_TIMESTEP_value: "FIXED_TIMESTEP = 4691249611844267 / 281474976710656"
proof -
  have "roundEven (1000 / 60 * 2 ^ 48) = 4691249611844267"
    by (simp add: roundEven_def Let_def)
  then show ?thesis
    unfolding FIXED_TIMESTEP_def by (subst roundDouble_16_32) simp_all
qed

lemma roundDouble_50: "roundDouble 50 = 50"
  by (subst roundDouble_32_64) (simp_all add: roundEven_def Let_def)

lemma first_subtraction:
  "roundDouble (50 - FIXED_TIMESTEP) = 9382499223688532 / 281474976710656"
proof -
  have "roundEven ((50 - 4691249611844267 / 281474976710656) * 2 ^ 47) = 4691249611844266"
    by (simp add: roundEven_def Let_def)
  then show ?thesis
    unfolding FIXED_TIMESTEP_value by (subst roundDouble_32_64) simp_all
qed

lemma second_subtraction:
  "roundDouble (9382499223688532 / 281474976710656 - FIXED_TIMESTEP) =
     4691249611844265 / 281474976710656"
proof -
  have "roundEven ((9382499223688532 / 281474976710656 - 4691249611844267 / 281474976710656) * 2 ^ 48)
          = 4691249611844265"
    by (simp add: roundEven_def Let_def)
  then show ?thesis
    unfolding FIXED_TIMESTEP_value by (subst roundDouble_16_32) simp_all
qed

lemma FIXED_TIMESTEP_pos: "0 < FIXED_TIMESTEP"
  by (simp add: FIXED_TIMESTEP_value)

lemma FIXED_TIMESTEP_bounds: "16 < FIXED_TIMESTEP" "FIXED_TIMESTEP < 17"
  by (simp_all add: FIXED_TIMESTEP_value)

lemma lastUpdateTime_collectPickup [simp]:
  "lastUpdateTime (state (collectPickup pickup m)) = lastUpdateTime (state m)"
  using state_collectPickup [of pickup m] by auto

lemma lastUpdateTime_pickupSweep [simp]:
  "lastUpdateTime (state (pickupSweep i m)) = lastUpdateTime (state m)"
  by (induction i arbitrary: m) (simp_all add: Let_def)

lemma lastUpdateTime_fixedUpdate [simp]:
  "lastUpdateTime (state (fixedUpdate m)) = lastUpdateTime (state m)"
  by (simp add: fixedUpdate_def updateGameStatus_def updatePickupCollection_def
        updatePlayerAttackState_def Let_def)

lemma fixedSteps_returns:
  assumes "accumulator (state m) < 2 ^ 32"
  shows "\<exists>m' k. fixedSteps m n = Some (m', n + k) \<and>
           accumulator (state m') < FIXED_TIMESTEP \<and>
           lastUpdateTime (state m') = lastUpdateTime (state m) \<and>
           (accumulator (state m) < FIXED_TIMESTEP \<longrightarrow> m' = m \<and> k = 0) \<and>
           (0 \<le> accumulator (state m) \<longrightarrow>
              0 \<le> accumulator (state m') \<and>
              \<bar>accumulator (state m) - real k * FIXED_TIMESTEP - accumulator (state m')\<bar>
                \<le> real k / 2 ^ 22)"
  using assms
proof (induction "nat \<lfloor>accumulator (state m)\<rfloor>" arbitrary: m n rule: less_induct)
  case less
  let ?a = "accumulator (state m)"
  show ?case
  proof (cases "?a \<ge> FIXED_TIMESTEP")
    case False
    then have "fixedSteps m n = Some (m, n + 0)" by (subst fixedSteps.simps) simp
    with False show ?thesis by (intro exI [of _ m] exI [of _ 0]) simp
  next
    case True
    let ?y = "?a - FIXED_TIMESTEP"
    let ?m1 = "(fixedUpdate m)\<lparr>state := (state (fixedUpdate m))
                 \<lparr>accumulator := roundDouble (accumulator (state (fixedUpdate m)) - FIXED_TIMESTEP)\<rparr>\<rparr>"
    have a1: "accumulator (state ?m1) = roundDouble ?y" by simp
    have y0: "0 \<le> ?y" using True by simp
    have y1: "\<bar>?y\<bar> < 2 ^ 32" using True less.prems FIXED_TIMESTEP_pos by simp
    from roundDouble_close [OF y1] have err: "\<bar>roundDouble ?y - ?y\<bar> \<le> 1 / 2 ^ 22" .
    have r0: "0 \<le> roundDouble ?y" using y0 by (rule roundDouble_nonneg)
    have "roundDouble ?y - ?y \<le> 1 / 2 ^ 22" using err abs_ge_self order_trans by blast
    moreover have "16 + 1 / 2 ^ 22 \<le> FIXED_TIMESTEP" by (simp add: FIXED_TIMESTEP_value)
    ultimately have small: "roundDouble ?y \<le> ?a - 16" by linarith
    then have lt: "nat \<lfloor>accumulator (state ?m1)\<rfloor> < nat \<lfloor>?a\<rfloor>"
      using r0 a1 by (simp add: nat_less_iff) linarith
    have b1: "accumulator (state ?m1) < 2 ^ 32" using small less.prems a1 by simp
    from less.hyps [OF lt b1, of "Suc n"] obtain m' k where
      ih: "fixedSteps ?m1 (Suc n) = Some (m', Suc n + k)"
      and fin: "accumulator (state m') < FIXED_TIMESTEP"
      and lu: "lastUpdateTime (state m') = lastUpdateTime (state ?m1)"
      and pos: "0 \<le> accumulator (state ?m1) \<longrightarrow>
              0 \<le> accumulator (state m') \<and>
              \<bar>accumulator (state ?m1) - real k * FIXED_TIMESTEP - accumulator (state m')\<bar>
                \<le> real k / 2 ^ 22" by blast
    from pos r0 a1 have p0: "0 \<le> accumulator (state m')"
      and e1: "\<bar>roundDouble ?y - real k * FIXED_TIMESTEP - accumulator (state m')\<bar> \<le> real k / 2 ^ 22"
      by simp_all
    have step: "fixedSteps m n = Some (m', n + Suc k)"
      using True ih by (subst fixedSteps.simps) simp
    have "?a - real (Suc k) * FIXED_TIMESTEP - accumulator (state m') =
          (?y - roundDouble ?y) + (roundDouble ?y - real k * FIXED_TIMESTEP - accumulator (state m'))"
      by (simp add: algebra_simps)
    then have "\<bar>?a - real (Suc k) * FIXED_TIMESTEP - accumulator (state m')\<bar>
               \<le> \<bar>?y - roundDouble ?y\<bar> + \<bar>roundDouble ?y - real k * FIXED_TIMESTEP - accumulator (state m')\<bar>"
      by (simp only: abs_triangle_ineq)
    also have "\<dots> \<le> 1 / 2 ^ 22 + real k / 2 ^ 22"
      using err e1 by (simp add: abs_minus_commute)
    also have "\<dots> = real (Suc k) / 2 ^ 22" by (simp add: add_divide_distrib)
    finally have e2: "\<bar>?a - real (Suc k) * FIXED_TIMESTEP - accumulator (state m')\<bar>
                      \<le> real (Suc k) / 2 ^ 22" .
    from step fin lu p0 e2 True show ?thesis
      by (intro exI [of _ m'] exI [of _ "Suc k"]) simp
  qed
qed

lemma fixedSteps_inv:
  assumes step: "\<And>m. P m \<Longrightarrow> P (fixedUpdate m)"
    and acc: "\<And>m a. P m \<Longrightarrow> P (m\<lparr>state := (state m)\<lparr>accumulator := a\<rparr>\<rparr>)"
    and run: "fixedSteps m n = Some r" and start: "P m"
  shows "P (fst r)"
proof -
  have "P m \<longrightarrow> P (fst r)"
  proof (rule fixedSteps.raw_induct [where P = "\<lambda>m n r. P m \<longrightarrow> P (fst r)", OF _ run])
    fix f :: "GameStateManager \<Rightarrow> nat \<Rightarrow> (GameStateManager \<times> nat) option"
    fix m n r
    let ?m1 = "(fixedUpdate m)\<lparr>state := (state (fixedUpdate m))
                 \<lparr>accumulator := roundDouble (accumulator (state (fixedUpdate m)) - FIXED_TIMESTEP)\<rparr>\<rparr>"
    assume ih: "\<And>m n r. f m n = Some r \<Longrightarrow> P m \<longrightarrow> P (fst r)"
      and eq: "(if FIXED_TIMESTEP \<le> accumulator (state m) then f ?m1 (Suc n) else Some (m, n)) = Some r"
    show "P m \<longrightarrow> P (fst r)"
    proof
      assume p: "P m"
      show "P (fst r)"
      proof (cases "FIXED_TIMESTEP \<le> accumulator (state m)")
        case True
        with eq have "f ?m1 (Suc n) = Some r" by simp
        moreover have "P ?m1" using p by (intro acc step)
        ultimately show ?thesis using ih by blast
      next
        case False
        with eq p show ?thesis by auto
      qed
    qed
  qed
  with start show ?thesis by simp
qed

lemma random_simps [simp]:
  "fst (random rnd m) = rnd (randomCalls m)"
  "state (snd (random rnd m)) = state m"
  "notifications (snd (random rnd m)) = notifications m"
  by (simp_all add: random_def)

lemma enemyAttempts_half:
  assumes "squareGrid sz wm" and "5 \<le> sz"
  shows "\<exists>k. enemyAttempts (\<lambda>_. 1 / 2) wm sz cnt n es m = Some (es, m\<lparr>randomCalls := k\<rparr>)"
proof (induction n arbitrary: m)
  case 0
  have "m = m\<lparr>randomCalls := randomCalls m\<rparr>" by simp
  then show ?case by (metis enemyAttempts.simps(1))
next
  case (Suc n)
  show ?case
  proof (cases "int (length es) < cnt")
    case False
    have "m = m\<lparr>randomCalls := randomCalls m\<rparr>" by simp
    with False show ?thesis by (metis enemyAttempts.simps(2))
  next
    case True
    let ?m2 = "m\<lparr>randomCalls := Suc (Suc (randomCalls m))\<rparr>"
    have pos: "2 + (real_of_int sz - 4) / 2 = real_of_int sz / 2" by (simp add: field_simps)
    have fl0: "\<lfloor>real_of_int sz / 2\<rfloor> = sz div 2"
      using floor_divide_of_int_eq [of sz 2, where ?'a = real] by simp
    have "hasRow wm (sz div 2)" using assms by (simp add: squareGrid_hasRow)
    then obtain b where b: "cellIsZero wm (sz div 2) (sz div 2) = Some b"
      by (simp add: cellIsZero_def)
    have valid: "enemyPositionValid wm sz (real_of_int sz / 2) (real_of_int sz / 2) = Some False"
      using b by (cases b) (simp_all add: enemyPositionValid_def fl0)
    have step: "enemyAttempts (\<lambda>_. 1 / 2) wm sz cnt (Suc n) es m =
                enemyAttempts (\<lambda>_. 1 / 2) wm sz cnt n es ?m2"
      using True valid by (simp add: random_def Let_def pos)
    from Suc.IH [of ?m2] obtain k where
      "enemyAttempts (\<lambda>_. 1 / 2) wm sz cnt n es ?m2 = Some (es, ?m2\<lparr>randomCalls := k\<rparr>)" by blast
    with step show ?thesis by (intro exI [of _ k]) simp
  qed
qed


lemma first_tick:
  "\<exists>k. updateWithDeltaTime (\<lambda>_. 1 / 2) 1000 firstManager =
     Some (firstManager\<lparr>state := (state firstManager)\<lparr>lastUpdateTime := 1000\<rparr>,
                        randomCalls := k\<rparr>, 0)"
proof -
  let ?m1 = "firstManager\<lparr>state := (state firstManager)\<lparr>lastUpdateTime := 1000\<rparr>\<rparr>"
  let ?ma = "snd (random (\<lambda>_. 1 / 2) ?m1)"
  have sq: "squareGrid 64 (worldMap (state ?m1))" by (simp add: firstManager_state)
  from enemyAttempts_half [OF sq, of "8 + \<lfloor>1 / 2 * 9 :: real\<rfloor>" 200 "[]" ?ma]
  obtain k where
    "enemyAttempts (\<lambda>_. 1 / 2) (worldMap (state ?m1)) 64 (8 + \<lfloor>1 / 2 * 9 :: real\<rfloor>) 200 [] ?ma
       = Some ([], ?ma\<lparr>randomCalls := k\<rparr>)" by auto
  then have "initializeEnemiesAfterState (\<lambda>_. 1 / 2) ?m1 =
             Some (?m1\<lparr>randomCalls := k\<rparr>)"
    by (simp add: initializeEnemiesAfterState_def generateRandomEnemies_def random_def
          firstManager_state Let_def)
  then show ?thesis
    by (intro exI [of _ k]) (simp add: updateWithDeltaTime_def firstManager_state Let_def)
qed

lemma tickedManager_state:
  "state tickedManager = (state firstManager)\<lparr>lastUpdateTime := 1000\<rparr>"
  using first_tick by (auto simp: tickedManager_def)

lemma reachable_tickedManager: "reachable tickedManager"
proof -
  from first_tick obtain k where
    "updateWithDeltaTime (\<lambda>_. 1 / 2) 1000 firstManager =
       Some (firstManager\<lparr>state := (state firstManager)\<lparr>lastUpdateTime := 1000\<rparr>,
                          randomCalls := k\<rparr>, 0)" by blast
  then have "updateWithDeltaTime (\<lambda>_. 1 / 2) 1000 firstManager = Some (tickedManager, 0)"
    by (simp add: tickedManager_def)
  from do_updateWithDeltaTime [OF reachable_firstManager rnd01_half this] show ?thesis .
qed


section \<open>The operations keep the invariant\<close>

lemma stateInv_frame [simp]:
  "stateInv (s\<lparr>nextEnemyId := n\<rparr>) = stateInv s"
  "stateInv (s\<lparr>nextPickupId := n'\<rparr>) = stateInv s"
  "stateInv (s\<lparr>gameStatus := gs\<rparr>) = stateInv s"
  "stateInv (s\<lparr>isPaused := b\<rparr>) = stateInv s"
  "stateInv (s\<lparr>lastUpdateTime := t\<rparr>) = stateInv s"
  "stateInv (s\<lparr>accumulator := a\<rparr>) = stateInv s"
  "stateInv (s\<lparr>bossDefeated := b\<rparr>) = stateInv s"
  "stateInv (s\<lparr>isBossFloor := b\<rparr>) = stateInv s"
  "stateInv (s\<lparr>worldMap := g\<rparr>) = stateInv s"
  "stateInv (s\<lparr>worldSize := z\<rparr>) = stateInv s"
  "stateInv (s\<lparr>floorTheme := th\<rparr>) = stateInv s"
  by (simp_all add: stateInv_def)

lemma floor_mult_range:
  assumes "0 \<le> r" and "r < 1" and "0 < n"
  shows "0 \<le> \<lfloor>r * real_of_int n\<rfloor>" and "\<lfloor>r * real_of_int n\<rfloor> < n"
proof -
  have "0 \<le> r * real_of_int n" using assms by simp
  then show "0 \<le> \<lfloor>r * real_of_int n\<rfloor>" by simp
  have "r * real_of_int n < 1 * real_of_int n"
    using assms by (intro mult_strict_right_mono) simp_all
  then show "\<lfloor>r * real_of_int n\<rfloor> < n" by (simp add: floor_less_iff)
qed

lemma spawnPickup_state:
  "state (spawnPickup rnd x y ty v wt m) =
     (state m)\<lparr>nextPickupId := nextPickupId (state m) + 1,
                pickups := pickups (state m) @
                  [\<lparr>k_id = nextPickupId (state m),
                    k_x = x + (rnd (randomCalls m) - 0.5) * 0.4,
                    k_y = y + (rnd (Suc (randomCalls m)) - 0.5) * 0.4,
                    k_type = ty, k_value = v, spawnTime = lastUpdateTime (state m),
                    animationOffset = rnd (Suc (Suc (randomCalls m))) * pi * 2,
                    weaponType = wt\<rparr>]\<rparr>"
  "notifications (spawnPickup rnd x y ty v wt m) = notifications m"
  by (simp_all add: spawnPickup_def random_def Let_def)

lemma stateInv_spawnPickup:
  "stateInv (state m) \<Longrightarrow> 0 \<le> v \<Longrightarrow> stateInv (state (spawnPickup rnd x y ty v wt m))"
  by (simp add: spawnPickup_state) (simp add: stateInv_def)

lemma enemies_spawnPickup [simp]:
  "enemies (state (spawnPickup rnd x y ty v wt m)) = enemies (state m)"
  by (simp add: spawnPickup_state)

lemma stateInv_random [simp]: "stateInv (state (snd (random rnd m))) = stateInv (state m)"
  by simp

lemma spawnPickup_frame [simp]:
  "player (state (spawnPickup rnd x y ty v wt m)) = player (state m)"
  "currentFloor (state (spawnPickup rnd x y ty v wt m)) = currentFloor (state m)"
  "worldMap (state (spawnPickup rnd x y ty v wt m)) = worldMap (state m)"
  "worldSize (state (spawnPickup rnd x y ty v wt m)) = worldSize (state m)"
  "nextEnemyId (state (spawnPickup rnd x y ty v wt m)) = nextEnemyId (state m)"
  "isBossFloor (state (spawnPickup rnd x y ty v wt m)) = isBossFloor (state m)"
  "bossDefeated (state (spawnPickup rnd x y ty v wt m)) = bossDefeated (state m)"
  "gameStatus (state (spawnPickup rnd x y ty v wt m)) = gameStatus (state m)"
  "isPaused (state (spawnPickup rnd x y ty v wt m)) = isPaused (state m)"
  by (simp_all add: spawnPickup_state)

lemma pickupsOk_spawnPickup:
  "pickupsOk m \<Longrightarrow> 0 \<le> v \<Longrightarrow> pickupsOk (spawnPickup rnd x y ty v wt m)"
  by (simp add: pickupsOk_def spawnPickup_state)

lemma pickupsOk_random [simp]: "pickupsOk (snd (random rnd m)) = pickupsOk m"
  by (simp add: pickupsOk_def)

lemma spawnEnemyDrops_props:
  assumes "rnd01 rnd"
  shows "enemies (state (spawnEnemyDrops rnd x y ty m)) = enemies (state m)"
    and "player (state (spawnEnemyDrops rnd x y ty m)) = player (state m)"
    and "currentFloor (state (spawnEnemyDrops rnd x y ty m)) = currentFloor (state m)"
    and "pickupsOk m \<Longrightarrow> pickupsOk (spawnEnemyDrops rnd x y ty m)"
proof -
  have r: "\<And>n. 0 \<le> rnd n" using assms by (simp add: rnd01_def)
  have v1: "\<And>n. (0::int) \<le> 15 + \<lfloor>rnd n * 26\<rfloor>" using r by (simp add: add_nonneg_nonneg)
  have v2: "\<And>n. (0::int) \<le> 8 + \<lfloor>rnd n * 18\<rfloor>" using r by (simp add: add_nonneg_nonneg)
  let ?m1 = "snd (random rnd m)"
  let ?m2 = "if fst (random rnd m) < healthDropChance ty
             then spawnPickup rnd x y HealthPickup (15 + \<lfloor>fst (random rnd ?m1) * 26\<rfloor>) None
                    (snd (random rnd ?m1))
             else ?m1"
  let ?m3 = "snd (random rnd ?m2)"
  let ?m4 = "if fst (random rnd ?m2) < ammoDropChance ty
             then spawnPickup rnd x y AmmoPickup (8 + \<lfloor>fst (random rnd ?m3) * 18\<rfloor>) None
                    (snd (random rnd ?m3))
             else ?m3"
  let ?m5 = "snd (random rnd ?m4)"
  let ?wt = "if fst (random rnd ?m5) < 0.7 then Shotgun else Chaingun"
  let ?m6 = "if fst (random rnd ?m4) < weaponDropChance ty
             then spawnPickup rnd x y WeaponPickup (if ?wt = Shotgun then 12 else 30) (Some ?wt)
                    (snd (random rnd ?m5))
             else ?m5"
  have eq: "spawnEnemyDrops rnd x y ty m = ?m6"
    by (simp add: spawnEnemyDrops_def Let_def split_beta)
  have e2: "enemies (state ?m2) = enemies (state m)" by simp
  have e4: "enemies (state ?m4) = enemies (state m)" using e2 by simp
  show "enemies (state (spawnEnemyDrops rnd x y ty m)) = enemies (state m)"
    unfolding eq using e4 by simp
  have p2: "player (state ?m2) = player (state m)" by simp
  have p4: "player (state ?m4) = player (state m)" using p2 by simp
  show "player (state (spawnEnemyDrops rnd x y ty m)) = player (state m)"
    unfolding eq using p4 by simp
  have c2: "currentFloor (state ?m2) = currentFloor (state m)" by simp
  have c4: "currentFloor (state ?m4) = currentFloor (state m)" using c2 by simp
  show "currentFloor (state (spawnEnemyDrops rnd x y ty m)) = currentFloor (state m)"
    unfolding eq using c4 by simp
  assume ok: "pickupsOk m"
  have i2: "pickupsOk ?m2" using ok v1 by (simp add: pickupsOk_spawnPickup)
  have i4: "pickupsOk ?m4" using i2 v2 by (simp add: pickupsOk_spawnPickup)
  show "pickupsOk (spawnEnemyDrops rnd x y ty m)"
    unfolding eq using i4 by (simp add: pickupsOk_spawnPickup)
qed

lemma findIndex_Some:
  "findIndex P xs = Some i \<Longrightarrow> i < length xs \<and> P (xs ! i) \<and> (\<forall>j < i. \<not> P (xs ! j))"
proof (induction xs arbitrary: i)
  case Nil
  then show ?case by simp
next
  case (Cons x xs)
  show ?case
  proof (cases "P x")
    case True
    with Cons.prems show ?thesis by simp
  next
    case False
    with Cons.prems obtain i' where i': "findIndex P xs = Some i'" and i: "i = Suc i'"
      by (auto simp: map_option_case split: option.splits)
    from Cons.IH [OF i'] False i show ?thesis
      by (auto simp: nth_Cons split: nat.splits)
  qed
qed

lemma findIndex_cong_map:
  "map P xs = map P ys \<Longrightarrow> findIndex P xs = findIndex P ys"
proof (induction xs arbitrary: ys)
  case Nil
  then show ?case by simp
next
  case (Cons x xs)
  then obtain y ys' where ys: "ys = y # ys'" by (cases ys) auto
  with Cons.prems have "P x = P y" and "map P xs = map P ys'" by auto
  with Cons.IH [of ys'] ys show ?case by simp
qed

lemma set_splice1: "set (splice1 i xs) \<subseteq> set xs"
  unfolding splice1_def by (auto dest: in_set_takeD in_set_dropD)

lemma splice1_update [simp]: "splice1 i (xs[i := x]) = splice1 i xs"
  by (simp add: splice1_def)

lemma findIndex_update:
  assumes "findIndex P xs = Some i" and "P x"
  shows "findIndex P (xs[i := x]) = Some i"
proof -
  from findIndex_Some [OF assms(1)] have i: "i < length xs" and p: "P (xs ! i)" by auto
  have "map P (xs[i := x]) = (map P xs)[i := P x]" by (rule map_update)
  also have "\<dots> = map P xs" using i p assms(2) by (simp add: list_update_same_conv)
  finally show ?thesis using findIndex_cong_map [of P "xs[i := x]" xs] assms(1) by simp
qed

lemma damageEnemy_hit:
  assumes f: "findIndex (\<lambda>e. e_id e = enemyId) (enemies (state m)) = Some i"
    and r: "rnd01 rnd"
  shows "snd (damageEnemy rnd enemyId dmg m) = True"
    and "enemies (state (fst (damageEnemy rnd enemyId dmg m))) =
           (if e_health (enemies (state m) ! i) - dmg \<le> 0
            then splice1 i (enemies (state m))
            else (enemies (state m))
                   [i := (enemies (state m) ! i)
                           \<lparr>e_health := e_health (enemies (state m) ! i) - dmg,
                            isHurt := True, hurtTimer := 5\<rparr>])"
    and "player (state (fst (damageEnemy rnd enemyId dmg m))) = player (state m)"
    and "stateInv (state m) \<Longrightarrow> stateInv (state (fst (damageEnemy rnd enemyId dmg m)))"
proof -
  let ?es = "enemies (state m)"
  let ?enemy = "(?es ! i)\<lparr>e_health := e_health (?es ! i) - dmg, isHurt := True, hurtTimer := 5\<rparr>"
  let ?m1 = "m\<lparr>state := (state m)\<lparr>enemies := ?es[i := ?enemy]\<rparr>\<rparr>"
  let ?md = "spawnEnemyDrops rnd (e_x ?enemy) (e_y ?enemy) (enemyType ?enemy) ?m1"
  from findIndex_Some [OF f] have i: "i < length ?es" and idi: "e_id (?es ! i) = enemyId" by auto
  have emd: "enemies (state ?md) = ?es[i := ?enemy]"
    using spawnEnemyDrops_props(1) [OF r, of _ _ _ ?m1] by simp
  have "findIndex (\<lambda>e. e_id e = enemyId) (?es[i := ?enemy]) = Some i"
    using findIndex_update [OF f, of ?enemy] idi by simp
  then have f2: "findIndex (\<lambda>e. e_id e = enemyId) (enemies (state ?md)) = Some i"
    using emd by simp
  let ?m2 = "if e_health ?enemy \<le> 0
             then ?md\<lparr>state := (state ?md)\<lparr>enemies := splice1 i (enemies (state ?md))\<rparr>\<rparr>
             else ?m1"
  have eq: "damageEnemy rnd enemyId dmg m = (notifyListeners ?m2, True)"
    using f f2 by (simp add: damageEnemy_def Let_def)
  show "snd (damageEnemy rnd enemyId dmg m) = True" using eq by simp
  show "enemies (state (fst (damageEnemy rnd enemyId dmg m))) =
           (if e_health (?es ! i) - dmg \<le> 0 then splice1 i ?es else ?es[i := ?enemy])"
    using eq emd by (simp add: notifyListeners_def)
  show "player (state (fst (damageEnemy rnd enemyId dmg m))) = player (state m)"
    using eq spawnEnemyDrops_props(2) [OF r, of _ _ _ ?m1] by (simp add: notifyListeners_def)
  assume inv: "stateInv (state m)"
  show "stateInv (state (fst (damageEnemy rnd enemyId dmg m)))"
  proof (cases "e_health ?enemy \<le> 0")
    case True
    have "pickupsOk ?m1" using inv by (simp add: pickupsOk_def stateInv_def)
    from spawnEnemyDrops_props(4) [OF r this]
    have pk: "\<forall>k \<in> set (pickups (state ?md)). 0 \<le> k_value k" by (simp add: pickupsOk_def)
    have "stateInv (state ?md\<lparr>enemies := splice1 i (enemies (state ?md))\<rparr>)"
      using inv pk spawnEnemyDrops_props(2,3) [OF r, of _ _ _ ?m1] emd set_splice1 [of i ?es]
      by (auto simp: stateInv_def)
    with True eq show ?thesis by (simp add: notifyListeners_def)
  next
    case False
    have "set (?es[i := ?enemy]) \<subseteq> insert ?enemy (set ?es)" by (rule set_update_subset_insert)
    with False inv have "stateInv (state ?m1)" by (auto simp: stateInv_def)
    with False eq show ?thesis by (simp add: notifyListeners_def)
  qed
qed

lemma stateInv_damageEnemy:
  assumes "rnd01 rnd" and "stateInv (state m)"
  shows "stateInv (state (fst (damageEnemy rnd enemyId dmg m)))"
proof (cases "findIndex (\<lambda>e. e_id e = enemyId) (enemies (state m))")
  case None
  then show ?thesis using assms by (simp add: damageEnemy_def)
next
  case (Some i)
  from damageEnemy_hit(4) [OF Some assms] show ?thesis .
qed

lemma stateInv_player_update:
  assumes "stateInv s"
    and "p_health p' \<le> p_maxHealth p'"
    and "\<forall>w. 0 \<le> p_ammo p' w \<and> p_ammo p' w \<le> p_maxAmmo p' w"
  shows "stateInv (s\<lparr>player := p'\<rparr>)"
  using assms by (simp add: stateInv_def)

lemma stateInv_simple:
  assumes "stateInv (state m)"
  shows "stateInv (state (pause m))"
    and "stateInv (state (resume m))"
    and "stateInv (state (togglePause m))"
    and "stateInv (state (fst (switchWeapon w m)))"
    and "stateInv (state (updateMouseLook deltaX m))"
    and "stateInv (state (fst (checkFloorProgression m)))"
proof -
  show a: "stateInv (state (pause m))" using assms by (simp add: pause_def notifyListeners_def)
  show b: "stateInv (state (resume m))" using assms by (simp add: resume_def notifyListeners_def)
  show "stateInv (state (togglePause m))" using a b by (simp add: togglePause_def)
  show "stateInv (state (fst (switchWeapon w m)))"
    using assms by (simp add: switchWeapon_def notifyListeners_def stateInv_def)
  show "stateInv (state (updateMouseLook deltaX m))"
    using assms by (simp add: updateMouseLook_def notifyListeners_def stateInv_def)
  show "stateInv (state (fst (checkFloorProgression m)))"
    using assms by (simp add: checkFloorProgression_def Let_def)
qed

lemma ammoUse_one [simp]: "ammoUse (WEAPON_STATS w) = 1"
  by (cases w) simp_all

lemma stateInv_shoot:
  assumes "stateInv (state m)"
  shows "stateInv (state (fst (shoot m)))"
proof (cases "gameStatus (state m) \<noteq> Playing \<or> isPaused (state m) \<or>
              p_ammo (player (state m)) (weapon (player (state m))) \<le> 0")
  case True
  then show ?thesis using assms by (simp add: shoot_def Let_def)
next
  case False
  then have pos: "0 < p_ammo (player (state m)) (weapon (player (state m)))" by simp
  let ?p = "player (state m)"
  let ?am = "(p_ammo ?p)(weapon ?p := p_ammo ?p (weapon ?p) - 1)"
  have old: "\<And>w. 0 \<le> p_ammo ?p w" "\<And>w. p_ammo ?p w \<le> p_maxAmmo ?p w"
    using assms by (simp_all add: stateInv_def)
  have "\<forall>w. 0 \<le> ?am w \<and> ?am w \<le> p_maxAmmo ?p w"
  proof
    fix w
    show "0 \<le> ?am w \<and> ?am w \<le> p_maxAmmo ?p w"
    proof (cases "w = weapon ?p")
      case True
      have "p_ammo ?p (weapon ?p) - 1 \<le> p_maxAmmo ?p (weapon ?p)"
        using old(2) [of "weapon ?p"] by simp
      with True pos show ?thesis by simp
    next
      case False
      with old show ?thesis by simp
    qed
  qed
  with False assms show ?thesis
    by (simp add: shoot_def Let_def notifyListeners_def stateInv_def)
qed

lemma updatePlayer_shape:
  assumes "updatePlayer input m = Some m'"
  shows "m' = m \<or> (\<exists>a px py. m' = notifyListeners (m\<lparr>state := (state m)\<lparr>player :=
             (player (state m))\<lparr>p_angle := a, p_x := px, p_y := py\<rparr>\<rparr>\<rparr>))"
proof (cases "gameStatus (state m) \<noteq> Playing \<or> isPaused (state m)")
  case True
  with assms show ?thesis by (simp add: updatePlayer_def)
next
  case False
  with assms show ?thesis
    unfolding updatePlayer_def Let_def
    by (simp split: option.splits split del: if_split) blast
qed

lemma stateInv_updatePlayer:
  assumes "stateInv (state m)" and "updatePlayer input m = Some m'"
  shows "stateInv (state m')"
  using updatePlayer_shape [OF assms(2)] assms(1)
  by (auto simp: notifyListeners_def stateInv_def)

lemma collectPickup_props:
  assumes "stateInv (state m)" and "0 \<le> k_value pickup"
  shows "stateInv (state (collectPickup pickup m))"
    and "pickups (state (collectPickup pickup m)) = pickups (state m)"
proof -
  obtain p' where p': "collectPickup pickup m = m\<lparr>state := (state m)\<lparr>player := p'\<rparr>\<rparr>"
    using state_collectPickup by blast
  then show "pickups (state (collectPickup pickup m)) = pickups (state m)" by simp
  let ?p = "player (state m)"
  have h: "p_health ?p \<le> p_maxHealth ?p"
    and a: "\<And>w. 0 \<le> p_ammo ?p w" "\<And>w. p_ammo ?p w \<le> p_maxAmmo ?p w"
    using assms(1) by (simp_all add: stateInv_def)
  have mx: "\<And>w. 0 \<le> p_maxAmmo ?p w" using a order_trans by blast
  show "stateInv (state (collectPickup pickup m))"
  proof (cases "k_type pickup")
    case HealthPickup
    then show ?thesis using assms by (simp add: collectPickup_def Let_def stateInv_def)
  next
    case AmmoPickup
    then show ?thesis using assms a mx
      by (simp add: collectPickup_def Let_def stateInv_def)
  next
    case WeaponPickup
    then show ?thesis using assms a mx
      by (cases "weaponType pickup") (simp_all add: collectPickup_def Let_def stateInv_def)
  qed
qed

lemma stateInv_pickupSweep:
  "stateInv (state m) \<Longrightarrow> i \<le> length (pickups (state m)) \<Longrightarrow>
   stateInv (state (pickupSweep i m))"
proof (induction i arbitrary: m)
  case 0
  then show ?case by simp
next
  case (Suc i)
  let ?pk = "pickups (state m) ! i"
  from Suc.prems have i: "i < length (pickups (state m))" by simp
  then have "?pk \<in> set (pickups (state m))" by simp
  with Suc.prems(1) have v: "0 \<le> k_value ?pk" by (simp add: stateInv_def)
  let ?mc = "collectPickup ?pk m"
  let ?m' = "?mc\<lparr>state := (state ?mc)\<lparr>pickups := splice1 i (pickups (state ?mc))\<rparr>\<rparr>"
  have pk: "pickups (state ?mc) = pickups (state m)"
    by (rule collectPickup_props(2) [OF Suc.prems(1) v])
  have "stateInv (state ?mc)" by (rule collectPickup_props(1) [OF Suc.prems(1) v])
  then have inv': "stateInv (state ?m')"
    using set_splice1 [of i "pickups (state ?mc)"] by (auto simp: stateInv_def)
  have len': "i \<le> length (pickups (state ?m'))"
    using i pk by (simp add: splice1_def)
  show ?case
    using Suc.IH [OF inv' len'] Suc.IH [OF Suc.prems(1)] i
    by (simp add: Let_def)
qed

lemma stateInv_fixedUpdate: "stateInv (state m) \<Longrightarrow> stateInv (state (fixedUpdate m))"
proof -
  assume inv: "stateInv (state m)"
  have a: "stateInv (state (updatePlayerAttackState m))"
    using inv by (simp add: updatePlayerAttackState_def Let_def stateInv_def)
  have "pickups (state (updatePlayerAttackState m)) = pickups (state m)"
    by (simp add: updatePlayerAttackState_def Let_def)
  from stateInv_pickupSweep [OF a, of "length (pickups (state (updatePlayerAttackState m)))"]
  have b: "stateInv (state (updatePickupCollection (updatePlayerAttackState m)))"
    by (simp add: updatePickupCollection_def)
  then have "stateInv (state (updateGameStatus (updatePickupCollection (updatePlayerAttackState m))))"
    by (simp add: updateGameStatus_def)
  with inv show ?thesis by (simp add: fixedUpdate_def)
qed

lemma stateInv_fixedSteps:
  assumes "stateInv (state m)" and "fixedSteps m n = Some r"
  shows "stateInv (state (fst r))"
  using fixedSteps_inv [where P = "\<lambda>m. stateInv (state m)", OF _ _ assms(2) assms(1)]
        stateInv_fixedUpdate
  by simp

lemma rnd01D: "rnd01 rnd \<Longrightarrow> 0 \<le> rnd n" "rnd01 rnd \<Longrightarrow> rnd n < 1"
  by (simp_all add: rnd01_def)

lemma floor3_cases:
  assumes "rnd01 rnd"
  shows "\<lfloor>rnd n * 3\<rfloor> = 0 \<or> \<lfloor>rnd n * 3\<rfloor> = 1 \<or> \<lfloor>rnd n * 3\<rfloor> = 2"
proof -
  have "0 \<le> rnd n" and "rnd n < 1" using assms by (simp_all add: rnd01_def)
  from floor_mult_range [OF this, of 3]
  have "0 \<le> \<lfloor>rnd n * 3\<rfloor>" and "\<lfloor>rnd n * 3\<rfloor> < 3" by simp_all
  then show ?thesis by linarith
qed

lemma floor_nonneg_rnd:
  assumes "rnd01 rnd" and "0 \<le> c"
  shows "0 \<le> \<lfloor>rnd n * c\<rfloor>"
proof -
  have "0 \<le> rnd n" using assms(1) by (simp add: rnd01_def)
  then have "0 \<le> rnd n * c" using assms(2) by (rule mult_nonneg_nonneg)
  then show ?thesis by simp
qed

lemma pushRandomEnemy_props:
  assumes "rnd01 rnd"
  shows "\<exists>e. pushRandomEnemy rnd x y es m =
               Some (es @ [e],
                     m\<lparr>randomCalls := Suc (Suc (Suc (randomCalls m))),
                       state := (state m)\<lparr>nextEnemyId := nextEnemyId (state m) + 1\<rparr>\<rparr>) \<and>
             0 < e_health e \<and> e_id e = enemyIdOr m (int (length es) + 1) \<and> \<not> isBoss e"
proof -
  have h: "\<And>c. 0 \<le> c \<Longrightarrow> 0 \<le> \<lfloor>rnd (Suc (randomCalls m)) * c\<rfloor>"
    using assms by (rule floor_nonneg_rnd)
  have "(0::int) < 20 + \<lfloor>rnd (Suc (randomCalls m)) * 16\<rfloor>"
       "(0::int) < 30 + \<lfloor>rnd (Suc (randomCalls m)) * 21\<rfloor>"
       "(0::int) < 45 + \<lfloor>rnd (Suc (randomCalls m)) * 26\<rfloor>"
  proof -
    have "0 \<le> \<lfloor>rnd (Suc (randomCalls m)) * 16\<rfloor>" by (rule h) simp
    then show "(0::int) < 20 + \<lfloor>rnd (Suc (randomCalls m)) * 16\<rfloor>" by linarith
    have "0 \<le> \<lfloor>rnd (Suc (randomCalls m)) * 21\<rfloor>" by (rule h) simp
    then show "(0::int) < 30 + \<lfloor>rnd (Suc (randomCalls m)) * 21\<rfloor>" by linarith
    have "0 \<le> \<lfloor>rnd (Suc (randomCalls m)) * 26\<rfloor>" by (rule h) simp
    then show "(0::int) < 45 + \<lfloor>rnd (Suc (randomCalls m)) * 26\<rfloor>" by linarith
  qed
  with floor3_cases [OF assms, of "randomCalls m"] show ?thesis
    by (auto simp: pushRandomEnemy_def random_def Let_def newEnemy_def enemyIdOr_def)
qed

lemma enemyAttempts_props:
  assumes "rnd01 rnd"
  shows "enemyAttempts rnd wm sz cnt n es m = Some (es', m') \<Longrightarrow> enemiesAlive es \<Longrightarrow>
         enemiesAlive es' \<and>
         (\<exists>k i. m' = m\<lparr>randomCalls := k, state := (state m)\<lparr>nextEnemyId := i\<rparr>\<rparr>)"
proof (induction n arbitrary: es m)
  case 0
  have "m = m\<lparr>randomCalls := randomCalls m, state := (state m)\<lparr>nextEnemyId := nextEnemyId (state m)\<rparr>\<rparr>"
    by simp
  with 0 show ?case by (metis enemyAttempts.simps(1) option.inject prod.inject)
next
  case (Suc n)
  have trivial: "m = m\<lparr>randomCalls := randomCalls m, state := (state m)\<lparr>nextEnemyId := nextEnemyId (state m)\<rparr>\<rparr>"
    by simp
  let ?m2 = "m\<lparr>randomCalls := Suc (Suc (randomCalls m))\<rparr>"
  show ?case
  proof (cases "int (length es) < cnt")
    case False
    with Suc.prems have "es' = es" and "m' = m" by simp_all
    with Suc.prems(2) trivial show ?thesis by metis
  next
    case True
    let ?x = "2 + rnd (randomCalls m) * (real_of_int sz - 4)"
    let ?y = "2 + rnd (Suc (randomCalls m)) * (real_of_int sz - 4)"
    have unf: "enemyAttempts rnd wm sz cnt (Suc n) es m =
               (case enemyPositionValid wm sz ?x ?y of
                  None \<Rightarrow> None
                | Some False \<Rightarrow> enemyAttempts rnd wm sz cnt n es ?m2
                | Some True \<Rightarrow>
                    (case pushRandomEnemy rnd ?x ?y es ?m2 of
                       None \<Rightarrow> None
                     | Some (es2, m3) \<Rightarrow> enemyAttempts rnd wm sz cnt n es2 m3))"
      using True by (simp add: random_def Let_def split: option.splits bool.splits)
    consider (retry) "enemyAttempts rnd wm sz cnt n es ?m2 = Some (es', m')"
      | (push) es2 m3 where "pushRandomEnemy rnd ?x ?y es ?m2 = Some (es2, m3)"
                            "enemyAttempts rnd wm sz cnt n es2 m3 = Some (es', m')"
    proof (cases "enemyPositionValid wm sz ?x ?y")
      case None
      with unf Suc.prems(1) show ?thesis by simp
    next
      case (Some ok)
      show ?thesis
      proof (cases ok)
        case False
        with Some unf Suc.prems(1) have "enemyAttempts rnd wm sz cnt n es ?m2 = Some (es', m')"
          by simp
        then show ?thesis by (rule retry)
      next
        case True
        show ?thesis
        proof (cases "pushRandomEnemy rnd ?x ?y es ?m2")
          case None
          with True Some unf Suc.prems(1) show ?thesis by simp
        next
          case (Some em)
          obtain es2 m3 where em: "em = (es2, m3)" by (cases em)
          with Some True \<open>enemyPositionValid wm sz ?x ?y = Some ok\<close> unf Suc.prems(1)
          have "enemyAttempts rnd wm sz cnt n es2 m3 = Some (es', m')" by simp
          with Some em show ?thesis by (intro push [of es2 m3]) simp_all
        qed
      qed
    qed
    then show ?thesis
    proof cases
      case retry
      from Suc.IH [OF retry Suc.prems(2)] obtain k i where
        "enemiesAlive es'" "m' = ?m2\<lparr>randomCalls := k, state := (state ?m2)\<lparr>nextEnemyId := i\<rparr>\<rparr>"
        by blast
      then show ?thesis by (intro conjI exI [of _ k] exI [of _ i]) simp_all
    next
      case push
      from pushRandomEnemy_props [OF assms, of ?x ?y es ?m2] push(1) obtain e where
        es2: "es2 = es @ [e]" and e: "0 < e_health e"
        and m3: "m3 = ?m2\<lparr>randomCalls := Suc (Suc (Suc (randomCalls ?m2))),
                          state := (state ?m2)\<lparr>nextEnemyId := nextEnemyId (state ?m2) + 1\<rparr>\<rparr>"
        by auto
      have "enemiesAlive es2" using Suc.prems(2) es2 e by (simp add: enemiesAlive_def)
      from Suc.IH [OF push(2) this] obtain k i where
        "enemiesAlive es'" "m' = m3\<lparr>randomCalls := k, state := (state m3)\<lparr>nextEnemyId := i\<rparr>\<rparr>"
        by blast
      then show ?thesis unfolding m3 by (intro conjI exI [of _ k] exI [of _ i]) simp_all
    qed
  qed
qed

lemma generateRandomEnemies_props:
  assumes "rnd01 rnd" and "generateRandomEnemies rnd wm sz m = Some (es, m')"
  shows "enemiesAlive es"
    and "\<exists>k i. m' = m\<lparr>randomCalls := k, state := (state m)\<lparr>nextEnemyId := i\<rparr>\<rparr>"
proof -
  let ?m1 = "m\<lparr>randomCalls := Suc (randomCalls m)\<rparr>"
  from assms(2) have
    "enemyAttempts rnd wm sz (8 + \<lfloor>rnd (randomCalls m) * 9\<rfloor>) 200 [] ?m1 = Some (es, m')"
    by (simp add: generateRandomEnemies_def random_def Let_def)
  from enemyAttempts_props [OF assms(1) this] obtain k i where
    a: "enemiesAlive es" and b: "m' = ?m1\<lparr>randomCalls := k, state := (state ?m1)\<lparr>nextEnemyId := i\<rparr>\<rparr>"
    by (auto simp: enemiesAlive_def)
  show "enemiesAlive es" by (rule a)
  show "\<exists>k i. m' = m\<lparr>randomCalls := k, state := (state m)\<lparr>nextEnemyId := i\<rparr>\<rparr>"
    unfolding b by (intro exI [of _ k] exI [of _ i]) simp
qed

lemma newBoss_health: "0 \<le> floorNumber \<Longrightarrow> 0 < e_health (newBoss i x y floorNumber)"
proof -
  assume f: "0 \<le> floorNumber"
  have "(floorNumber div 5) mod 3 = 0 \<or> (floorNumber div 5) mod 3 = 1 \<or> (floorNumber div 5) mod 3 = 2"
    by presburger
  then have "bossTypeOf floorNumber = BossDemon \<or> bossTypeOf floorNumber = BossCyberdemon \<or>
             bossTypeOf floorNumber = BossSpiderMastermind"
    by (auto simp: bossTypeOf_def)
  then show ?thesis
  proof (elim disjE)
    assume "bossTypeOf floorNumber = BossDemon"
    then show ?thesis using f by (simp add: newBoss_def Let_def add_pos_nonneg)
  next
    assume "bossTypeOf floorNumber = BossCyberdemon"
    then show ?thesis using f by (simp add: newBoss_def Let_def add_pos_nonneg)
  next
    assume "bossTypeOf floorNumber = BossSpiderMastermind"
    then show ?thesis using f by (simp add: newBoss_def Let_def add_pos_nonneg)
  qed
qed

lemma bossAttempts_props:
  "bossAttempts rnd wm sz floorNumber n m = Some (b, m') \<Longrightarrow>
   (\<exists>k. m' = m\<lparr>randomCalls := k\<rparr>) \<and>
   (\<forall>boss. b = Some boss \<longrightarrow>
      (\<exists>x y. boss = newBoss (enemyIdOr m (1000 + floorNumber)) x y floorNumber))"
proof (induction n arbitrary: m)
  case 0
  have "m = m\<lparr>randomCalls := randomCalls m\<rparr>" by simp
  with 0 show ?case by (metis bossAttempts.simps(1) option.distinct(1) option.inject prod.inject)
next
  case (Suc n)
  let ?m2 = "m\<lparr>randomCalls := Suc (Suc (randomCalls m))\<rparr>"
  let ?x = "5 + rnd (randomCalls m) * (real_of_int sz - 10)"
  let ?y = "5 + rnd (Suc (randomCalls m)) * (real_of_int sz - 10)"
  have unf: "bossAttempts rnd wm sz floorNumber (Suc n) m =
             (case bossPositionValid wm sz ?x ?y of
                None \<Rightarrow> None
              | Some False \<Rightarrow> bossAttempts rnd wm sz floorNumber n ?m2
              | Some True \<Rightarrow>
                  Some (Some (newBoss (enemyIdOr ?m2 (1000 + floorNumber)) ?x ?y floorNumber), ?m2))"
    by (simp add: random_def Let_def split: option.splits bool.splits)
  consider (retry) "bossAttempts rnd wm sz floorNumber n ?m2 = Some (b, m')"
    | (found) "b = Some (newBoss (enemyIdOr ?m2 (1000 + floorNumber)) ?x ?y floorNumber)" "m' = ?m2"
  proof (cases "bossPositionValid wm sz ?x ?y")
    case None
    with unf Suc.prems show ?thesis by simp
  next
    case (Some ok)
    show ?thesis
    proof (cases ok)
      case True
      with Some unf Suc.prems have
        "b = Some (newBoss (enemyIdOr ?m2 (1000 + floorNumber)) ?x ?y floorNumber)" "m' = ?m2"
        by auto
      then show ?thesis by (rule found)
    next
      case False
      with Some unf Suc.prems have "bossAttempts rnd wm sz floorNumber n ?m2 = Some (b, m')"
        by simp
      then show ?thesis by (rule retry)
    qed
  qed
  then show ?case
  proof cases
    case retry
    from Suc.IH [OF retry] obtain k where
      k: "m' = ?m2\<lparr>randomCalls := k\<rparr>"
      and bb: "\<forall>boss. b = Some boss \<longrightarrow>
          (\<exists>x y. boss = newBoss (enemyIdOr ?m2 (1000 + floorNumber)) x y floorNumber)" by blast
    have "m' = m\<lparr>randomCalls := k\<rparr>" unfolding k by simp
    moreover have "enemyIdOr ?m2 (1000 + floorNumber) = enemyIdOr m (1000 + floorNumber)"
      by (simp add: enemyIdOr_def)
    ultimately show ?thesis using bb by auto
  next
    case found
    have "enemyIdOr ?m2 (1000 + floorNumber) = enemyIdOr m (1000 + floorNumber)"
      by (simp add: enemyIdOr_def)
    with found show ?thesis by auto
  qed
qed

lemma spawnPickup_eq:
  "spawnPickup rnd x y ty v wt m =
     m\<lparr>randomCalls := Suc (Suc (Suc (randomCalls m))),
       state := (state m)\<lparr>nextPickupId := nextPickupId (state m) + 1,
                  pickups := pickups (state m) @
                    [\<lparr>k_id = nextPickupId (state m),
                      k_x = x + (rnd (randomCalls m) - 0.5) * 0.4,
                      k_y = y + (rnd (Suc (randomCalls m)) - 0.5) * 0.4,
                      k_type = ty, k_value = v, spawnTime = lastUpdateTime (state m),
                      animationOffset = rnd (Suc (Suc (randomCalls m))) * pi * 2,
                      weaponType = wt\<rparr>]\<rparr>\<rparr>"
  by (simp add: spawnPickup_def random_def Let_def)

lemma spawnRandomPickup_props:
  assumes "rnd01 rnd"
  shows "\<exists>ps np k. spawnRandomPickup rnd x y m =
            Some (m\<lparr>randomCalls := k, state := (state m)\<lparr>pickups := ps, nextPickupId := np\<rparr>\<rparr>) \<and>
          ((\<forall>p \<in> set (pickups (state m)). 0 \<le> k_value p) \<longrightarrow> (\<forall>p \<in> set ps. 0 \<le> k_value p))"
proof -
  have h: "\<And>c. 0 \<le> c \<Longrightarrow> 0 \<le> \<lfloor>rnd (Suc (randomCalls m)) * c\<rfloor>"
    using assms by (rule floor_nonneg_rnd)
  have v1: "(0::int) \<le> 25 + \<lfloor>rnd (Suc (randomCalls m)) * 26\<rfloor>"
  proof -
    have "0 \<le> \<lfloor>rnd (Suc (randomCalls m)) * 26\<rfloor>" by (rule h) simp
    then show ?thesis by linarith
  qed
  have v2: "(0::int) \<le> 15 + \<lfloor>rnd (Suc (randomCalls m)) * 21\<rfloor>"
  proof -
    have "0 \<le> \<lfloor>rnd (Suc (randomCalls m)) * 21\<rfloor>" by (rule h) simp
    then show ?thesis by linarith
  qed
  let ?m2 = "m\<lparr>randomCalls := Suc (Suc (randomCalls m))\<rparr>"
  have shape: "\<And>ty v wt. 0 \<le> v \<Longrightarrow>
      \<exists>ps np k. spawnPickup rnd x y ty v wt ?m2 =
            m\<lparr>randomCalls := k, state := (state m)\<lparr>pickups := ps, nextPickupId := np\<rparr>\<rparr> \<and>
          ((\<forall>p \<in> set (pickups (state m)). 0 \<le> k_value p) \<longrightarrow> (\<forall>p \<in> set ps. 0 \<le> k_value p))"
  proof -
    fix ty v wt
    assume v: "(0::int) \<le> v"
    let ?pk = "\<lparr>k_id = nextPickupId (state m),
                 k_x = x + (rnd (randomCalls ?m2) - 0.5) * 0.4,
                 k_y = y + (rnd (Suc (randomCalls ?m2)) - 0.5) * 0.4,
                 k_type = ty, k_value = v, spawnTime = lastUpdateTime (state m),
                 animationOffset = rnd (Suc (Suc (randomCalls ?m2))) * pi * 2,
                 weaponType = wt\<rparr>"
    have "spawnPickup rnd x y ty v wt ?m2 =
            m\<lparr>randomCalls := Suc (Suc (Suc (randomCalls ?m2))),
              state := (state m)\<lparr>pickups := pickups (state m) @ [?pk],
                                 nextPickupId := nextPickupId (state m) + 1\<rparr>\<rparr>"
      by (simp add: spawnPickup_eq)
    moreover have "(\<forall>p \<in> set (pickups (state m)). 0 \<le> k_value p) \<longrightarrow>
                   (\<forall>p \<in> set (pickups (state m) @ [?pk]). 0 \<le> k_value p)"
      using v by simp
    ultimately show "\<exists>ps np k. spawnPickup rnd x y ty v wt ?m2 =
            m\<lparr>randomCalls := k, state := (state m)\<lparr>pickups := ps, nextPickupId := np\<rparr>\<rparr> \<and>
          ((\<forall>p \<in> set (pickups (state m)). 0 \<le> k_value p) \<longrightarrow> (\<forall>p \<in> set ps. 0 \<le> k_value p))"
      by blast
  qed
  from floor3_cases [OF assms, of "randomCalls m"] show ?thesis
  proof (elim disjE)
    assume "\<lfloor>rnd (randomCalls m) * 3\<rfloor> = 0"
    then have "spawnRandomPickup rnd x y m =
               Some (spawnPickup rnd x y HealthPickup (25 + \<lfloor>rnd (Suc (randomCalls m)) * 26\<rfloor>) None ?m2)"
      by (simp add: spawnRandomPickup_def random_def Let_def)
    with shape [OF v1, of HealthPickup None] show ?thesis by simp
  next
    assume "\<lfloor>rnd (randomCalls m) * 3\<rfloor> = 1"
    then have "spawnRandomPickup rnd x y m =
               Some (spawnPickup rnd x y AmmoPickup (15 + \<lfloor>rnd (Suc (randomCalls m)) * 21\<rfloor>) None ?m2)"
      by (simp add: spawnRandomPickup_def random_def Let_def)
    with shape [OF v2, of AmmoPickup None] show ?thesis by simp
  next
    assume i: "\<lfloor>rnd (randomCalls m) * 3\<rfloor> = 2"
    show ?thesis
    proof (cases "rnd (Suc (randomCalls m)) < 0.7")
      case True
      with i have "spawnRandomPickup rnd x y m =
                   Some (spawnPickup rnd x y WeaponPickup 12 (Some Shotgun) ?m2)"
        by (simp add: spawnRandomPickup_def random_def Let_def)
      with shape [of 12 WeaponPickup "Some Shotgun"] show ?thesis by simp
    next
      case False
      with i have "spawnRandomPickup rnd x y m =
                   Some (spawnPickup rnd x y WeaponPickup 30 (Some Chaingun) ?m2)"
        by (simp add: spawnRandomPickup_def random_def Let_def)
      with shape [of 30 WeaponPickup "Some Chaingun"] show ?thesis by simp
    qed
  qed
qed

lemma pickupPositionValid_frame [simp]:
  "pickupPositionValid (m\<lparr>randomCalls := k\<rparr>) x y = pickupPositionValid m x y"
  by (simp add: pickupPositionValid_def)

lemma cellIsZero_total: "hasRow g y \<Longrightarrow> \<exists>b. cellIsZero g y x = Some b"
  by (simp add: cellIsZero_def)

lemma pickupPositionValid_total:
  assumes "hasRow (worldMap (state m)) \<lfloor>y\<rfloor>"
  shows "\<exists>ok. pickupPositionValid m x y = Some ok"
proof -
  from cellIsZero_total [OF assms] obtain b where
    "cellIsZero (worldMap (state m)) \<lfloor>y\<rfloor> \<lfloor>x\<rfloor> = Some b" by blast
  then show ?thesis by (cases b) (auto simp: pickupPositionValid_def Let_def)
qed

lemma pickupAttempts_unfold:
  "pickupAttempts rnd cnt (Suc n) m =
     (if int (length (pickups (state m))) < cnt then
        (case pickupPositionValid m
                (2 + rnd (randomCalls m) * (real_of_int (worldSize (state m)) - 4))
                (2 + rnd (Suc (randomCalls m)) * (real_of_int (worldSize (state m)) - 4)) of
           None \<Rightarrow> None
         | Some False \<Rightarrow> pickupAttempts rnd cnt n (m\<lparr>randomCalls := Suc (Suc (randomCalls m))\<rparr>)
         | Some True \<Rightarrow>
             (case spawnRandomPickup rnd
                     (2 + rnd (randomCalls m) * (real_of_int (worldSize (state m)) - 4))
                     (2 + rnd (Suc (randomCalls m)) * (real_of_int (worldSize (state m)) - 4))
                     (m\<lparr>randomCalls := Suc (Suc (randomCalls m))\<rparr>) of
                None \<Rightarrow> None
              | Some m3 \<Rightarrow> pickupAttempts rnd cnt n m3))
      else Some m)"
  by (simp add: random_def Let_def split: option.splits bool.splits)

lemma pickupAttempts_props:
  assumes "rnd01 rnd"
    and "squareGrid (worldSize (state m)) (worldMap (state m))"
    and "4 \<le> worldSize (state m)"
  shows "\<exists>ps np k. pickupAttempts rnd cnt n m =
            Some (m\<lparr>randomCalls := k, state := (state m)\<lparr>pickups := ps, nextPickupId := np\<rparr>\<rparr>) \<and>
          ((\<forall>p \<in> set (pickups (state m)). 0 \<le> k_value p) \<longrightarrow> (\<forall>p \<in> set ps. 0 \<le> k_value p))"
  using assms(2,3)
proof (induction n arbitrary: m)
  case 0
  have "m = m\<lparr>randomCalls := randomCalls m,
              state := (state m)\<lparr>pickups := pickups (state m), nextPickupId := nextPickupId (state m)\<rparr>\<rparr>"
    by simp
  then show ?case by (metis pickupAttempts.simps(1))
next
  case (Suc n)
  have trivial: "m = m\<lparr>randomCalls := randomCalls m,
              state := (state m)\<lparr>pickups := pickups (state m), nextPickupId := nextPickupId (state m)\<rparr>\<rparr>"
    by simp
  let ?sz = "worldSize (state m)"
  let ?x = "2 + rnd (randomCalls m) * (real_of_int ?sz - 4)"
  let ?y = "2 + rnd (Suc (randomCalls m)) * (real_of_int ?sz - 4)"
  let ?m2 = "m\<lparr>randomCalls := Suc (Suc (randomCalls m))\<rparr>"
  show ?case
  proof (cases "int (length (pickups (state m))) < cnt")
    case False
    then have "pickupAttempts rnd cnt (Suc n) m = Some m" by (subst pickupAttempts_unfold) simp
    with trivial show ?thesis by metis
  next
    case True
    have r0: "0 \<le> rnd (Suc (randomCalls m))" and r1: "rnd (Suc (randomCalls m)) < 1"
      using assms(1) by (simp_all add: rnd01_def)
    have "0 \<le> rnd (Suc (randomCalls m)) * (real_of_int ?sz - 4)"
      using r0 Suc.prems(2) by (intro mult_nonneg_nonneg) simp_all
    then have y0: "2 \<le> ?y" by simp
    have "rnd (Suc (randomCalls m)) * (real_of_int ?sz - 4) \<le> 1 * (real_of_int ?sz - 4)"
      using r1 Suc.prems(2) by (intro mult_right_mono) simp_all
    then have y1: "?y \<le> real_of_int ?sz - 2" by simp
    have "0 \<le> \<lfloor>?y\<rfloor>" using y0 by linarith
    moreover have "\<lfloor>?y\<rfloor> < ?sz" using y1 by linarith
    ultimately have "hasRow (worldMap (state m)) \<lfloor>?y\<rfloor>"
      using Suc.prems(1) by (simp add: squareGrid_hasRow)
    from pickupPositionValid_total [OF this] obtain ok where
      ok: "pickupPositionValid m ?x ?y = Some ok" by blast
    have sq2: "squareGrid (worldSize (state ?m2)) (worldMap (state ?m2))" using Suc.prems(1) by simp
    have sz2: "4 \<le> worldSize (state ?m2)" using Suc.prems(2) by simp
    show ?thesis
    proof (cases ok)
      case False
      with ok True have step: "pickupAttempts rnd cnt (Suc n) m = pickupAttempts rnd cnt n ?m2"
        by (subst pickupAttempts_unfold) simp
      from Suc.IH [OF sq2 sz2] obtain ps np k where
        "pickupAttempts rnd cnt n ?m2 =
            Some (?m2\<lparr>randomCalls := k, state := (state ?m2)\<lparr>pickups := ps, nextPickupId := np\<rparr>\<rparr>)"
        and "(\<forall>p \<in> set (pickups (state ?m2)). 0 \<le> k_value p) \<longrightarrow> (\<forall>p \<in> set ps. 0 \<le> k_value p)"
        by blast
      with step show ?thesis by (intro exI [of _ ps] exI [of _ np] exI [of _ k]) simp
    next
      case True
      from spawnRandomPickup_props [OF assms(1), of ?x ?y ?m2] obtain ps0 np0 k0 where
        sp: "spawnRandomPickup rnd ?x ?y ?m2 =
              Some (?m2\<lparr>randomCalls := k0, state := (state ?m2)\<lparr>pickups := ps0, nextPickupId := np0\<rparr>\<rparr>)"
        and ok0: "(\<forall>p \<in> set (pickups (state ?m2)). 0 \<le> k_value p) \<longrightarrow> (\<forall>p \<in> set ps0. 0 \<le> k_value p)"
        by blast
      let ?m3 = "?m2\<lparr>randomCalls := k0, state := (state ?m2)\<lparr>pickups := ps0, nextPickupId := np0\<rparr>\<rparr>"
      from ok True \<open>int (length (pickups (state m))) < cnt\<close> sp
      have step: "pickupAttempts rnd cnt (Suc n) m = pickupAttempts rnd cnt n ?m3"
        by (subst pickupAttempts_unfold) simp
      have sq3: "squareGrid (worldSize (state ?m3)) (worldMap (state ?m3))" using Suc.prems(1) by simp
      have sz3: "4 \<le> worldSize (state ?m3)" using Suc.prems(2) by simp
      from Suc.IH [OF sq3 sz3] obtain ps np k where
        "pickupAttempts rnd cnt n ?m3 =
            Some (?m3\<lparr>randomCalls := k, state := (state ?m3)\<lparr>pickups := ps, nextPickupId := np\<rparr>\<rparr>)"
        and "(\<forall>p \<in> set (pickups (state ?m3)). 0 \<le> k_value p) \<longrightarrow> (\<forall>p \<in> set ps. 0 \<le> k_value p)"
        by blast
      with step ok0 show ?thesis by (intro exI [of _ ps] exI [of _ np] exI [of _ k]) simp
    qed
  qed
qed

lemma draw_in_range:
  assumes "rnd01 rnd" and "2 * c \<le> sz" and "0 < c"
  shows "0 \<le> \<lfloor>real_of_int c + rnd n * (real_of_int sz - 2 * real_of_int c)\<rfloor> \<and>
         \<lfloor>real_of_int c + rnd n * (real_of_int sz - 2 * real_of_int c)\<rfloor> < sz"
proof -
  let ?w = "real_of_int sz - 2 * real_of_int c"
  have w: "0 \<le> ?w" using assms(2) by simp
  have r0: "0 \<le> rnd n" and r1: "rnd n < 1" using assms(1) by (simp_all add: rnd01_def)
  have a: "0 \<le> rnd n * ?w" using r0 w by (rule mult_nonneg_nonneg)
  have "rnd n * ?w \<le> 1 * ?w" using r1 w by (intro mult_right_mono) simp_all
  then have b: "real_of_int c + rnd n * ?w \<le> real_of_int (sz - c)" by simp
  have "0 \<le> real_of_int c + rnd n * ?w" using a assms(3) by simp
  then have lo: "0 \<le> \<lfloor>real_of_int c + rnd n * ?w\<rfloor>" by (simp only: zero_le_floor)
  have "\<lfloor>real_of_int c + rnd n * ?w\<rfloor> \<le> sz - c" using b by linarith
  then have hi: "\<lfloor>real_of_int c + rnd n * ?w\<rfloor> < sz" using assms(3) by linarith
  from lo hi show ?thesis by (rule conjI)
qed

lemma enemy_row_in_range:
  assumes "rnd01 rnd" and "4 \<le> sz" and "squareGrid sz g"
  shows "hasRow g \<lfloor>2 + rnd n * (real_of_int sz - 4)\<rfloor>"
  using draw_in_range [OF assms(1), of 2 sz n] assms(2)
  by (simp only: squareGrid_hasRow [OF assms(3)]) simp

lemma boss_row_in_range:
  assumes "rnd01 rnd" and "10 \<le> sz" and "squareGrid sz g"
  shows "hasRow g \<lfloor>5 + rnd n * (real_of_int sz - 10)\<rfloor>"
  using draw_in_range [OF assms(1), of 5 sz n] assms(2)
  by (simp only: squareGrid_hasRow [OF assms(3)]) simp

lemma enemyPositionValid_total:
  assumes "squareGrid sz wm" and "1 \<le> sz" and "hasRow wm \<lfloor>y\<rfloor>"
  shows "\<exists>ok. enemyPositionValid wm sz x y = Some ok"
proof -
  from cellIsZero_total [OF assms(3)] obtain b where
    b: "cellIsZero wm \<lfloor>y\<rfloor> \<lfloor>x\<rfloor> = Some b" by blast
  have "0 \<le> sz div 2" and "sz div 2 < sz" using assms(2) by auto
  from floodFill_total [OF assms(1) this this] obtain v where
    v: "floodFill wm (sz div 2) (sz div 2) sz = Some v" and sq: "squareGrid sz v" by blast
  have "hasRow v \<lfloor>y\<rfloor>"
    using assms(3) by (simp add: squareGrid_hasRow [OF sq] squareGrid_hasRow [OF assms(1)])
  then obtain c where c: "cellIsTrue v \<lfloor>y\<rfloor> \<lfloor>x\<rfloor> = Some c" by (simp add: cellIsTrue_def)
  show ?thesis using b v c by (cases b) (auto simp: enemyPositionValid_def)
qed

lemma bossPositionValid_total:
  assumes "hasRow wm \<lfloor>y\<rfloor>"
  shows "\<exists>ok. bossPositionValid wm sz x y = Some ok"
proof -
  from cellIsZero_total [OF assms] obtain b where
    "cellIsZero wm \<lfloor>y\<rfloor> \<lfloor>x\<rfloor> = Some b" by blast
  then show ?thesis by (cases b) (auto simp: bossPositionValid_def)
qed

lemma enemyAttempts_unfold:
  "enemyAttempts rnd wm sz cnt (Suc n) es m =
     (if int (length es) < cnt then
        (case enemyPositionValid wm sz (2 + rnd (randomCalls m) * (real_of_int sz - 4))
                (2 + rnd (Suc (randomCalls m)) * (real_of_int sz - 4)) of
           None \<Rightarrow> None
         | Some False \<Rightarrow>
             enemyAttempts rnd wm sz cnt n es (m\<lparr>randomCalls := Suc (Suc (randomCalls m))\<rparr>)
         | Some True \<Rightarrow>
             (case pushRandomEnemy rnd (2 + rnd (randomCalls m) * (real_of_int sz - 4))
                     (2 + rnd (Suc (randomCalls m)) * (real_of_int sz - 4)) es
                     (m\<lparr>randomCalls := Suc (Suc (randomCalls m))\<rparr>) of
                None \<Rightarrow> None
              | Some (es2, m3) \<Rightarrow> enemyAttempts rnd wm sz cnt n es2 m3))
      else Some (es, m))"
  by (simp add: random_def Let_def split: option.splits bool.splits)

lemma enemyAttempts_total:
  assumes "rnd01 rnd" and "squareGrid sz wm" and "4 \<le> sz"
  shows "\<exists>r. enemyAttempts rnd wm sz cnt n es m = Some r"
proof (induction n arbitrary: es m)
  case 0
  show ?case by simp
next
  case (Suc n)
  let ?x = "2 + rnd (randomCalls m) * (real_of_int sz - 4)"
  let ?y = "2 + rnd (Suc (randomCalls m)) * (real_of_int sz - 4)"
  let ?m2 = "m\<lparr>randomCalls := Suc (Suc (randomCalls m))\<rparr>"
  have "1 \<le> sz" using assms(3) by simp
  from enemyPositionValid_total [OF assms(2) this enemy_row_in_range [OF assms(1,3,2)]]
  obtain ok where ok: "enemyPositionValid wm sz ?x ?y = Some ok" by blast
  from pushRandomEnemy_props [OF assms(1), of ?x ?y es ?m2] obtain es2 m3 where
    push: "pushRandomEnemy rnd ?x ?y es ?m2 = Some (es2, m3)" by blast
  show ?case
  proof (cases "int (length es) < cnt")
    case False
    then show ?thesis by (subst enemyAttempts_unfold) simp
  next
    case True
    show ?thesis
    proof (cases ok)
      case False
      from Suc.IH [of es ?m2] True ok False show ?thesis
        by (subst enemyAttempts_unfold) simp
    next
      case ok': True
      from Suc.IH [of es2 m3] True ok ok' push show ?thesis
        by (subst enemyAttempts_unfold) simp
    qed
  qed
qed

lemma generateRandomEnemies_total:
  assumes "rnd01 rnd" and "squareGrid sz wm" and "4 \<le> sz"
  shows "\<exists>r. generateRandomEnemies rnd wm sz m = Some r"
  using enemyAttempts_total [OF assms]
  by (simp add: generateRandomEnemies_def Let_def split_beta)

lemma bossAttempts_unfold:
  "bossAttempts rnd wm sz floorNumber (Suc n) m =
     (case bossPositionValid wm sz (5 + rnd (randomCalls m) * (real_of_int sz - 10))
             (5 + rnd (Suc (randomCalls m)) * (real_of_int sz - 10)) of
        None \<Rightarrow> None
      | Some False \<Rightarrow>
          bossAttempts rnd wm sz floorNumber n (m\<lparr>randomCalls := Suc (Suc (randomCalls m))\<rparr>)
      | Some True \<Rightarrow>
          Some (Some (newBoss (enemyIdOr (m\<lparr>randomCalls := Suc (Suc (randomCalls m))\<rparr>)
                                 (1000 + floorNumber))
                        (5 + rnd (randomCalls m) * (real_of_int sz - 10))
                        (5 + rnd (Suc (randomCalls m)) * (real_of_int sz - 10)) floorNumber),
                m\<lparr>randomCalls := Suc (Suc (randomCalls m))\<rparr>))"
  by (simp add: random_def Let_def split: option.splits bool.splits)

lemma bossAttempts_total:
  assumes "rnd01 rnd" and "squareGrid sz wm" and "10 \<le> sz"
  shows "\<exists>r. bossAttempts rnd wm sz floorNumber n m = Some r"
proof (induction n arbitrary: m)
  case 0
  show ?case by simp
next
  case (Suc n)
  let ?m2 = "m\<lparr>randomCalls := Suc (Suc (randomCalls m))\<rparr>"
  from bossPositionValid_total [OF boss_row_in_range [OF assms(1,3,2)]]
  obtain ok where ok: "bossPositionValid wm sz (5 + rnd (randomCalls m) * (real_of_int sz - 10))
             (5 + rnd (Suc (randomCalls m)) * (real_of_int sz - 10)) = Some ok" by blast
  show ?case
  proof (cases ok)
    case True
    with ok show ?thesis by (subst bossAttempts_unfold) simp
  next
    case False
    with ok Suc.IH [of ?m2] show ?thesis by (subst bossAttempts_unfold) simp
  qed
qed

lemma enemiesAlive_slice0: "enemiesAlive es \<Longrightarrow> enemiesAlive (slice0 n es)"
  by (auto simp: enemiesAlive_def slice0_def dest: in_set_takeD)

lemma generateBossEnemy_props:
  assumes "rnd01 rnd" and "squareGrid sz wm" and "10 \<le> sz" and "0 \<le> floorNumber"
  shows "\<exists>b k. generateBossEnemy rnd wm sz floorNumber m = Some (b, m\<lparr>randomCalls := k\<rparr>) \<and>
               enemiesAlive (case b of None \<Rightarrow> [] | Some boss \<Rightarrow> [boss])"
proof -
  from bossAttempts_total [OF assms(1,2,3), of floorNumber 100 m] obtain b m' where
    r: "bossAttempts rnd wm sz floorNumber 100 m = Some (b, m')" by auto
  from bossAttempts_props [OF r] obtain k where
    k: "m' = m\<lparr>randomCalls := k\<rparr>"
    and bb: "\<forall>boss. b = Some boss \<longrightarrow>
          (\<exists>x y. boss = newBoss (enemyIdOr m (1000 + floorNumber)) x y floorNumber)" by blast
  have "enemiesAlive (case b of None \<Rightarrow> [] | Some boss \<Rightarrow> [boss])"
  proof (cases b)
    case None
    then show ?thesis by (simp add: enemiesAlive_def)
  next
    case (Some boss)
    with bb obtain x y where "boss = newBoss (enemyIdOr m (1000 + floorNumber)) x y floorNumber"
      by blast
    with Some newBoss_health [OF assms(4)] show ?thesis by (simp add: enemiesAlive_def)
  qed
  with r k show ?thesis
    by (intro exI [of _ b] exI [of _ k]) (simp add: generateBossEnemy_def)
qed

lemma generateRandomPickups_props:
  assumes "rnd01 rnd"
    and "squareGrid (worldSize (state m)) (worldMap (state m))"
    and "4 \<le> worldSize (state m)"
  shows "\<exists>ps np k. generateRandomPickups rnd m =
            Some (m\<lparr>randomCalls := k, state := (state m)\<lparr>pickups := ps, nextPickupId := np\<rparr>\<rparr>) \<and>
          ((\<forall>p \<in> set (pickups (state m)). 0 \<le> k_value p) \<longrightarrow> (\<forall>p \<in> set ps. 0 \<le> k_value p))"
proof -
  let ?m1 = "m\<lparr>randomCalls := Suc (randomCalls m)\<rparr>"
  have sq: "squareGrid (worldSize (state ?m1)) (worldMap (state ?m1))" using assms(2) by simp
  have sz: "4 \<le> worldSize (state ?m1)" using assms(3) by simp
  from pickupAttempts_props [OF assms(1) sq sz, of "5 + \<lfloor>rnd (randomCalls m) * 6\<rfloor>" 200]
  obtain ps np k where
    "pickupAttempts rnd (5 + \<lfloor>rnd (randomCalls m) * 6\<rfloor>) 200 ?m1 =
       Some (?m1\<lparr>randomCalls := k, state := (state ?m1)\<lparr>pickups := ps, nextPickupId := np\<rparr>\<rparr>)"
    and "(\<forall>p \<in> set (pickups (state ?m1)). 0 \<le> k_value p) \<longrightarrow> (\<forall>p \<in> set ps. 0 \<le> k_value p)"
    by blast
  then show ?thesis
    by (intro exI [of _ ps] exI [of _ np] exI [of _ k])
       (simp add: generateRandomPickups_def random_def Let_def)
qed

lemma generateRandomEnemies_half:
  assumes "squareGrid sz wm" and "5 \<le> sz"
  shows "\<exists>k. generateRandomEnemies (\<lambda>_. 1 / 2) wm sz m = Some ([], m\<lparr>randomCalls := k\<rparr>)"
proof -
  from enemyAttempts_half [OF assms, of "8 + \<lfloor>1 / 2 * 9 :: real\<rfloor>" 200 "[]"
         "m\<lparr>randomCalls := Suc (randomCalls m)\<rparr>"]
  obtain k where
    "enemyAttempts (\<lambda>_. 1 / 2) wm sz (8 + \<lfloor>1 / 2 * 9 :: real\<rfloor>) 200 []
       (m\<lparr>randomCalls := Suc (randomCalls m)\<rparr>) = Some ([], m\<lparr>randomCalls := k\<rparr>)"
    by auto
  then show ?thesis
    by (intro exI [of _ k]) (simp add: generateRandomEnemies_def random_def Let_def)
qed

lemma bossAttempts_half:
  assumes "squareGrid sz wm" and "10 \<le> sz"
  shows "\<exists>k. bossAttempts (\<lambda>_. 1 / 2) wm sz floorNumber n m = Some (None, m\<lparr>randomCalls := k\<rparr>)"
proof (induction n arbitrary: m)
  case 0
  have "m = m\<lparr>randomCalls := randomCalls m\<rparr>" by simp
  then show ?case by (metis bossAttempts.simps(1))
next
  case (Suc n)
  let ?m2 = "m\<lparr>randomCalls := Suc (Suc (randomCalls m))\<rparr>"
  have pos: "5 + 1 / 2 * (real_of_int sz - 10) = real_of_int sz / 2" by (simp add: field_simps)
  have fl0: "\<lfloor>real_of_int sz / 2\<rfloor> = sz div 2"
    using floor_divide_of_int_eq [of sz 2, where ?'a = real] by simp
  have "hasRow wm (sz div 2)" using assms by (simp add: squareGrid_hasRow)
  then obtain b where b: "cellIsZero wm (sz div 2) (sz div 2) = Some b"
    by (simp add: cellIsZero_def)
  have valid: "bossPositionValid wm sz (real_of_int sz / 2) (real_of_int sz / 2) = Some False"
    using b by (cases b) (simp_all add: bossPositionValid_def fl0)
  have step: "bossAttempts (\<lambda>_. 1 / 2) wm sz floorNumber (Suc n) m =
              bossAttempts (\<lambda>_. 1 / 2) wm sz floorNumber n ?m2"
    by (subst bossAttempts_unfold) (simp only: pos valid, simp)
  from Suc.IH [of ?m2] obtain k where
    "bossAttempts (\<lambda>_. 1 / 2) wm sz floorNumber n ?m2 = Some (None, ?m2\<lparr>randomCalls := k\<rparr>)"
    by blast
  with step show ?case by (intro exI [of _ k]) simp
qed

lemma progressToNextFloor_advances:
  assumes rnd: "rnd01 rnd"
    and fl: "0 \<le> currentFloor (state m)"
    and guard: "enemies (state m) = [] \<or> (isBossFloor (state m) \<and> bossDefeated (state m))"
  shows "\<exists>newMap es ps np ne k.
           progressToNextFloor structure rnd m =
             Some \<lparr>state = (state m)
                     \<lparr>player := nextFloorPlayer (min (64 + ((currentFloor (state m) + 1) div 5) * 8) 96)
                                  (player (state m)),
                      enemies := es, pickups := ps, gameStatus := Playing, worldMap := newMap,
                      nextPickupId := np, nextEnemyId := ne,
                      worldSize := min (64 + ((currentFloor (state m) + 1) div 5) * 8) 96,
                      currentFloor := currentFloor (state m) + 1,
                      floorTheme := getFloorTheme (currentFloor (state m) + 1),
                      isBossFloor := ((currentFloor (state m) + 1) mod 5 = 0),
                      bossDefeated := False\<rparr>,
                   notifications = Suc (notifications m), randomCalls = k\<rparr> \<and>
           enemiesAlive es \<and> (\<forall>p \<in> set ps. 0 \<le> k_value p) \<and>
           squareGrid (min (64 + ((currentFloor (state m) + 1) div 5) * 8) 96) newMap \<and>
           (rnd = (\<lambda>_. 1 / 2) \<longrightarrow> es = [] \<and> ne = nextEnemyId (state m))"
proof -
  let ?nf = "currentFloor (state m) + 1"
  let ?sz = "min (64 + (?nf div 5) * 8) 96"
  let ?th = "getFloorTheme ?nf"
  have "0 \<le> ?nf div 5" using fl by (simp add: pos_imp_zdiv_nonneg_iff)
  then have sz64: "64 \<le> ?sz" by simp
  then have sz1: "1 \<le> ?sz" and sz4: "4 \<le> ?sz" and sz10: "10 \<le> ?sz" by linarith+
  from generateWorldMapWithTheme_total [OF sz1, of "structure" rnd ?th "randomCalls m"]
  obtain newMap k1 where
    gen: "generateWorldMapWithTheme structure rnd ?sz ?th (randomCalls m) = Some (newMap, k1)"
    and sq: "squareGrid ?sz newMap" by blast
  let ?m1 = "m\<lparr>randomCalls := k1,
               state := (state m)\<lparr>player := nextFloorPlayer ?sz (player (state m)),
                                  currentFloor := ?nf, floorTheme := ?th,
                                  isBossFloor := (?nf mod 5 = 0), bossDefeated := False,
                                  worldMap := newMap, worldSize := ?sz\<rparr>\<rparr>"
  from generateRandomEnemies_total [OF rnd sq sz4, of ?m1] obtain es0 m2 where
    gre: "generateRandomEnemies rnd newMap ?sz ?m1 = Some (es0, m2)" by auto
  from generateRandomEnemies_props [OF rnd gre] obtain k2 i2 where
    al0: "enemiesAlive es0"
    and m2: "m2 = ?m1\<lparr>randomCalls := k2, state := (state ?m1)\<lparr>nextEnemyId := i2\<rparr>\<rparr>" by blast
  have nf0: "0 \<le> ?nf" using fl by simp
  from generateBossEnemy_props [OF rnd sq sz10 nf0, of m2] obtain b k3 where
    gbe: "generateBossEnemy rnd newMap ?sz ?nf m2 = Some (b, m2\<lparr>randomCalls := k3\<rparr>)"
    and alb: "enemiesAlive (case b of None \<Rightarrow> [] | Some boss \<Rightarrow> [boss])" by blast
  let ?es = "if ?nf mod 5 = 0
             then slice0 (3 + ?nf div 10) es0 @ (case b of None \<Rightarrow> [] | Some boss \<Rightarrow> [boss])
             else es0"
  let ?k4 = "if ?nf mod 5 = 0 then k3 else k2"
  let ?m4 = "?m1\<lparr>randomCalls := ?k4,
                 state := (state ?m1)\<lparr>nextEnemyId := i2, enemies := ?es, pickups := []\<rparr>\<rparr>"
  have ales: "enemiesAlive ?es"
    using al0 alb enemiesAlive_slice0 [OF al0, of "3 + ?nf div 10"]
    by (auto simp: enemiesAlive_def)
  have sq4: "squareGrid (worldSize (state ?m4)) (worldMap (state ?m4))" using sq by simp
  have sz4': "4 \<le> worldSize (state ?m4)" using sz4 by simp
  from generateRandomPickups_props [OF rnd sq4 sz4'] obtain ps np k5 where
    grp: "generateRandomPickups rnd ?m4 =
            Some (?m4\<lparr>randomCalls := k5, state := (state ?m4)\<lparr>pickups := ps, nextPickupId := np\<rparr>\<rparr>)"
    and pk: "\<forall>p \<in> set ps. 0 \<le> k_value p" by auto
  have "progressToNextFloor structure rnd m =
          Some (notifyListeners
                  ((?m4\<lparr>randomCalls := k5, state := (state ?m4)\<lparr>pickups := ps, nextPickupId := np\<rparr>\<rparr>)
                     \<lparr>state := (state (?m4\<lparr>randomCalls := k5,
                                    state := (state ?m4)\<lparr>pickups := ps, nextPickupId := np\<rparr>\<rparr>))
                                 \<lparr>gameStatus := Playing\<rparr>\<rparr>))"
  proof (cases "?nf mod 5 = 0")
    case True
    with guard gen gre gbe grp m2 show ?thesis
      unfolding progressToNextFloor_def nextFloorPlayer_def Let_def
      by simp
  next
    case False
    with guard gen gre grp m2 show ?thesis
      unfolding progressToNextFloor_def nextFloorPlayer_def Let_def
      by simp
  qed
  then have "progressToNextFloor structure rnd m =
             Some \<lparr>state = (state m)
                     \<lparr>player := nextFloorPlayer ?sz (player (state m)),
                      enemies := ?es, pickups := ps, gameStatus := Playing, worldMap := newMap,
                      nextPickupId := np, nextEnemyId := i2,
                      worldSize := ?sz, currentFloor := ?nf, floorTheme := ?th,
                      isBossFloor := (?nf mod 5 = 0), bossDefeated := False\<rparr>,
                   notifications = Suc (notifications m), randomCalls = k5\<rparr>"
    by (simp add: notifyListeners_def)
  moreover have "rnd = (\<lambda>_. 1 / 2) \<longrightarrow> ?es = [] \<and> i2 = nextEnemyId (state m)"
  proof
    assume h: "rnd = (\<lambda>_. 1 / 2)"
    have sz5: "5 \<le> ?sz" using sz64 by linarith
    from generateRandomEnemies_half [OF sq sz5, of ?m1] gre h obtain kk where
      e0: "es0 = []" and mk: "m2 = ?m1\<lparr>randomCalls := kk\<rparr>" by auto
    from mk have "nextEnemyId (state m2) = nextEnemyId (state m)" by simp
    moreover from m2 have "nextEnemyId (state m2) = i2" by simp
    ultimately have i2: "i2 = nextEnemyId (state m)" by simp
    from bossAttempts_half [OF sq sz10, of ?nf 100 m2] gbe h have "b = None"
      by (auto simp: generateBossEnemy_def)
    with e0 i2 show "?es = [] \<and> i2 = nextEnemyId (state m)" by (simp add: slice0_def)
  qed
  ultimately show ?thesis using ales pk sq by blast
qed

lemma floorManager_props:
  "reachable (floorManager n) \<and>
   currentFloor (state (floorManager n)) = int n + 1 \<and>
   enemies (state (floorManager n)) = [] \<and>
   worldSize (state (floorManager n)) = (if n = 0 then 64 else min (64 + ((int n + 1) div 5) * 8) 96) \<and>
   isBossFloor (state (floorManager n)) = ((int n + 1) mod 5 = 0) \<and>
   bossDefeated (state (floorManager n)) = False \<and>
   gameStatus (state (floorManager n)) = Playing \<and>
   isPaused (state (floorManager n)) = False \<and>
   p_health (player (state (floorManager n))) = 100 \<and>
   p_maxHealth (player (state (floorManager n))) = 100 \<and>
   p_maxAmmo (player (state (floorManager n))) =
     (\<lambda>w. case w of Pistol \<Rightarrow> 200 | Shotgun \<Rightarrow> 50 | Chaingun \<Rightarrow> 200) \<and>
   nextEnemyId (state (floorManager n)) = 1"
proof (induction n)
  case 0
  show ?case
    by (simp add: reachable_firstManager firstManager_state initialPlayer_def)
next
  case (Suc n)
  let ?m = "floorManager n"
  from Suc have r: "reachable ?m" and cf: "currentFloor (state ?m) = int n + 1"
    and en: "enemies (state ?m) = []" by simp_all
  have fl: "0 \<le> currentFloor (state ?m)" using cf by simp
  have g: "enemies (state ?m) = [] \<or> (isBossFloor (state ?m) \<and> bossDefeated (state ?m))"
    using en by simp
  from progressToNextFloor_advances [OF rnd01_half fl g, of "[]"]
  obtain newMap es ps np ne k where
    eq: "progressToNextFloor [] (\<lambda>_. 1 / 2) ?m =
             Some \<lparr>state = (state ?m)
                     \<lparr>player := nextFloorPlayer (min (64 + ((currentFloor (state ?m) + 1) div 5) * 8) 96)
                                  (player (state ?m)),
                      enemies := es, pickups := ps, gameStatus := Playing, worldMap := newMap,
                      nextPickupId := np, nextEnemyId := ne,
                      worldSize := min (64 + ((currentFloor (state ?m) + 1) div 5) * 8) 96,
                      currentFloor := currentFloor (state ?m) + 1,
                      floorTheme := getFloorTheme (currentFloor (state ?m) + 1),
                      isBossFloor := ((currentFloor (state ?m) + 1) mod 5 = 0),
                      bossDefeated := False\<rparr>,
                   notifications = Suc (notifications ?m), randomCalls = k\<rparr>"
    and es: "es = []" "ne = nextEnemyId (state ?m)" by blast
  from do_progressToNextFloor [OF r rnd01_half eq] eq
  have "reachable (floorManager (Suc n))" by simp
  moreover have "state (floorManager (Suc n)) = (state ?m)
                     \<lparr>player := nextFloorPlayer (min (64 + ((currentFloor (state ?m) + 1) div 5) * 8) 96)
                                  (player (state ?m)),
                      enemies := es, pickups := ps, gameStatus := Playing, worldMap := newMap,
                      nextPickupId := np, nextEnemyId := ne,
                      worldSize := min (64 + ((currentFloor (state ?m) + 1) div 5) * 8) 96,
                      currentFloor := currentFloor (state ?m) + 1,
                      floorTheme := getFloorTheme (currentFloor (state ?m) + 1),
                      isBossFloor := ((currentFloor (state ?m) + 1) mod 5 = 0),
                      bossDefeated := False\<rparr>"
    using eq by simp
  ultimately show ?case using Suc es cf
    by (simp add: nextFloorPlayer_def add.commute)
qed

subsection \<open>Enemy updates\<close>

lemma tickTimers_health [simp]: "e_health (tickTimers e) = e_health e"
  by (simp add: tickTimers_def Let_def)

lemma checkBossPhaseTransition_health [simp]:
  "e_health (checkBossPhaseTransition e) = e_health e"
  by (simp add: checkBossPhaseTransition_def Let_def split: EnemyType.splits)

lemma minionKind_props:
  "0 < snd (fst (minionKind rnd t m))"
  "state (snd (minionKind rnd t m)) = state m"
  by (simp_all add: minionKind_def Let_def split_beta split: EnemyType.splits)

lemma stateInv_push_enemy:
  "stateInv s \<Longrightarrow> 0 < e_health e \<Longrightarrow> stateInv (s\<lparr>enemies := enemies s @ [e]\<rparr>)"
  by (simp add: stateInv_def)

lemma stateInv_hit_player:
  "stateInv s \<Longrightarrow> 0 \<le> d \<Longrightarrow>
   stateInv (s\<lparr>player := (player s)\<lparr>p_health := p_health (player s) - d\<rparr>\<rparr>)"
  by (simp add: stateInv_def)

lemma minionAttempts_props:
  "stateInv (state m) \<Longrightarrow> minionAttempts rnd n (b, m) = Some (b', m') \<Longrightarrow>
   stateInv (state m') \<and> e_health b' = e_health b \<and>
   length (enemies (state m)) \<le> length (enemies (state m'))"
proof (induction n arbitrary: m)
  case 0
  then show ?case by simp
next
  case (Suc n)
  let ?m2 = "snd (random rnd (snd (random rnd m)))"
  let ?x = "e_x b + cos (fst (random rnd (snd (random rnd m))) * pi * 2) * (3 + fst (random rnd m) * 4)"
  let ?y = "e_y b + sin (fst (random rnd (snd (random rnd m))) * pi * 2) * (3 + fst (random rnd m) * 4)"
  have inv2: "stateInv (state ?m2)" using Suc.prems(1) by simp
  from Suc.prems(2) obtain ok where ok: "minionPositionValid ?m2 ?x ?y = Some ok"
    by (auto simp: Let_def split_beta split: option.splits)
  show ?case
  proof (cases ok)
    case False
    with ok Suc.prems(2) have "minionAttempts rnd n (b, ?m2) = Some (b', m')"
      by (simp add: Let_def split_beta)
    from Suc.IH [OF inv2 this] show ?thesis by simp
  next
    case True
    with ok Suc.prems(2) Suc.prems(1) show ?thesis
      by (auto simp: Let_def split_beta newMinion_def minionKind_props stateInv_def)
  qed
qed

lemma spawnBossMinion_props:
  "stateInv (state m) \<Longrightarrow> spawnBossMinion rnd (b, m) = Some (b', m') \<Longrightarrow>
   stateInv (state m') \<and> e_health b' = e_health b \<and>
   length (enemies (state m)) \<le> length (enemies (state m'))"
  using minionAttempts_props [of m rnd 20 b b' m']
  by (auto simp: spawnBossMinion_def split: if_splits)


lemma updateBoss_props:
  assumes inv: "stateInv (state m)" and eq: "updateBoss rnd d (e, m) = Some (e', m')"
  shows "stateInv (state m') \<and> e_health e' = e_health e \<and>
         length (enemies (state m)) \<le> length (enemies (state m'))"
proof (cases "isBoss e")
  case False
  with eq inv show ?thesis by (simp add: updateBoss_def)
next
  case True
  define e2 where "e2 = checkBossPhaseTransition
     (if spawnCooldown e > 0 then e\<lparr>spawnCooldown := spawnCooldown e - 1\<rparr> else e)"
  have h: "e_health e2 = e_health e" by (simp add: e2_def)
  from eq True have alt:
    "(if spawnsRemaining e2 > 0 \<and> spawnCooldown e2 \<le> 0 \<and> d < 20 \<and> d > 8
      then spawnBossMinion rnd (e2, m) else Some (e2, m)) = Some (e', m')"
    unfolding updateBoss_def Let_def e2_def by (simp only: prod.case if_True)
  show ?thesis
  proof (cases "spawnsRemaining e2 > 0 \<and> spawnCooldown e2 \<le> 0 \<and> d < 20 \<and> d > 8")
    case True
    with alt have "spawnBossMinion rnd (e2, m) = Some (e', m')" by simp
    from spawnBossMinion_props [OF inv this] h show ?thesis by simp
  next
    case False
    with alt have "e' = e2" "m' = m" by simp_all
    with inv h show ?thesis by simp
  qed
qed

lemma startEnemyExploration_props:
  "startEnemyExploration rnd (e, m) = Some (e', m') \<Longrightarrow>
   e_health e' = e_health e \<and> state m' = state m"
  by (auto simp: startEnemyExploration_def Let_def split_beta
           split: if_splits option.splits bool.splits)

lemma continueEnemyExploration_props:
  "continueEnemyExploration rnd sp (e, m) = Some (e', m') \<Longrightarrow>
   e_health e' = e_health e \<and> state m' = state m"
  by (auto simp: continueEnemyExploration_def Let_def split_beta
           split: if_splits option.splits bool.splits)

lemma stepTowards_health:
  "stepTowards wm tx ty sp e = Some e' \<Longrightarrow> e_health e' = e_health e"
  by (auto simp: stepTowards_def Let_def split: option.splits if_splits)

lemma attackDamage_nonneg: "0 \<le> attackDamage e"
  by (simp add: attackDamage_def)

lemma enemyStateStep_props:
  assumes inv: "stateInv (state m)"
    and eq: "enemyStateStep rnd d c (e, m) = Some (e', m')"
  shows "stateInv (state m') \<and> e_health e' = e_health e \<and>
         enemies (state m') = enemies (state m)"
proof (cases "e_state e")
  case Idle
  with eq inv show ?thesis
    by (auto simp: enemyStateStep_def Let_def split_beta split: if_splits
             dest!: startEnemyExploration_props)
next
  case Patrolling
  with eq inv show ?thesis
    by (auto simp: enemyStateStep_def Let_def split_beta split: if_splits option.splits
             dest!: startEnemyExploration_props stepTowards_health)
next
  case Chasing
  with eq inv show ?thesis
    by (auto simp: enemyStateStep_def Let_def split_beta split: if_splits option.splits
             dest!: stepTowards_health)
next
  case Attacking
  with eq inv stateInv_hit_player [OF inv attackDamage_nonneg [of e]] show ?thesis
    by (auto simp: enemyStateStep_def Let_def split: if_splits)
next
  case Spawning
  with eq inv show ?thesis by (simp add: enemyStateStep_def Let_def)
qed

lemma stateInv_write_back:
  "stateInv s \<Longrightarrow> 0 < e_health e \<Longrightarrow> stateInv (s\<lparr>enemies := (enemies s)[i := e]\<rparr>)"
  by (auto simp: stateInv_def dest!: set_update_subset_insert [THEN subsetD])

lemma updateEnemy_props:
  assumes inv: "stateInv (state m)" and i: "i < length (enemies (state m))"
    and eq: "updateEnemy castRayFunction rnd i m = Some m'"
  shows "stateInv (state m') \<and> length (enemies (state m)) \<le> length (enemies (state m'))"
proof -
  let ?e = "enemies (state m) ! i"
  let ?d = "sqrt ((e_x ?e - p_x (player (state m)))\<^sup>2 + (e_y ?e - p_y (player (state m)))\<^sup>2)"
  have alive: "0 < e_health ?e" using inv i by (simp add: stateInv_def)
  from eq obtain e1 m1 where b: "updateBoss rnd ?d (tickTimers ?e, m) = Some (e1, m1)"
    by (auto simp: updateEnemy_def Let_def split: option.splits)
  from updateBoss_props [OF inv b]
  have inv1: "stateInv (state m1)" and h1: "e_health e1 = e_health ?e"
    and l1: "length (enemies (state m)) \<le> length (enemies (state m1))" by simp_all
  let ?c = "castRayFunction (e_x e1) (e_y e1)
              (atan2 (p_y (player (state m)) - e_y e1) (p_x (player (state m)) - e_x e1)) > ?d"
  from eq b obtain e2 m2 where s: "enemyStateStep rnd ?d ?c (e1, m1) = Some (e2, m2)"
    by (auto simp: updateEnemy_def Let_def split: option.splits)
  from enemyStateStep_props [OF inv1 s]
  have inv2: "stateInv (state m2)" and h2: "e_health e2 = e_health e1"
    and l2: "enemies (state m2) = enemies (state m1)" by simp_all
  let ?go = "explorationDirection e2 \<noteq> None \<and> (e_state e2 = Idle \<or> e_state e2 = Patrolling)"
  from eq b s obtain e3 m3 where
    x: "(if ?go then continueEnemyExploration rnd (moveSpeedOf e2) (e2, m2) else Some (e2, m2))
          = Some (e3, m3)"
    and m': "m' = m3\<lparr>state := (state m3)\<lparr>enemies := (enemies (state m3))[i := e3]\<rparr>\<rparr>"
    by (auto simp: updateEnemy_def Let_def simp del: not_None_eq
             split: option.splits prod.splits split del: if_split)
  have "e_health e3 = e_health e2 \<and> state m3 = state m2"
  proof (cases ?go)
    case True
    with x have "continueEnemyExploration rnd (moveSpeedOf e2) (e2, m2) = Some (e3, m3)" by simp
    from continueEnemyExploration_props [OF this] show ?thesis .
  next
    case False
    with x show ?thesis by (auto split: if_splits)
  qed
  then have h3: "e_health e3 = e_health e2" and s3: "state m3 = state m2" by simp_all
  have "stateInv (state m')"
    unfolding m' using stateInv_write_back [of "state m3" e3 i] inv2 s3 h3 h2 h1 alive by simp
  moreover have "length (enemies (state m)) \<le> length (enemies (state m'))"
    unfolding m' using l1 l2 s3 by simp
  ultimately show ?thesis by simp
qed

lemma enemyLoop_props:
  "stateInv (state m) \<Longrightarrow> \<forall>i \<in> set is. i < length (enemies (state m)) \<Longrightarrow>
   enemyLoop castRayFunction rnd is m = Some m' \<Longrightarrow> stateInv (state m')"
proof (induction "is" arbitrary: m)
  case Nil
  then show ?case by simp
next
  case (Cons i rest)
  from Cons.prems(3) obtain m1 where
    u: "updateEnemy castRayFunction rnd i m = Some m1"
    and l: "enemyLoop castRayFunction rnd rest m1 = Some m'"
    by (auto split: option.splits)
  from Cons.prems(2) have i: "i < length (enemies (state m))" by simp
  from updateEnemy_props [OF Cons.prems(1) i u]
  have inv1: "stateInv (state m1)"
    and len: "length (enemies (state m)) \<le> length (enemies (state m1))" by simp_all
  from Cons.prems(2) len have "\<forall>i \<in> set rest. i < length (enemies (state m1))" by auto
  from Cons.IH [OF inv1 this l] show ?case .
qed

lemma stateInv_updateEnemies:
  assumes "stateInv (state m)" and "updateEnemies castRayFunction rnd m = Some m'"
  shows "stateInv (state m')"
proof (cases "gameStatus (state m) \<noteq> Playing \<or> isPaused (state m)")
  case True
  with assms show ?thesis by (auto simp: updateEnemies_def)
next
  case False
  with assms(2) obtain m1 where
    l: "enemyLoop castRayFunction rnd [0..<length (enemies (state m))] m = Some m1"
    and m': "m' = notifyListeners m1"
    by (auto simp: updateEnemies_def)
  have "\<forall>i \<in> set [0..<length (enemies (state m))]. i < length (enemies (state m))" by simp
  from enemyLoop_props [OF assms(1) this l] show ?thesis
    by (simp add: m' notifyListeners_def)
qed

lemma stateInv_initializeEnemiesAfterState:
  assumes "rnd01 rnd" and "stateInv (state m)"
    and "initializeEnemiesAfterState rnd m = Some m'"
  shows "stateInv (state m')"
proof -
  from assms(3) obtain es m1 where
    g: "generateRandomEnemies rnd (worldMap (state m)) (worldSize (state m)) m = Some (es, m1)"
    and m': "m' = m1\<lparr>state := (state m1)\<lparr>enemies := es\<rparr>\<rparr>"
    by (auto simp: initializeEnemiesAfterState_def)
  from generateRandomEnemies_props [OF assms(1) g] obtain k i where
    a: "enemiesAlive es" and b: "m1 = m\<lparr>randomCalls := k, state := (state m)\<lparr>nextEnemyId := i\<rparr>\<rparr>"
    by blast
  show ?thesis using assms(2) a unfolding m' b by (simp add: stateInv_def enemiesAlive_def)
qed

lemma stateInv_updateWithDeltaTime:
  assumes "rnd01 rnd" and "stateInv (state m)"
    and "updateWithDeltaTime rnd t m = Some (m', n)"
  shows "stateInv (state m')"
proof -
  consider (paused) "isPaused (state m)"
    | (first) "\<not> isPaused (state m)" "lastUpdateTime (state m) = 0"
    | (run) "\<not> isPaused (state m)" "lastUpdateTime (state m) \<noteq> 0" by blast
  then show ?thesis
  proof cases
    case paused
    with assms(2,3) show ?thesis by (auto simp: updateWithDeltaTime_def)
  next
    case first
    let ?m1 = "m\<lparr>state := (state m)\<lparr>lastUpdateTime := t\<rparr>\<rparr>"
    have inv1: "stateInv (state ?m1)" using assms(2) by simp
    show ?thesis
    proof (cases "enemies (state m) = []")
      case True
      with first assms(3) have "initializeEnemiesAfterState rnd ?m1 = Some m'"
        by (auto simp: updateWithDeltaTime_def Let_def)
      from stateInv_initializeEnemiesAfterState [OF assms(1) inv1 this] show ?thesis .
    next
      case False
      with first assms(3) have "m' = ?m1" by (auto simp: updateWithDeltaTime_def Let_def)
      with inv1 show ?thesis by simp
    qed
  next
    case run
    let ?m1 = "m\<lparr>state := (state m)
                 \<lparr>lastUpdateTime := t,
                  accumulator := roundDouble (accumulator (state m) +
                                   roundDouble (t - lastUpdateTime (state m)))\<rparr>\<rparr>"
    have inv1: "stateInv (state ?m1)" using assms(2) by simp
    from run assms(3) obtain r where r: "fixedSteps ?m1 0 = Some r"
      and m': "m' = notifyListeners (fst r)"
      by (auto simp: updateWithDeltaTime_def Let_def split: option.splits)
    from stateInv_fixedSteps [OF inv1 r] show ?thesis by (simp add: m' notifyListeners_def)
  qed
qed

lemma stateInv_nextFloorPlayer:
  assumes "stateInv s"
  shows "p_health (nextFloorPlayer z (player s)) \<le> p_maxHealth (nextFloorPlayer z (player s))"
    and "\<forall>w. 0 \<le> p_ammo (nextFloorPlayer z (player s)) w \<and>
             p_ammo (nextFloorPlayer z (player s)) w \<le> p_maxAmmo (nextFloorPlayer z (player s)) w"
proof -
  show "p_health (nextFloorPlayer z (player s)) \<le> p_maxHealth (nextFloorPlayer z (player s))"
    by (simp add: nextFloorPlayer_def)
  have a: "\<And>w. 0 \<le> p_ammo (player s) w" and b: "\<And>w. 0 \<le> p_maxAmmo (player s) w"
    using assms by (auto simp: stateInv_def intro: order_trans)
  show "\<forall>w. 0 \<le> p_ammo (nextFloorPlayer z (player s)) w \<and>
             p_ammo (nextFloorPlayer z (player s)) w \<le> p_maxAmmo (nextFloorPlayer z (player s)) w"
  proof
    fix w
    show "0 \<le> p_ammo (nextFloorPlayer z (player s)) w \<and>
          p_ammo (nextFloorPlayer z (player s)) w \<le> p_maxAmmo (nextFloorPlayer z (player s)) w"
      using a [of w] b [of w] by (cases w) (simp_all add: nextFloorPlayer_def)
  qed
qed

lemma stateInv_progressToNextFloor:
  assumes "rnd01 rnd" and "stateInv (state m)"
    and "progressToNextFloor structure rnd m = Some m'"
  shows "stateInv (state m')"
proof (cases "enemies (state m) = [] \<or> (isBossFloor (state m) \<and> bossDefeated (state m))")
  case False
  with assms(3) have "m' = m" by (auto simp: progressToNextFloor_def)
  with assms(2) show ?thesis by simp
next
  case True
  have fl: "0 \<le> currentFloor (state m)" using assms(2) by (simp add: stateInv_def)
  let ?z = "min (64 + ((currentFloor (state m) + 1) div 5) * 8) 96"
  from progressToNextFloor_advances [OF assms(1) fl True, of "structure"]
  obtain newMap es ps np ne k where
    pr: "progressToNextFloor structure rnd m =
           Some \<lparr>state = (state m)
                     \<lparr>player := nextFloorPlayer ?z (player (state m)),
                      enemies := es, pickups := ps, gameStatus := Playing, worldMap := newMap,
                      nextPickupId := np, nextEnemyId := ne,
                      worldSize := ?z,
                      currentFloor := currentFloor (state m) + 1,
                      floorTheme := getFloorTheme (currentFloor (state m) + 1),
                      isBossFloor := ((currentFloor (state m) + 1) mod 5 = 0),
                      bossDefeated := False\<rparr>,
                   notifications = Suc (notifications m), randomCalls = k\<rparr>"
    and es: "enemiesAlive es" and ps: "\<forall>p \<in> set ps. 0 \<le> k_value p"
    by blast
  from pr assms(3) have
    eq: "m' = \<lparr>state = (state m)
                     \<lparr>player := nextFloorPlayer ?z (player (state m)),
                      enemies := es, pickups := ps, gameStatus := Playing, worldMap := newMap,
                      nextPickupId := np, nextEnemyId := ne,
                      worldSize := ?z,
                      currentFloor := currentFloor (state m) + 1,
                      floorTheme := getFloorTheme (currentFloor (state m) + 1),
                      isBossFloor := ((currentFloor (state m) + 1) mod 5 = 0),
                      bossDefeated := False\<rparr>,
                   notifications = Suc (notifications m), randomCalls = k\<rparr>"
    by simp
  show ?thesis
    unfolding eq using stateInv_nextFloorPlayer [OF assms(2), of ?z] es ps fl
    by (simp add: stateInv_def enemiesAlive_def)
qed

lemma stateInv_createInitialState:
  "createInitialState structure rnd k = Some (s, k') \<Longrightarrow> stateInv s"
  by (auto simp: createInitialState_def Let_def stateInv_def initialPlayer_def
           split: option.splits Weapon.splits)

lemma reachable_stateInv: "reachable m \<Longrightarrow> stateInv (state m)"
proof (induction rule: reachable.induct)
  case (construct rnd "structure" k m)
  then show ?case
    by (auto simp: newGameStateManager_def dest: stateInv_createInitialState)
next
  case (do_pause m)
  then show ?case by (simp add: stateInv_simple(1))
next
  case (do_resume m)
  then show ?case by (simp add: stateInv_simple(2))
next
  case (do_togglePause m)
  then show ?case by (simp add: stateInv_simple(3))
next
  case (do_switchWeapon m w)
  then show ?case by (simp add: stateInv_simple(4))
next
  case (do_shoot m)
  then show ?case by (simp add: stateInv_shoot)
next
  case (do_updateWithDeltaTime m rnd t m' n)
  then show ?case using stateInv_updateWithDeltaTime by blast
next
  case (do_updatePlayer m input m')
  then show ?case using stateInv_updatePlayer by blast
next
  case (do_updateMouseLook m deltaX)
  then show ?case by (simp add: stateInv_simple(5))
next
  case (do_updateEnemies m rnd castRayFunction m')
  then show ?case using stateInv_updateEnemies by blast
next
  case (do_damageEnemy m rnd enemyId dmg)
  then show ?case using stateInv_damageEnemy by blast
next
  case (do_progressToNextFloor m rnd "structure" m')
  then show ?case using stateInv_progressToNextFloor by blast
next
  case (do_checkFloorProgression m)
  then show ?case by (simp add: stateInv_simple(6))
next
  case (do_reset m rnd "structure" m')
  then show ?case
    by (auto simp: reset_def notifyListeners_def dest: stateInv_createInitialState)
qed

subsection \<open>A boss floor, its boss and the first minion\<close>

lemma zeroAt_setCell: "zeroAt g y x \<Longrightarrow> zeroAt (setCell g y' x' 0) y x"
proof -
  assume z: "zeroAt g y x"
  then have y: "nat y < length g" "y < int (length g)" and y0: "0 \<le> y" and x0: "0 \<le> x"
    and x: "nat x < length (g ! nat y)" "x < int (length (g ! nat y))"
    and v: "g ! nat y ! nat x = 0"
    by (auto simp: zeroAt_def inGrid_def hasRow_def getCell_def)
  show ?thesis
  proof (cases "nat y' = nat y")
    case True
    with y x v y0 x0 show ?thesis
      by (cases "nat x' = nat x")
         (auto simp: zeroAt_def inGrid_def hasRow_def getCell_def setCell_def)
  next
    case False
    with y x v y0 x0 show ?thesis
      by (auto simp: zeroAt_def inGrid_def hasRow_def getCell_def setCell_def)
  qed
qed

lemma zeroAt_carveHorizontal:
  "zeroAt g y x \<Longrightarrow> zeroAt (carveHorizontal g sz cx cy tx) y x"
proof (induction g sz cx cy tx rule: carveHorizontal.induct)
  case (1 g sz currentX currentY toX)
  show ?case
  proof (cases "currentX \<noteq> toX")
    case True
    have "zeroAt (if isInterior sz currentX currentY then setCell g currentY currentX 0 else g) y x"
      using "1.prems" by (simp add: zeroAt_setCell)
    from "1.IH" [OF True this] True show ?thesis
      by (subst carveHorizontal.simps) simp
  next
    case False
    with "1.prems" show ?thesis by (subst carveHorizontal.simps) simp
  qed
qed

lemma zeroAt_carveVertical:
  "zeroAt g y x \<Longrightarrow> zeroAt (carveVertical g sz cx cy ty) y x"
proof (induction g sz cx cy ty rule: carveVertical.induct)
  case (1 g sz currentX currentY toY)
  show ?case
  proof (cases "currentY \<noteq> toY")
    case True
    have "zeroAt (if isInterior sz currentX currentY then setCell g currentY currentX 0 else g) y x"
      using "1.prems" by (simp add: zeroAt_setCell)
    from "1.IH" [OF True this] True show ?thesis
      by (subst carveVertical.simps) simp
  next
    case False
    with "1.prems" show ?thesis by (subst carveVertical.simps) simp
  qed
qed

lemma zeroAt_connectAreas:
  "zeroAt g y x \<Longrightarrow> zeroAt (connectAreas v sz areas g) y x"
proof (induction areas arbitrary: g)
  case Nil
  then show ?case by simp
next
  case (Cons a areas)
  have "zeroAt (case closestReachable v sz a of None \<Rightarrow> g
                | Some (d, c) \<Rightarrow> createPath g a c sz) y x"
    using Cons.prems
    by (auto simp: createPath_def zeroAt_carveHorizontal zeroAt_carveVertical
             split: option.splits)
  from Cons.IH [OF this] show ?case by simp
qed

lemma zeroAt_clearMiddleRow:
  "zeroAt g y x \<Longrightarrow> zeroAt (fst (clearMiddleRow rnd mid xs (g, k))) y x"
  by (induction xs arbitrary: g k) (simp_all add: zeroAt_setCell)

lemma zeroAt_clearMiddleColumn:
  "zeroAt g y x \<Longrightarrow> zeroAt (fst (clearMiddleColumn rnd mid ys (g, k))) y x"
  by (induction ys arbitrary: g k) (simp_all add: zeroAt_setCell)

lemma draws_clearMiddleRow: "snd (clearMiddleRow rnd mid xs (g, k)) = k + length xs"
  by (induction xs arbitrary: g k) simp_all

lemma draws_clearMiddleColumn: "snd (clearMiddleColumn rnd mid ys (g, k)) = k + length ys"
  by (induction ys arbitrary: g k) simp_all

lemma zeroAt_clearSpawnArea: "zeroAt g y x \<Longrightarrow> zeroAt (clearSpawnArea mid sz g) y x"
  by (simp add: clearSpawnArea_def zeroAt_setCell)

lemma createEmergencyConnections_props:
  "snd (createEmergencyConnections rnd g sz k) = k + 2 * nat (sz - 2)"
  "zeroAt g y x \<Longrightarrow> zeroAt (fst (createEmergencyConnections rnd g sz k)) y x"
proof -
  obtain g1 k1 where a: "clearMiddleRow rnd (sz div 2) [1..sz - 2] (g, k) = (g1, k1)"
    by (cases "clearMiddleRow rnd (sz div 2) [1..sz - 2] (g, k)")
  obtain g2 k2 where b: "clearMiddleColumn rnd (sz div 2) [1..sz - 2] (g1, k1) = (g2, k2)"
    by (cases "clearMiddleColumn rnd (sz div 2) [1..sz - 2] (g1, k1)")
  have eq: "createEmergencyConnections rnd g sz k = (clearSpawnArea (sz div 2) sz g2, k2)"
    by (simp add: createEmergencyConnections_def Let_def a b)
  have "k1 = k + length [1..sz - 2]" using draws_clearMiddleRow [of rnd "sz div 2" "[1..sz - 2]" g k] a by simp
  moreover have "k2 = k1 + length [1..sz - 2]"
    using draws_clearMiddleColumn [of rnd "sz div 2" "[1..sz - 2]" g1 k1] b by simp
  ultimately show "snd (createEmergencyConnections rnd g sz k) = k + 2 * nat (sz - 2)"
    using eq by simp
  assume z: "zeroAt g y x"
  have "zeroAt g1 y x" using zeroAt_clearMiddleRow [OF z, of rnd "sz div 2" "[1..sz - 2]" k] a by simp
  then have "zeroAt g2 y x"
    using zeroAt_clearMiddleColumn [of g1 y x rnd "sz div 2" "[1..sz - 2]" k1] b by simp
  then show "zeroAt (fst (createEmergencyConnections rnd g sz k)) y x"
    using eq by (simp add: zeroAt_clearSpawnArea)
qed

lemma zeroAt_borderedGrid:
  assumes "0 < y" and "y < sz - 1" and "0 < x" and "x < sz - 1"
  shows "zeroAt (borderedGrid sz b) y x"
proof -
  have ly: "nat y < length [0..sz - 1]" and lx: "nat x < length [0..sz - 1]" using assms by auto
  have ny: "[0..sz - 1] ! nat y = y" and nx: "[0..sz - 1] ! nat x = x"
    using assms by (auto simp: nth_upto)
  show ?thesis
    using assms ly lx ny nx
    by (simp add: zeroAt_def inGrid_def hasRow_def getCell_def borderedGrid_def)
qed

lemma generateWorldMapWithTheme_empty:
  assumes "generateWorldMapWithTheme [] rnd sz theme k = Some (g, k')"
  shows "k' = k + 2 * nat (sz - 2)"
    and "0 < y \<Longrightarrow> y < sz - 1 \<Longrightarrow> 0 < x \<Longrightarrow> x < sz - 1 \<Longrightarrow> cellIsZero g y x = Some True"
proof -
  let ?g0 = "borderedGrid sz (border (getThemeWallTypes theme))"
  from assms obtain v where
    eq: "createEmergencyConnections rnd (connectUnreachableAreas ?g0 v sz) sz k = (g, k')"
    by (auto simp: generateWorldMapWithTheme_def ensureMapConnectivity_def applyWrites_def Let_def
             split: option.splits)
  show "k' = k + 2 * nat (sz - 2)"
    using createEmergencyConnections_props(1) [of rnd "connectUnreachableAreas ?g0 v sz" sz k] eq
    by simp
  assume "0 < y" "y < sz - 1" "0 < x" "x < sz - 1"
  then have "zeroAt ?g0 y x" by (rule zeroAt_borderedGrid)
  then have "zeroAt (connectUnreachableAreas ?g0 v sz) y x"
    by (simp add: connectUnreachableAreas_def Let_def zeroAt_connectAreas)
  from createEmergencyConnections_props(2) [OF this, of rnd sz k] eq
  have "zeroAt g y x" by simp
  then show "cellIsZero g y x = Some True"
    by (simp add: zeroAt_def cellIsZero_def inGrid_def)
qed

lemma enemyAttempts_reject:
  assumes "squareGrid sz wm" and "5 \<le> sz" and "int (length es) < cnt"
  shows "\<forall>j < 2 * n. rnd (randomCalls m + j) = 1 / 2 \<Longrightarrow>
         enemyAttempts rnd wm sz cnt n es m = Some (es, m\<lparr>randomCalls := randomCalls m + 2 * n\<rparr>)"
proof (induction n arbitrary: m)
  case 0
  show ?case by simp
next
  case (Suc n)
  let ?m2 = "m\<lparr>randomCalls := Suc (Suc (randomCalls m))\<rparr>"
  from Suc.prems have r1: "rnd (randomCalls m) = 1 / 2"
    by (metis add.right_neutral mult_Suc_right zero_less_Suc add_Suc_right add_2_eq_Suc)
  from Suc.prems have "rnd (randomCalls m + 1) = 1 / 2" by auto
  then have r2: "rnd (Suc (randomCalls m)) = 1 / 2" by simp
  have pos: "2 + (real_of_int sz - 4) / 2 = real_of_int sz / 2" by (simp add: field_simps)
  have fl0: "\<lfloor>real_of_int sz / 2\<rfloor> = sz div 2"
    using floor_divide_of_int_eq [of sz 2, where ?'a = real] by simp
  have "hasRow wm (sz div 2)" using assms by (simp add: squareGrid_hasRow)
  then obtain b where b: "cellIsZero wm (sz div 2) (sz div 2) = Some b"
    by (simp add: cellIsZero_def)
  have valid: "enemyPositionValid wm sz (real_of_int sz / 2) (real_of_int sz / 2) = Some False"
    using b by (cases b) (simp_all add: enemyPositionValid_def fl0)
  have step: "enemyAttempts rnd wm sz cnt (Suc n) es m = enemyAttempts rnd wm sz cnt n es ?m2"
    using assms(3) valid by (simp add: random_def Let_def pos r1 r2)
  have "\<forall>j < 2 * n. rnd (randomCalls ?m2 + j) = 1 / 2"
  proof (intro allI impI)
    fix j assume "j < 2 * n"
    then have "Suc (Suc j) < 2 * Suc n" by simp
    with Suc.prems have "rnd (randomCalls m + Suc (Suc j)) = 1 / 2" by blast
    then show "rnd (randomCalls ?m2 + j) = 1 / 2" by simp
  qed
  from Suc.IH [OF this] step show ?case by simp
qed

lemma rnd01_bossOracle: "rnd01 (bossOracle K)"
  by (simp add: rnd01_def bossOracle_def)

lemma boss_far_enough: "15 < sqrt ((20 - real_of_int 72 / 2)\<^sup>2 + (36 - real_of_int 72 / 2)\<^sup>2)"
proof -
  have "(20 - real_of_int 72 / 2)\<^sup>2 + (36 - real_of_int 72 / 2)\<^sup>2 = (16::real)\<^sup>2"
    by (simp add: power2_eq_square)
  then have "sqrt ((20 - real_of_int 72 / 2)\<^sup>2 + (36 - real_of_int 72 / 2)\<^sup>2) = 16"
    by (metis real_sqrt_abs abs_numeral)
  then show ?thesis by simp
qed

lemma progressToNextFloor_boss:
  assumes cf: "currentFloor (state m) = 4" and en: "enemies (state m) = []"
    and ne: "nextEnemyId (state m) = 1"
  shows "\<exists>wm ps np k.
           progressToNextFloor [] (bossOracle (randomCalls m)) m =
             Some \<lparr>state = (state m)
                     \<lparr>player := nextFloorPlayer 72 (player (state m)),
                      enemies := [newBoss 1 20 36 5], pickups := ps, gameStatus := Playing,
                      worldMap := wm, nextPickupId := np,
                      worldSize := 72, currentFloor := 5, floorTheme := getFloorTheme 5,
                      isBossFloor := True, bossDefeated := False\<rparr>,
                   notifications = Suc (notifications m), randomCalls = k\<rparr> \<and>
           (\<forall>y x. 0 < y \<and> y < 71 \<and> 0 < x \<and> x < 71 \<longrightarrow> cellIsZero wm y x = Some True) \<and>
           (\<forall>p \<in> set ps. 0 \<le> k_value p)"
proof -
  let ?K = "randomCalls m"
  let ?rnd = "bossOracle ?K"
  let ?th = "getFloorTheme 5"
  have rnd: "rnd01 ?rnd" by (rule rnd01_bossOracle)
  have "(1::int) \<le> 72" by simp
  from generateWorldMapWithTheme_total [OF this, of "[]" ?rnd ?th ?K]
  obtain wm k1 where
    gen: "generateWorldMapWithTheme [] ?rnd 72 ?th ?K = Some (wm, k1)"
    and sq: "squareGrid 72 wm" by blast
  from generateWorldMapWithTheme_empty(1) [OF gen] have k1: "k1 = ?K + 140" by simp
  have free: "\<And>y x. 0 < y \<Longrightarrow> y < 71 \<Longrightarrow> 0 < x \<Longrightarrow> x < 71 \<Longrightarrow> cellIsZero wm y x = Some True"
    using generateWorldMapWithTheme_empty(2) [OF gen] by simp
  let ?s1 = "(state m)\<lparr>player := nextFloorPlayer 72 (player (state m)),
                        currentFloor := 5, floorTheme := ?th,
                        isBossFloor := True, bossDefeated := False,
                        worldMap := wm, worldSize := 72\<rparr>"
  let ?m1 = "m\<lparr>randomCalls := k1, state := ?s1\<rparr>"
  let ?ma = "?m1\<lparr>randomCalls := Suc (?K + 140)\<rparr>"
  have half: "\<forall>j < 2 * 200. ?rnd (randomCalls ?ma + j) = 1 / 2"
    by (simp add: bossOracle_def)
  have len: "int (length ([]::Enemy list)) < 12" by simp
  have "(5::int) \<le> 72" by simp
  from enemyAttempts_reject [OF sq this len half]
  have att: "enemyAttempts ?rnd wm 72 12 200 [] ?ma = Some ([], ?m1\<lparr>randomCalls := ?K + 541\<rparr>)"
    by simp
  have r0: "?rnd (?K + 140) = 1 / 2" by (simp add: bossOracle_def)
  have gre: "generateRandomEnemies ?rnd wm 72 ?m1 = Some ([], ?m1\<lparr>randomCalls := ?K + 541\<rparr>)"
    using att by (simp add: generateRandomEnemies_def random_def Let_def r0 k1)
  let ?m2 = "?m1\<lparr>randomCalls := ?K + 541\<rparr>"
  let ?m3 = "?m1\<lparr>randomCalls := Suc (Suc (?K + 541))\<rparr>"
  have rx: "?rnd (randomCalls ?m2) = 15 / 62" and ry: "?rnd (Suc (randomCalls ?m2)) = 1 / 2"
    by (simp_all add: bossOracle_def)
  have px: "5 + 15 / 62 * (real_of_int 72 - 10) = 20" and py: "5 + 1 / 2 * (real_of_int 72 - 10) = 36"
    by simp_all
  have c: "cellIsZero wm 36 20 = Some True" by (rule free) simp_all
  have valid: "bossPositionValid wm 72 20 36 = Some True"
    using c boss_far_enough by (simp add: bossPositionValid_def)
  have "bossAttempts ?rnd wm 72 5 (Suc 99) ?m2 =
          Some (Some (newBoss (enemyIdOr ?m3 (1000 + 5)) 20 36 5), ?m3)"
    by (subst bossAttempts_unfold) (simp only: rx ry px py valid, simp)
  moreover have "enemyIdOr ?m3 (1000 + 5) = 1" using ne by (simp add: enemyIdOr_def)
  ultimately have gbe: "generateBossEnemy ?rnd wm 72 5 ?m2 = Some (Some (newBoss 1 20 36 5), ?m3)"
    by (simp add: generateBossEnemy_def)
  let ?m4 = "?m1\<lparr>randomCalls := Suc (Suc (?K + 541)),
                 state := ?s1\<lparr>enemies := [newBoss 1 20 36 5], pickups := []\<rparr>\<rparr>"
  have sq4: "squareGrid (worldSize (state ?m4)) (worldMap (state ?m4))" using sq by simp
  have sz4: "4 \<le> worldSize (state ?m4)" by simp
  from generateRandomPickups_props [OF rnd sq4 sz4] obtain ps np k5 where
    grp: "generateRandomPickups ?rnd ?m4 =
            Some (?m4\<lparr>randomCalls := k5, state := (state ?m4)\<lparr>pickups := ps, nextPickupId := np\<rparr>\<rparr>)"
    and pk: "\<forall>p \<in> set ps. 0 \<le> k_value p" by auto
  have "progressToNextFloor [] ?rnd m =
          Some (notifyListeners
                  ((?m4\<lparr>randomCalls := k5, state := (state ?m4)\<lparr>pickups := ps, nextPickupId := np\<rparr>\<rparr>)
                     \<lparr>state := (state (?m4\<lparr>randomCalls := k5,
                                    state := (state ?m4)\<lparr>pickups := ps, nextPickupId := np\<rparr>\<rparr>))
                                 \<lparr>gameStatus := Playing\<rparr>\<rparr>))"
    using en cf gen gre gbe grp
    unfolding progressToNextFloor_def nextFloorPlayer_def Let_def
    by (simp add: slice0_def)
  then have "progressToNextFloor [] ?rnd m =
             Some \<lparr>state = (state m)
                     \<lparr>player := nextFloorPlayer 72 (player (state m)),
                      enemies := [newBoss 1 20 36 5], pickups := ps, gameStatus := Playing,
                      worldMap := wm, nextPickupId := np,
                      worldSize := 72, currentFloor := 5, floorTheme := ?th,
                      isBossFloor := True, bossDefeated := False\<rparr>,
                   notifications = Suc (notifications m), randomCalls = k5\<rparr>"
    by (simp add: notifyListeners_def)
  with free pk show ?thesis by blast
qed

lemma bossFloorManager_props:
  "reachable bossFloorManager"
  "arena bossFloorManager"
  "enemies (state bossFloorManager) = [newBoss 1 20 36 5]"
  "p_x (player (state bossFloorManager)) = 36"
  "p_health (player (state bossFloorManager)) = 100"
  "nextEnemyId (state bossFloorManager) = 1"
  "currentFloor (state bossFloorManager) = 5"
  "isBossFloor (state bossFloorManager)"
proof -
  let ?m = "floorManager 3"
  from floorManager_props [of 3] have r: "reachable ?m"
    and cf: "currentFloor (state ?m) = 4" and en: "enemies (state ?m) = []"
    and ne: "nextEnemyId (state ?m) = 1" and st: "gameStatus (state ?m) = Playing"
    and pa: "isPaused (state ?m) = False"
    and h: "p_health (player (state ?m)) = 100" "p_maxHealth (player (state ?m)) = 100"
    by simp_all
  from progressToNextFloor_boss [OF cf en ne] obtain wm ps np k where
    eq: "progressToNextFloor [] (bossOracle (randomCalls ?m)) ?m =
             Some \<lparr>state = (state ?m)
                     \<lparr>player := nextFloorPlayer 72 (player (state ?m)),
                      enemies := [newBoss 1 20 36 5], pickups := ps, gameStatus := Playing,
                      worldMap := wm, nextPickupId := np,
                      worldSize := 72, currentFloor := 5, floorTheme := getFloorTheme 5,
                      isBossFloor := True, bossDefeated := False\<rparr>,
                   notifications = Suc (notifications ?m), randomCalls = k\<rparr>"
    and free: "\<forall>y x. 0 < y \<and> y < 71 \<and> 0 < x \<and> x < 71 \<longrightarrow> cellIsZero wm y x = Some True"
    by blast
  from do_progressToNextFloor [OF r rnd01_bossOracle eq] eq
  show "reachable bossFloorManager" by (simp add: bossFloorManager_def)
  have s: "state bossFloorManager = (state ?m)
                     \<lparr>player := nextFloorPlayer 72 (player (state ?m)),
                      enemies := [newBoss 1 20 36 5], pickups := ps, gameStatus := Playing,
                      worldMap := wm, nextPickupId := np,
                      worldSize := 72, currentFloor := 5, floorTheme := getFloorTheme 5,
                      isBossFloor := True, bossDefeated := False\<rparr>"
    using eq by (simp add: bossFloorManager_def)
  show "arena bossFloorManager"
    unfolding arena_def s using free pa h by (simp add: nextFloorPlayer_def)
  show "enemies (state bossFloorManager) = [newBoss 1 20 36 5]" unfolding s by simp
  show "p_x (player (state bossFloorManager)) = 36" unfolding s by (simp add: nextFloorPlayer_def)
  show "p_health (player (state bossFloorManager)) = 100"
    unfolding s using h by (simp add: nextFloorPlayer_def)
  show "nextEnemyId (state bossFloorManager) = 1" unfolding s using ne by simp
  show "currentFloor (state bossFloorManager) = 5" unfolding s by simp
  show "isBossFloor (state bossFloorManager)" unfolding s by simp
qed

lemma sqrt_square_line: "sqrt ((a - b)\<^sup>2 + (c - c)\<^sup>2) = \<bar>a - b\<bar>" for a b c :: real
  by simp

lemma boss_fields:
  "newBoss 1 20 36 5 =
     \<lparr>e_id = 1, e_x = 20, e_y = 36, e_health = 325, e_maxHealth = 325,
      e_state = Idle, lastPlayerX = 0, lastPlayerY = 0, attackCooldown = 0,
      patrolTarget = None, enemyType = BossCyberdemon, explorationCooldown = 0,
      explorationDirection = None, isBoss = True, spawnCooldown = 0,
      spawnsRemaining = 5, phaseTransitions = [260, 195, 130, 65], currentPhase = 0,
      isHurt = False, hurtTimer = 0\<rparr>"
  by (simp add: newBoss_def bossTypeOf_def Let_def)

lemma first_minion:
  assumes a: "arena m" and en: "enemies (state m) = [newBoss 1 20 36 5]"
    and px: "p_x (player (state m)) = 36" and ne: "nextEnemyId (state m) = 1"
  shows "minionAttempts (\<lambda>_. 1 / 2) (Suc 19) (newBoss 1 20 36 5, m) =
           Some ((newBoss 1 20 36 5)\<lparr>spawnsRemaining := 4, spawnCooldown := 210\<rparr>,
                 m\<lparr>randomCalls := randomCalls m + 4,
                   state := (state m)
                     \<lparr>nextEnemyId := 2,
                      enemies := [newBoss 1 20 36 5,
                                  newMinion 1 15 36 Captain 55 (player (state m))]\<rparr>\<rparr>)"
proof -
  let ?m2 = "snd (random (\<lambda>_. 1 / 2) (snd (random (\<lambda>_. 1 / 2) m)))"
  have free: "cellIsZero (worldMap (state m)) 36 15 = Some True"
    using a by (simp add: arena_def)
  have dist: "sqrt ((15 - p_x (player (state m)))\<^sup>2 + (36 - p_y (player (state m)))\<^sup>2) = 21"
    using a px sqrt_square_line [of 15 36 36] by (simp add: arena_def)
  have valid: "minionPositionValid ?m2 15 36 = Some True"
    using a free dist by (simp add: minionPositionValid_def Let_def arena_def)
  have ang: "(1 / 2 :: real) * pi * 2 = pi" by simp
  have kind: "\<And>m'. minionKind (\<lambda>_. 1 / 2) BossCyberdemon m' =
                ((Captain, 55), m'\<lparr>randomCalls := Suc (randomCalls m')\<rparr>)"
    by (simp add: minionKind_def random_def Let_def)
  have sx: "e_x (newBoss 1 20 36 5) + cos pi * (3 + 1 / 2 * 4) = 15"
    and sy: "e_y (newBoss 1 20 36 5) + sin pi * (3 + 1 / 2 * 4) = 36"
    by (simp_all add: boss_fields)
  show ?thesis
    apply (simp only: minionAttempts.simps)
    apply (simp only: Let_def split_beta random_simps ang sx sy valid option.case bool.case
                      kind fst_conv snd_conv)
    apply (simp add: random_def en ne boss_fields kind)
    done
qed

lemma spawn_call:
  assumes a: "arena m" and en: "enemies (state m) = [newBoss 1 20 36 5]"
    and px: "p_x (player (state m)) = 36" and ne: "nextEnemyId (state m) = 1"
  shows "updateEnemies (\<lambda>_ _ _. 100) (\<lambda>_. 1 / 2) m =
           Some (m\<lparr>randomCalls := randomCalls m + 4,
                   state := (state m)
                     \<lparr>nextEnemyId := 2,
                      enemies := [spawnedBoss,
                                  newMinion 1 15 36 Captain 55 (player (state m))]\<rparr>,
                   notifications := Suc (notifications m)\<rparr>)"
proof -
  let ?b = "newBoss 1 20 36 5"
  let ?rnd = "\<lambda>_::nat. 1 / 2 :: real"
  let ?ray = "\<lambda>(_::real) (_::real) (_::real). 100 :: real"
  let ?b1 = "?b\<lparr>spawnsRemaining := 4, spawnCooldown := 210\<rparr>"
  let ?m5 = "m\<lparr>randomCalls := randomCalls m + 4,
               state := (state m)
                 \<lparr>nextEnemyId := 2,
                  enemies := [?b, newMinion 1 15 36 Captain 55 (player (state m))]\<rparr>\<rparr>"
  have py: "p_y (player (state m)) = 36" using a by (simp add: arena_def)
  have tick: "tickTimers ?b = ?b" by (simp add: tickTimers_def boss_fields Let_def)
  have d: "sqrt ((e_x ?b - p_x (player (state m)))\<^sup>2 + (e_y ?b - p_y (player (state m)))\<^sup>2) = 16"
    using sqrt_square_line [of 20 36 36] by (simp add: boss_fields px py)
  have phase: "checkBossPhaseTransition ?b = ?b"
    by (simp add: checkBossPhaseTransition_def boss_fields)
  have n20: "(20::nat) = Suc 19" by simp
  have ub: "updateBoss ?rnd 16 (?b, m) = Some (?b1, ?m5)"
  proof -
    have "updateBoss ?rnd 16 (?b, m) = spawnBossMinion ?rnd (?b, m)"
      using phase by (simp add: updateBoss_def Let_def boss_fields)
    also have "\<dots> = minionAttempts ?rnd (Suc 19) (?b, m)"
      by (simp only: spawnBossMinion_def n20 [symmetric]) (simp add: boss_fields)
    also have "\<dots> = Some (?b1, ?m5)" by (rule first_minion [OF a en px ne])
    finally show ?thesis .
  qed
  have step: "enemyStateStep ?rnd 16 True (?b1, ?m5) =
                Some (?b1\<lparr>e_state := Chasing, lastPlayerX := 36, lastPlayerY := 36\<rparr>, ?m5)"
    by (simp add: enemyStateStep_def Let_def boss_fields detectionRangeOf_def px py)
  have sb: "?b1\<lparr>e_state := Chasing, lastPlayerX := 36, lastPlayerY := 36\<rparr> = spawnedBoss"
    by (simp add: spawnedBoss_def boss_fields)
  have c: "((16::real) < 100) = True" by simp
  have ue: "updateEnemy ?ray ?rnd 0 m =
              Some (?m5\<lparr>state := (state ?m5)\<lparr>enemies := (enemies (state ?m5))[0 := spawnedBoss]\<rparr>\<rparr>)"
    unfolding updateEnemy_def Let_def
    apply (simp only: en nth_Cons_0 tick d ub option.case prod.case)
    apply (simp only: c step [unfolded sb] option.case prod.case)
    apply (simp add: spawnedBoss_def boss_fields)
    done
  have "gameStatus (state m) = Playing" and "\<not> isPaused (state m)"
    using a by (simp_all add: arena_def)
  then show ?thesis
    by (simp add: updateEnemies_def en ue notifyListeners_def)
qed

lemma spawnEnemyDrops_frame:
  "gameStatus (state (spawnEnemyDrops rnd x y ty m)) = gameStatus (state m)"
  "isPaused (state (spawnEnemyDrops rnd x y ty m)) = isPaused (state m)"
  "worldSize (state (spawnEnemyDrops rnd x y ty m)) = worldSize (state m)"
  "worldMap (state (spawnEnemyDrops rnd x y ty m)) = worldMap (state m)"
  "nextEnemyId (state (spawnEnemyDrops rnd x y ty m)) = nextEnemyId (state m)"
  by (simp_all add: spawnEnemyDrops_def Let_def split_beta)

lemma damageEnemy_frame:
  "gameStatus (state (fst (damageEnemy rnd i d m))) = gameStatus (state m)"
  "isPaused (state (fst (damageEnemy rnd i d m))) = isPaused (state m)"
  "worldSize (state (fst (damageEnemy rnd i d m))) = worldSize (state m)"
  "worldMap (state (fst (damageEnemy rnd i d m))) = worldMap (state m)"
  "nextEnemyId (state (fst (damageEnemy rnd i d m))) = nextEnemyId (state m)"
  by (simp_all add: damageEnemy_def Let_def notifyListeners_def spawnEnemyDrops_frame
               split: option.splits)

lemma minionManager_props:
  "reachable minionManager"
  "arena minionManager"
  "enemies (state minionManager) = [spawnedBoss, firstMinion]"
  "p_x (player (state minionManager)) = 36"
  "p_health (player (state minionManager)) = 100"
  "nextEnemyId (state minionManager) = 2"
proof -
  note b = bossFloorManager_props
  let ?m = bossFloorManager
  from spawn_call [OF b(2,3,4,6)] have
    eq: "updateEnemies (\<lambda>_ _ _. 100) (\<lambda>_. 1 / 2) ?m =
           Some (?m\<lparr>randomCalls := randomCalls ?m + 4,
                   state := (state ?m)
                     \<lparr>nextEnemyId := 2,
                      enemies := [spawnedBoss, firstMinion]\<rparr>,
                   notifications := Suc (notifications ?m)\<rparr>)"
    by (simp add: firstMinion_def)
  from do_updateEnemies [OF b(1) rnd01_half eq] eq
  show "reachable minionManager" by (simp add: minionManager_def)
  have s: "state minionManager =
             (state ?m)\<lparr>nextEnemyId := 2, enemies := [spawnedBoss, firstMinion]\<rparr>"
    using eq by (simp add: minionManager_def)
  show "arena minionManager" using b(2) by (simp add: arena_def s)
  show "enemies (state minionManager) = [spawnedBoss, firstMinion]" by (simp add: s)
  show "p_x (player (state minionManager)) = 36" using b(4) by (simp add: s)
  show "p_health (player (state minionManager)) = 100" using b(5) by (simp add: s)
  show "nextEnemyId (state minionManager) = 2" by (simp add: s)
qed

lemma shared_id: "e_id spawnedBoss = 1" "e_id firstMinion = 1"
  "e_health spawnedBoss = 325" "e_health firstMinion = 55"
  by (simp_all add: spawnedBoss_def firstMinion_def newMinion_def boss_fields)

lemma huntedManager_props:
  "reachable huntedManager"
  "arena huntedManager"
  "enemies (state huntedManager) = [firstMinion]"
  "p_x (player (state huntedManager)) = 36"
  "p_health (player (state huntedManager)) = 100"
proof -
  note mm = minionManager_props
  show "reachable huntedManager"
    unfolding huntedManager_def by (rule do_damageEnemy [OF mm(1) rnd01_half])
  have f: "findIndex (\<lambda>e. e_id e = 1) (enemies (state minionManager)) = Some 0"
    by (simp add: mm(3) shared_id)
  from damageEnemy_hit(2) [OF f rnd01_half, of 325]
  show "enemies (state huntedManager) = [firstMinion]"
    by (simp add: huntedManager_def mm(3) shared_id splice1_def)
  from damageEnemy_hit(3) [OF f rnd01_half, of 325]
  have p: "player (state huntedManager) = player (state minionManager)"
    by (simp add: huntedManager_def)
  show "p_x (player (state huntedManager)) = 36" using mm(4) by (simp add: p)
  show "p_health (player (state huntedManager)) = 100" using mm(5) by (simp add: p)
  show "arena huntedManager"
    using mm(2) by (simp add: arena_def huntedManager_def damageEnemy_frame p [unfolded huntedManager_def])
qed




subsection \<open>The walk to the minion and its attacks\<close>

lemma walk_step:
  assumes a: "arena m" and x: "15 < p_x (player (state m))" "p_x (player (state m)) \<le> 36"
  shows "updatePlayer backwardInput m =
           Some (notifyListeners
                   (m\<lparr>state := (state m)\<lparr>player :=
                        (player (state m))\<lparr>p_angle := 0, p_x := p_x (player (state m)) - 0.15,
                                           p_y := 36\<rparr>\<rparr>\<rparr>))"
proof -
  let ?nx = "p_x (player (state m)) - 0.15"
  have "14 < ?nx" "?nx < 36" using x by simp_all
  then have fl: "0 < \<lfloor>?nx\<rfloor>" "\<lfloor>?nx\<rfloor> < 71" by linarith+
  from a have free: "cellIsZero (worldMap (state m)) 36 \<lfloor>?nx\<rfloor> = Some True"
    using fl by (simp add: arena_def)
  from a have py: "p_y (player (state m)) = 36" and an: "p_angle (player (state m)) = 0"
    and st: "gameStatus (state m) = Playing" "\<not> isPaused (state m)"
    by (simp_all add: arena_def)
  show ?thesis
    using st py an free by (simp add: updatePlayer_def backwardInput_def Let_def)
qed

lemma walk_props:
  "n \<le> 140 \<Longrightarrow>
   reachable (walkManager n) \<and> arena (walkManager n) \<and>
   enemies (state (walkManager n)) = [firstMinion] \<and>
   p_x (player (state (walkManager n))) = 36 - 0.15 * real n \<and>
   p_health (player (state (walkManager n))) = 100"
proof (induction n)
  case 0
  show ?case using huntedManager_props by simp
next
  case (Suc n)
  let ?m = "walkManager n"
  from Suc have r: "reachable ?m" and a: "arena ?m" and en: "enemies (state ?m) = [firstMinion]"
    and px: "p_x (player (state ?m)) = 36 - 0.15 * real n"
    and h: "p_health (player (state ?m)) = 100" by simp_all
  from Suc.prems have "real n < 140" by simp
  then have x: "15 < p_x (player (state ?m))" "p_x (player (state ?m)) \<le> 36"
    using px by simp_all
  note step = walk_step [OF a x]
  from do_updatePlayer [OF r step] have r': "reachable (walkManager (Suc n))" by (simp add: step)
  have s: "state (walkManager (Suc n)) =
             (state ?m)\<lparr>player := (player (state ?m))
                \<lparr>p_angle := 0, p_x := p_x (player (state ?m)) - 0.15, p_y := 36\<rparr>\<rparr>"
    by (simp add: step notifyListeners_def)
  from a have a': "arena (walkManager (Suc n))" unfolding arena_def s by simp
  have "real (Suc n) = real n + 1" by simp
  then have px': "p_x (player (state (walkManager (Suc n)))) = 36 - 0.15 * real (Suc n)"
    unfolding s using px by (simp only: ring_distribs) simp
  have en': "enemies (state (walkManager (Suc n))) = [firstMinion]" unfolding s using en by simp
  have h': "p_health (player (state (walkManager (Suc n)))) = 100" unfolding s using h by simp
  from r' a' en' h' px' show ?case by blast
qed

lemma firstMinion_fields:
  "firstMinion =
     \<lparr>e_id = 1, e_x = 15, e_y = 36, e_health = 55, e_maxHealth = 55,
      e_state = Chasing, lastPlayerX = 36, lastPlayerY = 36,
      attackCooldown = 0, patrolTarget = None,
      enemyType = Captain, explorationCooldown = 0,
      explorationDirection = None, isBoss = False,
      spawnCooldown = 0, spawnsRemaining = 0,
      phaseTransitions = [], currentPhase = 0,
      isHurt = False, hurtTimer = 0\<rparr>"
  using bossFloorManager_props(2,4) by (simp add: firstMinion_def newMinion_def arena_def)

lemma attacker_fields:
  "attacker k =
     \<lparr>e_id = 1, e_x = 15, e_y = 36, e_health = 55, e_maxHealth = 55,
      e_state = Attacking, lastPlayerX = 15, lastPlayerY = 36,
      attackCooldown = k, patrolTarget = None,
      enemyType = Captain, explorationCooldown = 0,
      explorationDirection = None, isBoss = False,
      spawnCooldown = 0, spawnsRemaining = 0,
      phaseTransitions = [], currentPhase = 0,
      isHurt = False, hurtTimer = 0\<rparr>"
  by (simp add: attacker_def firstMinion_fields)

lemma engage_call:
  assumes a: "arena m" and en: "enemies (state m) = [firstMinion]"
    and px: "p_x (player (state m)) = 15"
  shows "updateEnemies (\<lambda>_ _ _. 100) rnd m =
           Some (m\<lparr>state := (state m)\<lparr>enemies := [attacker 0]\<rparr>,
                   notifications := Suc (notifications m)\<rparr>)"
proof -
  let ?c = firstMinion
  let ?ray = "\<lambda>(_::real) (_::real) (_::real). 100 :: real"
  have py: "p_y (player (state m)) = 36" using a by (simp add: arena_def)
  have tick: "tickTimers ?c = ?c" by (simp add: tickTimers_def firstMinion_fields Let_def)
  have d: "sqrt ((e_x ?c - p_x (player (state m)))\<^sup>2 + (e_y ?c - p_y (player (state m)))\<^sup>2) = 0"
    by (simp add: firstMinion_fields px py)
  have ub: "updateBoss rnd 0 (?c, m) = Some (?c, m)"
    by (simp add: updateBoss_def firstMinion_fields)
  have c: "((0::real) < 100) = True" by simp
  have step: "enemyStateStep rnd 0 True (?c, m) = Some (attacker 0, m)"
    by (simp add: enemyStateStep_def Let_def firstMinion_fields attacker_fields px py)
  have ue: "updateEnemy ?ray rnd 0 m =
              Some (m\<lparr>state := (state m)\<lparr>enemies := [attacker 0]\<rparr>\<rparr>)"
    unfolding updateEnemy_def Let_def
    apply (simp only: en nth_Cons_0 tick d ub option.case prod.case)
    apply (simp only: c step option.case prod.case)
    apply (simp add: attacker_fields en)
    done
  have "gameStatus (state m) = Playing" and "\<not> isPaused (state m)"
    using a by (simp_all add: arena_def)
  then show ?thesis
    by (simp add: updateEnemies_def en ue notifyListeners_def)
qed

lemma siege_call:
  assumes a: "arena m" and en: "enemies (state m) = [attacker k]"
    and px: "p_x (player (state m)) = 15" and k: "0 \<le> k"
  shows "updateEnemies (\<lambda>_ _ _. 100) rnd m =
           Some (if k \<le> 1
                 then m\<lparr>state := (state m)
                          \<lparr>player := (player (state m))
                             \<lparr>p_health := p_health (player (state m)) - 15\<rparr>,
                           enemies := [attacker 45]\<rparr>,
                        notifications := Suc (notifications m)\<rparr>
                 else m\<lparr>state := (state m)\<lparr>enemies := [attacker (k - 1)]\<rparr>,
                        notifications := Suc (notifications m)\<rparr>)"
proof -
  let ?c = "attacker k"
  let ?k1 = "if k > 0 then k - 1 else k"
  let ?ray = "\<lambda>(_::real) (_::real) (_::real). 100 :: real"
  have py: "p_y (player (state m)) = 36" using a by (simp add: arena_def)
  have tick: "tickTimers ?c = attacker ?k1"
    by (simp add: tickTimers_def attacker_fields Let_def)
  have d: "sqrt ((e_x ?c - p_x (player (state m)))\<^sup>2 + (e_y ?c - p_y (player (state m)))\<^sup>2) = 0"
    by (simp add: attacker_fields px py)
  have ub: "updateBoss rnd 0 (attacker ?k1, m) = Some (attacker ?k1, m)"
    by (simp add: updateBoss_def attacker_fields)
  have c: "((0::real) < 100) = True" by simp
  have st: "gameStatus (state m) = Playing" "\<not> isPaused (state m)"
    using a by (simp_all add: arena_def)
  show ?thesis
  proof (cases "k \<le> 1")
    case True
    with k have k1: "?k1 = 0" by auto
    have step: "enemyStateStep rnd 0 True (attacker 0, m) =
                  Some (attacker 45,
                        m\<lparr>state := (state m)\<lparr>player :=
                             (player (state m))\<lparr>p_health := p_health (player (state m)) - 15\<rparr>\<rparr>\<rparr>)"
      by (simp add: enemyStateStep_def Let_def attacker_fields attackDamage_def)
    have ue: "updateEnemy ?ray rnd 0 m =
              Some (m\<lparr>state := (state m)
                      \<lparr>player := (player (state m))\<lparr>p_health := p_health (player (state m)) - 15\<rparr>,
                       enemies := [attacker 45]\<rparr>\<rparr>)"
      unfolding updateEnemy_def Let_def
      apply (simp only: en nth_Cons_0 tick k1 d ub [unfolded k1] option.case prod.case)
      apply (simp only: c step option.case prod.case)
      apply (simp add: attacker_fields en)
      done
    with True st show ?thesis by (simp add: updateEnemies_def en notifyListeners_def)
  next
    case False
    then have k1: "?k1 = k - 1" and pos: "k - 1 \<noteq> 0" by auto
    have step: "enemyStateStep rnd 0 True (attacker (k - 1), m) = Some (attacker (k - 1), m)"
      using pos by (simp add: enemyStateStep_def Let_def attacker_fields)
    have ue: "updateEnemy ?ray rnd 0 m =
              Some (m\<lparr>state := (state m)\<lparr>enemies := [attacker (k - 1)]\<rparr>\<rparr>)"
      unfolding updateEnemy_def Let_def
      apply (simp only: en nth_Cons_0 tick k1 d ub [unfolded k1] option.case prod.case)
      apply (simp only: c step option.case prod.case)
      apply (simp add: attacker_fields en)
      done
    with False st show ?thesis by (simp add: updateEnemies_def en notifyListeners_def)
  qed
qed

lemma siege_props:
  "reachable (siegeManager n) \<and> arena (siegeManager n) \<and>
   p_x (player (state (siegeManager n))) = 15 \<and>
   enemies (state (siegeManager n)) = [attacker (fst (siegeState n))] \<and>
   p_health (player (state (siegeManager n))) = snd (siegeState n) \<and>
   0 \<le> fst (siegeState n)"
proof (induction n)
  case 0
  let ?m = "walkManager 140"
  from walk_props [of 140] have r: "reachable ?m" and a: "arena ?m"
    and en: "enemies (state ?m) = [firstMinion]"
    and px: "p_x (player (state ?m)) = 15" and h: "p_health (player (state ?m)) = 100"
    by simp_all
  note call = engage_call [OF a en px, of "\<lambda>_. 1 / 2"]
  from do_updateEnemies [OF r rnd01_half call] have r': "reachable (siegeManager 0)"
    by (simp add: call)
  have s: "state (siegeManager 0) = (state ?m)\<lparr>enemies := [attacker 0]\<rparr>"
    by (simp add: call)
  have a': "arena (siegeManager 0)" using a unfolding arena_def s by simp
  have "p_x (player (state (siegeManager 0))) = 15"
    and "enemies (state (siegeManager 0)) = [attacker (fst (siegeState 0))]"
    and "p_health (player (state (siegeManager 0))) = snd (siegeState 0)"
    unfolding s using px h by simp_all
  with r' a' show ?case by simp
next
  case (Suc n)
  let ?m = "siegeManager n"
  obtain k h where kh: "siegeState n = (k, h)" by (cases "siegeState n")
  from Suc kh have r: "reachable ?m" and a: "arena ?m"
    and px: "p_x (player (state ?m)) = 15" and en: "enemies (state ?m) = [attacker k]"
    and hp: "p_health (player (state ?m)) = h" and k0: "0 \<le> k" by simp_all
  note call = siege_call [OF a en px k0, of "\<lambda>_. 1 / 2"]
  from do_updateEnemies [OF r rnd01_half call] have r': "reachable (siegeManager (Suc n))"
    by (simp add: call)
  have s: "state (siegeManager (Suc n)) =
             (if k \<le> 1
              then (state ?m)\<lparr>player := (player (state ?m))\<lparr>p_health := h - 15\<rparr>,
                               enemies := [attacker 45]\<rparr>
              else (state ?m)\<lparr>enemies := [attacker (k - 1)]\<rparr>)"
    using hp by (simp add: call)
  have a': "arena (siegeManager (Suc n))" using a unfolding arena_def s by simp
  have "p_x (player (state (siegeManager (Suc n)))) = 15"
    and "enemies (state (siegeManager (Suc n))) = [attacker (fst (siegeState (Suc n)))]"
    and "p_health (player (state (siegeManager (Suc n)))) = snd (siegeState (Suc n))"
    and "0 \<le> fst (siegeState (Suc n))"
    unfolding s using px hp kh k0 by (simp_all add: Let_def)
  with r' a' show ?case by blast
qed

lemma siegeState_values: "siegeState 270 = (1, 10)" "siegeState 271 = (45, - 5)"
  by code_simp+

subsection \<open>The pause indicators\<close>

lemma pauseFlags_simps [simp]:
  "pauseFlags (m\<lparr>randomCalls := k\<rparr>) = pauseFlags m"
  "pauseFlags (m\<lparr>notifications := j\<rparr>) = pauseFlags m"
  "pauseFlags (snd (random rnd m)) = pauseFlags m"
  "pauseFlags (m\<lparr>state := (state m)\<lparr>enemies := es\<rparr>\<rparr>) = pauseFlags m"
  "pauseFlags (m\<lparr>state := (state m)\<lparr>player := p\<rparr>\<rparr>) = pauseFlags m"
  "pauseFlags (m\<lparr>state := (state m)\<lparr>nextEnemyId := i, enemies := es\<rparr>\<rparr>) = pauseFlags m"
  by (simp_all add: pauseFlags_def)

lemma pauseFlags_state: "state m' = state m \<Longrightarrow> pauseFlags m' = pauseFlags m"
  by (simp add: pauseFlags_def)

lemma pauseFlags_minionAttempts:
  "minionAttempts rnd n (b, m) = Some (b', m') \<Longrightarrow> pauseFlags m' = pauseFlags m"
proof (induction n arbitrary: m)
  case 0
  then show ?case by simp
next
  case (Suc n)
  let ?m2 = "snd (random rnd (snd (random rnd m)))"
  let ?x = "e_x b + cos (fst (random rnd (snd (random rnd m))) * pi * 2) * (3 + fst (random rnd m) * 4)"
  let ?y = "e_y b + sin (fst (random rnd (snd (random rnd m))) * pi * 2) * (3 + fst (random rnd m) * 4)"
  from Suc.prems obtain ok where ok: "minionPositionValid ?m2 ?x ?y = Some ok"
    by (auto simp: Let_def split_beta split: option.splits)
  show ?case
  proof (cases ok)
    case False
    with ok Suc.prems have "minionAttempts rnd n (b, ?m2) = Some (b', m')"
      by (simp add: Let_def split_beta)
    from Suc.IH [OF this] show ?thesis by simp
  next
    case True
    with ok Suc.prems show ?thesis
      by (auto simp: Let_def split_beta pauseFlags_def minionKind_props)
  qed
qed

lemma pauseFlags_updateBoss:
  assumes "updateBoss rnd d (e, m) = Some (e', m')"
  shows "pauseFlags m' = pauseFlags m"
proof (cases "isBoss e")
  case False
  with assms show ?thesis by (simp add: updateBoss_def)
next
  case True
  define e2 where "e2 = checkBossPhaseTransition
     (if spawnCooldown e > 0 then e\<lparr>spawnCooldown := spawnCooldown e - 1\<rparr> else e)"
  from assms True have alt:
    "(if spawnsRemaining e2 > 0 \<and> spawnCooldown e2 \<le> 0 \<and> d < 20 \<and> d > 8
      then spawnBossMinion rnd (e2, m) else Some (e2, m)) = Some (e', m')"
    unfolding updateBoss_def Let_def e2_def by (simp only: prod.case if_True)
  show ?thesis
  proof (cases "spawnsRemaining e2 > 0 \<and> spawnCooldown e2 \<le> 0 \<and> d < 20 \<and> d > 8")
    case True
    with alt have "spawnBossMinion rnd (e2, m) = Some (e', m')" by simp
    then show ?thesis
      using pauseFlags_minionAttempts [of rnd 20 e2 m e' m']
      by (auto simp: spawnBossMinion_def split: if_splits)
  next
    case False
    with alt show ?thesis by simp
  qed
qed

lemma pauseFlags_enemyStateStep:
  assumes "enemyStateStep rnd d c (e, m) = Some (e', m')"
  shows "pauseFlags m' = pauseFlags m"
proof (cases "e_state e")
  case Idle
  with assms show ?thesis
    by (auto simp: enemyStateStep_def Let_def split_beta split: if_splits
             dest!: startEnemyExploration_props intro: pauseFlags_state)
next
  case Patrolling
  with assms show ?thesis
    by (auto simp: enemyStateStep_def Let_def split_beta split: if_splits option.splits
             dest!: startEnemyExploration_props intro: pauseFlags_state)
next
  case Chasing
  with assms show ?thesis
    by (auto simp: enemyStateStep_def Let_def split_beta split: if_splits option.splits)
next
  case Attacking
  with assms show ?thesis
    by (auto simp: enemyStateStep_def Let_def split: if_splits)
next
  case Spawning
  with assms show ?thesis by (simp add: enemyStateStep_def Let_def)
qed

lemma pauseFlags_updateEnemy:
  assumes eq: "updateEnemy castRayFunction rnd i m = Some m'"
  shows "pauseFlags m' = pauseFlags m"
proof -
  let ?e = "enemies (state m) ! i"
  let ?d = "sqrt ((e_x ?e - p_x (player (state m)))\<^sup>2 + (e_y ?e - p_y (player (state m)))\<^sup>2)"
  from eq obtain e1 m1 where b: "updateBoss rnd ?d (tickTimers ?e, m) = Some (e1, m1)"
    by (auto simp: updateEnemy_def Let_def split: option.splits)
  let ?c = "castRayFunction (e_x e1) (e_y e1)
              (atan2 (p_y (player (state m)) - e_y e1) (p_x (player (state m)) - e_x e1)) > ?d"
  from eq b obtain e2 m2 where s: "enemyStateStep rnd ?d ?c (e1, m1) = Some (e2, m2)"
    by (auto simp: updateEnemy_def Let_def split: option.splits)
  let ?go = "explorationDirection e2 \<noteq> None \<and> (e_state e2 = Idle \<or> e_state e2 = Patrolling)"
  from eq b s obtain e3 m3 where
    x: "(if ?go then continueEnemyExploration rnd (moveSpeedOf e2) (e2, m2) else Some (e2, m2))
          = Some (e3, m3)"
    and m': "m' = m3\<lparr>state := (state m3)\<lparr>enemies := (enemies (state m3))[i := e3]\<rparr>\<rparr>"
    by (auto simp: updateEnemy_def Let_def simp del: not_None_eq
             split: option.splits prod.splits split del: if_split)
  have "state m3 = state m2"
  proof (cases ?go)
    case True
    with x have "continueEnemyExploration rnd (moveSpeedOf e2) (e2, m2) = Some (e3, m3)" by simp
    from continueEnemyExploration_props [OF this] show ?thesis by simp
  next
    case False
    with x show ?thesis by (auto split: if_splits)
  qed
  then have "pauseFlags m3 = pauseFlags m2" by (rule pauseFlags_state)
  with pauseFlags_updateBoss [OF b] pauseFlags_enemyStateStep [OF s]
  show ?thesis unfolding m' by simp
qed

lemma pauseFlags_enemyLoop:
  "enemyLoop castRayFunction rnd is m = Some m' \<Longrightarrow> pauseFlags m' = pauseFlags m"
proof (induction "is" arbitrary: m)
  case Nil
  then show ?case by simp
next
  case (Cons i rest)
  from Cons.prems obtain m1 where
    u: "updateEnemy castRayFunction rnd i m = Some m1"
    and l: "enemyLoop castRayFunction rnd rest m1 = Some m'"
    by (auto split: option.splits)
  from Cons.IH [OF l] pauseFlags_updateEnemy [OF u] show ?case by simp
qed

lemma pauseFlags_updateEnemies:
  "updateEnemies castRayFunction rnd m = Some m' \<Longrightarrow> pauseFlags m' = pauseFlags m"
  by (auto simp: updateEnemies_def notifyListeners_def split: if_splits
           dest!: pauseFlags_enemyLoop)

lemma pausedInv_fixedUpdate: "pausedInv m \<Longrightarrow> pausedInv (fixedUpdate m)"
proof -
  assume p: "pausedInv m"
  have a: "\<And>m. pauseFlags (updatePlayerAttackState m) = pauseFlags m"
    by (simp add: updatePlayerAttackState_def Let_def pauseFlags_def)
  have c: "\<And>pk m. pauseFlags (collectPickup pk m) = pauseFlags m"
    using state_collectPickup by (metis pauseFlags_simps(5))
  have b: "\<And>i m. pauseFlags (pickupSweep i m) = pauseFlags m"
  proof -
    fix i m show "pauseFlags (pickupSweep i m) = pauseFlags m"
    proof (induction i arbitrary: m)
      case 0
      show ?case by simp
    next
      case (Suc i)
      show ?case using c by (simp add: Suc.IH Let_def) (simp add: pauseFlags_def)
    qed
  qed
  have "pauseFlags (updatePickupCollection (updatePlayerAttackState m)) = pauseFlags m"
    by (simp add: updatePickupCollection_def a b)
  then have "gameStatus (state m) = Playing \<Longrightarrow>
             gameStatus (state (updateGameStatus (updatePickupCollection (updatePlayerAttackState m))))
               \<noteq> Paused"
    by (auto simp: updateGameStatus_def pauseFlags_def)
  with p show ?thesis by (auto simp: fixedUpdate_def pausedInv_def)
qed

lemma pauseFlags_initializeEnemiesAfterState:
  assumes "rnd01 rnd" and "initializeEnemiesAfterState rnd m = Some m'"
  shows "pauseFlags m' = pauseFlags m"
proof -
  from assms(2) obtain es m1 where
    g: "generateRandomEnemies rnd (worldMap (state m)) (worldSize (state m)) m = Some (es, m1)"
    and m': "m' = m1\<lparr>state := (state m1)\<lparr>enemies := es\<rparr>\<rparr>"
    by (auto simp: initializeEnemiesAfterState_def)
  from generateRandomEnemies_props [OF assms(1) g] obtain k i where
    "m1 = m\<lparr>randomCalls := k, state := (state m)\<lparr>nextEnemyId := i\<rparr>\<rparr>" by blast
  then show ?thesis unfolding m' by (simp add: pauseFlags_def)
qed

lemma pausedInv_updateWithDeltaTime:
  assumes "pausedInv m" and "updateWithDeltaTime rnd t m = Some (m', n)" and "rnd01 rnd"
  shows "pausedInv m'"
proof -
  consider (paused) "isPaused (state m)"
    | (first) "\<not> isPaused (state m)" "lastUpdateTime (state m) = 0"
    | (run) "\<not> isPaused (state m)" "lastUpdateTime (state m) \<noteq> 0" by blast
  then show ?thesis
  proof cases
    case paused
    with assms show ?thesis by (auto simp: updateWithDeltaTime_def pausedInv_def)
  next
    case first
    let ?m0 = "m\<lparr>state := (state m)\<lparr>lastUpdateTime := t\<rparr>\<rparr>"
    have "pauseFlags m' = pauseFlags ?m0"
    proof (cases "enemies (state m) = []")
      case True
      with first assms(2) have "initializeEnemiesAfterState rnd ?m0 = Some m'"
        by (auto simp: updateWithDeltaTime_def Let_def)
      from pauseFlags_initializeEnemiesAfterState [OF assms(3) this] show ?thesis .
    next
      case False
      with first assms(2) show ?thesis by (auto simp: updateWithDeltaTime_def Let_def)
    qed
    with assms(1) show ?thesis by (simp add: pausedInv_def pauseFlags_def)
  next
    case run
    let ?m1 = "m\<lparr>state := (state m)
                 \<lparr>lastUpdateTime := t,
                  accumulator := roundDouble (accumulator (state m) +
                                   roundDouble (t - lastUpdateTime (state m)))\<rparr>\<rparr>"
    from run assms(2) obtain r where r: "fixedSteps ?m1 0 = Some r"
      and m': "m' = notifyListeners (fst r)"
      by (auto simp: updateWithDeltaTime_def Let_def split: option.splits)
    have "pausedInv ?m1" using assms(1) by (simp add: pausedInv_def)
    from fixedSteps_inv [where P = pausedInv, OF pausedInv_fixedUpdate _ r this]
    have "pausedInv (fst r)" by (simp add: pausedInv_def)
    then show ?thesis by (simp add: m' pausedInv_def notifyListeners_def)
  qed
qed

lemma reachable_pausedInv: "reachable m \<Longrightarrow> pausedInv m"
proof (induction rule: reachable.induct)
  case (construct rnd "structure" k m)
  then show ?case
    by (auto simp: newGameStateManager_def createInitialState_def Let_def pausedInv_def
             split: option.splits)
next
  case (do_pause m)
  then show ?case by (simp add: pause_def pausedInv_def notifyListeners_def)
next
  case (do_resume m)
  then show ?case by (simp add: resume_def pausedInv_def notifyListeners_def)
next
  case (do_togglePause m)
  then show ?case
    by (simp add: togglePause_def pause_def resume_def pausedInv_def notifyListeners_def)
next
  case (do_switchWeapon m w)
  then show ?case by (simp add: switchWeapon_def pausedInv_def notifyListeners_def)
next
  case (do_shoot m)
  then show ?case by (simp add: shoot_def Let_def pausedInv_def notifyListeners_def)
next
  case (do_updateWithDeltaTime m rnd t m' n)
  then show ?case using pausedInv_updateWithDeltaTime by blast
next
  case (do_updatePlayer m input m')
  from updatePlayer_shape [OF do_updatePlayer.hyps(2)] do_updatePlayer.IH
  show ?case by (auto simp: pausedInv_def notifyListeners_def)
next
  case (do_updateMouseLook m deltaX)
  then show ?case by (simp add: updateMouseLook_def pausedInv_def notifyListeners_def)
next
  case (do_updateEnemies m rnd castRayFunction m')
  from pauseFlags_updateEnemies [OF do_updateEnemies.hyps(3)] do_updateEnemies.IH
  show ?case by (simp add: pausedInv_def pauseFlags_def)
next
  case (do_damageEnemy m rnd enemyId dmg)
  then show ?case by (simp add: pausedInv_def damageEnemy_frame)
next
  case (do_progressToNextFloor m rnd "structure" m')
  show ?case
  proof (cases "enemies (state m) = [] \<or> (isBossFloor (state m) \<and> bossDefeated (state m))")
    case False
    with do_progressToNextFloor.hyps(3) have "m' = m" by (auto simp: progressToNextFloor_def)
    with do_progressToNextFloor.IH show ?thesis by simp
  next
    case True
    from reachable_stateInv [OF do_progressToNextFloor.hyps(1)]
    have fl: "0 \<le> currentFloor (state m)" by (simp add: stateInv_def)
    from progressToNextFloor_advances [OF do_progressToNextFloor.hyps(2) fl True, of "structure"]
         do_progressToNextFloor.hyps(3)
    have "gameStatus (state m') = Playing" by auto
    then show ?thesis by (simp add: pausedInv_def)
  qed
next
  case (do_checkFloorProgression m)
  then show ?case by (simp add: checkFloorProgression_def Let_def pausedInv_def)
next
  case (do_reset m rnd "structure" m')
  then show ?case
    by (auto simp: reset_def createInitialState_def Let_def pausedInv_def notifyListeners_def
             split: option.splits)
qed

section \<open>Weapon switching\<close>

text \<open>
  Claim C9. For every weapon \<open>w\<close>: when \<open>w\<close> is not in \<open>player.availableWeapons\<close>,
  \<open>switchWeapon(w)\<close> returns false and leaves the whole manager, in particular
  \<open>player.weapon\<close>, as it was; when \<open>w\<close> is available it returns true and
  \<open>player.weapon\<close> is \<open>w\<close> afterwards.
\<close>

theorem switchWeapon_guard:
  "(w \<notin> availableWeapons (player (state m)) \<longrightarrow> switchWeapon w m = (m, False)) \<and>
   (w \<in> availableWeapons (player (state m)) \<longrightarrow>
      snd (switchWeapon w m) = True \<and>
      weapon (player (state (fst (switchWeapon w m)))) = w)"
  by (simp add: switchWeapon_def notifyListeners_def)

theorem switchWeapon_guard_witness:
  "switchWeapon Shotgun firstManager = (firstManager, False) \<and>
   snd (switchWeapon Pistol firstManager) = True \<and>
   weapon (player (state (fst (switchWeapon Pistol firstManager)))) = Pistol"
  using switchWeapon_guard [of Shotgun firstManager] switchWeapon_guard [of Pistol firstManager]
  by (simp add: firstManager_state initialPlayer_def)

section \<open>Damage to an unknown enemy\<close>

text \<open>
  Claim C10. For every id that no enemy of the live set carries and every damage value,
  \<open>damageEnemy(id, damage)\<close> returns false and leaves the whole manager as it was:
  no enemy changes, no pickup is spawned, no random number is drawn and no listener is
  notified.
\<close>

theorem damageEnemy_unknown_id:
  "enemyId \<notin> e_id ` set (enemies (state m)) \<Longrightarrow> damageEnemy rnd enemyId dmg m = (m, False)"
proof -
  assume "enemyId \<notin> e_id ` set (enemies (state m))"
  then have "findIndex (\<lambda>e. e_id e = enemyId) (enemies (state m)) = None"
    by (auto simp: findIndex_None)
  then show ?thesis by (simp add: damageEnemy_def)
qed

theorem damageEnemy_unknown_id_witness:
  "damageEnemy (\<lambda>_. 1 / 2) 7 12 firstManager = (firstManager, False)"
proof -
  have "enemies (state firstManager) = []" by (rule firstManager_state)
  then have "7 \<notin> e_id ` set (enemies (state firstManager))" by simp
  from damageEnemy_unknown_id [OF this] show ?thesis .
qed


section \<open>The accumulator\<close>

text \<open>
  Claim C8, amended. The clock is computed in doubles. Let \<open>a\<close> be the accumulator and
  \<open>d\<close> the rounded difference \<open>currentTime - lastUpdateTime\<close>, and \<open>x\<close> the rounded
  sum \<open>a + d\<close>, the value the accumulator takes before the loop.

  When \<open>isPaused\<close> is false, the clock is initialised and \<open>x < 2 ^ 32\<close>, the call
  returns; the accumulator is then below \<open>FIXED_TIMESTEP\<close>. If \<open>x\<close> is below
  \<open>FIXED_TIMESTEP\<close> (so also if it is negative) no step runs and the accumulator is
  \<open>x\<close>. If \<open>x\<close> is not negative, the accumulator is not negative either, and with
  \<open>n\<close> the number of \<open>fixedUpdate\<close> calls it differs from \<open>x - n * FIXED_TIMESTEP\<close>
  by at most \<open>n / 2 ^ 22\<close>: every subtraction is rounded.

  When \<open>isPaused\<close> is true the call only stores the time stamp. In a reachable state
  \<open>gameStatus = paused\<close> implies \<open>isPaused\<close>, and from such a state \<open>resume\<close> sets the
  accumulator to \<open>0\<close>.
\<close>

theorem updateWithDeltaTime_accumulator:
  assumes "reachable m"
  shows "(\<not> isPaused (state m) \<and> lastUpdateTime (state m) \<noteq> 0 \<and>
          roundDouble (accumulator (state m) + roundDouble (t - lastUpdateTime (state m))) < 2 ^ 32
          \<longrightarrow> (\<exists>m' n. updateWithDeltaTime rnd t m = Some (m', n) \<and>
                 lastUpdateTime (state m') = t \<and>
                 accumulator (state m') < FIXED_TIMESTEP \<and>
                 (roundDouble (accumulator (state m) + roundDouble (t - lastUpdateTime (state m)))
                    < FIXED_TIMESTEP
                  \<longrightarrow> n = 0 \<and>
                      accumulator (state m') =
                        roundDouble (accumulator (state m) + roundDouble (t - lastUpdateTime (state m)))) \<and>
                 (0 \<le> roundDouble (accumulator (state m) + roundDouble (t - lastUpdateTime (state m)))
                  \<longrightarrow> 0 \<le> accumulator (state m') \<and>
                      \<bar>roundDouble (accumulator (state m) + roundDouble (t - lastUpdateTime (state m)))
                         - real n * FIXED_TIMESTEP - accumulator (state m')\<bar>
                        \<le> real n / 2 ^ 22))) \<and>
         (isPaused (state m) \<longrightarrow>
            updateWithDeltaTime rnd t m = Some (m\<lparr>state := (state m)\<lparr>lastUpdateTime := t\<rparr>\<rparr>, 0)) \<and>
         (gameStatus (state m) = Paused \<longrightarrow>
            isPaused (state m) \<and>
            accumulator (state (resume m)) = 0 \<and>
            gameStatus (state (resume m)) = Playing \<and> \<not> isPaused (state (resume m)))"
proof (intro conjI impI)
  let ?x = "roundDouble (accumulator (state m) + roundDouble (t - lastUpdateTime (state m)))"
  let ?m1 = "m\<lparr>state := (state m)\<lparr>lastUpdateTime := t, accumulator := ?x\<rparr>\<rparr>"
  assume h: "\<not> isPaused (state m) \<and> lastUpdateTime (state m) \<noteq> 0 \<and> ?x < 2 ^ 32"
  then have "accumulator (state ?m1) < 2 ^ 32" by simp
  from fixedSteps_returns [OF this, of 0] obtain m2 k where
    r: "fixedSteps ?m1 0 = Some (m2, k)"
    and fin: "accumulator (state m2) < FIXED_TIMESTEP"
    and lu: "lastUpdateTime (state m2) = t"
    and none: "?x < FIXED_TIMESTEP \<longrightarrow> m2 = ?m1 \<and> k = 0"
    and pos: "0 \<le> ?x \<longrightarrow> 0 \<le> accumulator (state m2) \<and>
              \<bar>?x - real k * FIXED_TIMESTEP - accumulator (state m2)\<bar> \<le> real k / 2 ^ 22"
    by auto
  have upd: "updateWithDeltaTime rnd t m = Some (notifyListeners m2, k)"
    using h r by (simp add: updateWithDeltaTime_def Let_def)
  have "?x < FIXED_TIMESTEP \<longrightarrow> k = 0 \<and> accumulator (state (notifyListeners m2)) = ?x"
    using none by (auto simp: notifyListeners_def)
  with upd fin lu pos
  show "\<exists>m' n. updateWithDeltaTime rnd t m = Some (m', n) \<and>
                 lastUpdateTime (state m') = t \<and>
                 accumulator (state m') < FIXED_TIMESTEP \<and>
                 (?x < FIXED_TIMESTEP \<longrightarrow> n = 0 \<and> accumulator (state m') = ?x) \<and>
                 (0 \<le> ?x \<longrightarrow> 0 \<le> accumulator (state m') \<and>
                      \<bar>?x - real n * FIXED_TIMESTEP - accumulator (state m')\<bar> \<le> real n / 2 ^ 22)"
    by (intro exI [of _ "notifyListeners m2"] exI [of _ k]) (simp add: notifyListeners_def)
next
  assume "isPaused (state m)"
  then show "updateWithDeltaTime rnd t m = Some (m\<lparr>state := (state m)\<lparr>lastUpdateTime := t\<rparr>\<rparr>, 0)"
    by (simp add: updateWithDeltaTime_def)
next
  assume p: "gameStatus (state m) = Paused"
  with reachable_pausedInv [OF assms] show "isPaused (state m)" by (simp add: pausedInv_def)
  from p show "accumulator (state (resume m)) = 0"
    by (simp add: resume_def notifyListeners_def)
  from p show "gameStatus (state (resume m)) = Playing"
    by (simp add: resume_def notifyListeners_def)
  from p show "\<not> isPaused (state (resume m))"
    by (simp add: resume_def notifyListeners_def)
qed

theorem updateWithDeltaTime_accumulator_witness:
  "reachable tickedManager \<and>
   \<not> isPaused (state tickedManager) \<and> lastUpdateTime (state tickedManager) = 1000 \<and>
   roundDouble (accumulator (state tickedManager)
                + roundDouble (1050 - lastUpdateTime (state tickedManager))) = 50 \<and>
   (\<exists>m' n. updateWithDeltaTime (\<lambda>_. 1 / 2) 1050 tickedManager = Some (m', n) \<and>
            lastUpdateTime (state m') = 1050 \<and>
            0 \<le> accumulator (state m') \<and> accumulator (state m') < FIXED_TIMESTEP \<and>
            \<bar>50 - real n * FIXED_TIMESTEP - accumulator (state m')\<bar> \<le> real n / 2 ^ 22) \<and>
   reachable (pause tickedManager) \<and>
   gameStatus (state (pause tickedManager)) = Paused \<and>
   updateWithDeltaTime (\<lambda>_. 1 / 2) 1050 (pause tickedManager) =
     Some ((pause tickedManager)
             \<lparr>state := (state (pause tickedManager))\<lparr>lastUpdateTime := 1050\<rparr>\<rparr>, 0) \<and>
   accumulator (state (resume (pause tickedManager))) = 0"
proof -
  have x: "roundDouble (accumulator (state tickedManager)
                        + roundDouble (1050 - lastUpdateTime (state tickedManager))) = 50"
    by (simp add: tickedManager_state firstManager_state roundDouble_50)
  have np: "\<not> isPaused (state tickedManager)" "lastUpdateTime (state tickedManager) = 1000"
    by (simp_all add: tickedManager_state firstManager_state)
  have ps: "gameStatus (state (pause tickedManager)) = Paused"
    by (simp add: pause_def tickedManager_state firstManager_state notifyListeners_def)
  from updateWithDeltaTime_accumulator [OF reachable_tickedManager, of 1050 "\<lambda>_. 1 / 2"] x np
  have a: "\<exists>m' n. updateWithDeltaTime (\<lambda>_. 1 / 2) 1050 tickedManager = Some (m', n) \<and>
            lastUpdateTime (state m') = 1050 \<and>
            0 \<le> accumulator (state m') \<and> accumulator (state m') < FIXED_TIMESTEP \<and>
            \<bar>50 - real n * FIXED_TIMESTEP - accumulator (state m')\<bar> \<le> real n / 2 ^ 22"
    by auto
  from updateWithDeltaTime_accumulator [OF do_pause [OF reachable_tickedManager],
         of 1050 "\<lambda>_. 1 / 2"] ps
  have b: "updateWithDeltaTime (\<lambda>_. 1 / 2) 1050 (pause tickedManager) =
             Some ((pause tickedManager)
                     \<lparr>state := (state (pause tickedManager))\<lparr>lastUpdateTime := 1050\<rparr>\<rparr>, 0)"
    and c: "accumulator (state (resume (pause tickedManager))) = 0"
    by simp_all
  from a b c x np ps reachable_tickedManager do_pause [OF reachable_tickedManager]
  show ?thesis by simp
qed

text \<open>
  The claim's formulas fail on an ordinary forward tick. With the accumulator at \<open>0\<close>
  and a tick \<open>50\<close> ms after the last one, two steps run (as \<open>floor (50 /
  FIXED_TIMESTEP)\<close> says, the constant being the double above \<open>50 / 3\<close>), and the two
  rounded subtractions leave \<open>4691249611844265 / 2 ^ 48\<close>, printed
  \<open>16.66666666666666\<close>, where \<open>50 mod FIXED_TIMESTEP\<close> is \<open>4691249611844266 / 2 ^
  48\<close>.
\<close>

theorem updateWithDeltaTime_rounded_remainder:
  "\<not> isPaused (state tickedManager) \<and>
   lastUpdateTime (state tickedManager) = 1000 \<and>
   accumulator (state tickedManager) = 0 \<and>
   FIXED_TIMESTEP = 4691249611844267 / 2 ^ 48 \<and>
   \<lfloor>(50::real) / FIXED_TIMESTEP\<rfloor> = 2 \<and>
   50 - FIXED_TIMESTEP * of_int \<lfloor>(50::real) / FIXED_TIMESTEP\<rfloor> = 4691249611844266 / 2 ^ 48 \<and>
   snd (the (updateWithDeltaTime (\<lambda>_. 1 / 2) 1050 tickedManager)) = 2 \<and>
   accumulator (state (fst (the (updateWithDeltaTime (\<lambda>_. 1 / 2) 1050 tickedManager)))) =
     4691249611844265 / 2 ^ 48"
proof -
  let ?m1 = "tickedManager\<lparr>state := (state tickedManager)
               \<lparr>lastUpdateTime := 1050, accumulator := 50\<rparr>\<rparr>"
  let ?m2 = "(fixedUpdate ?m1)\<lparr>state := (state (fixedUpdate ?m1))
               \<lparr>accumulator := 9382499223688532 / 281474976710656\<rparr>\<rparr>"
  let ?m3 = "(fixedUpdate ?m2)\<lparr>state := (state (fixedUpdate ?m2))
               \<lparr>accumulator := 4691249611844265 / 281474976710656\<rparr>\<rparr>"
  have sub2: "roundDouble (2345624805922133 / 70368744177664 - FIXED_TIMESTEP) =
                4691249611844265 / 281474976710656"
    using second_subtraction by simp
  have s3: "fixedSteps ?m3 (Suc (Suc 0)) = Some (?m3, Suc (Suc 0))"
    by (subst fixedSteps.simps) (simp add: FIXED_TIMESTEP_value)
  have s2: "fixedSteps ?m2 (Suc 0) = fixedSteps ?m3 (Suc (Suc 0))"
    by (subst fixedSteps.simps)
       (simp add: sub2, simp add: FIXED_TIMESTEP_value)
  have s1: "fixedSteps ?m1 0 = fixedSteps ?m2 (Suc 0)"
    by (subst fixedSteps.simps)
       (simp add: first_subtraction, simp add: FIXED_TIMESTEP_value)
  have "updateWithDeltaTime (\<lambda>_. 1 / 2) 1050 tickedManager = Some (notifyListeners ?m3, 2)"
    using s1 s2 s3
    by (simp add: updateWithDeltaTime_def tickedManager_state firstManager_state Let_def
                  roundDouble_50)
  then show ?thesis
    by (simp add: tickedManager_state firstManager_state FIXED_TIMESTEP_value notifyListeners_def)
qed

section \<open>Advancing to the next floor\<close>

text \<open>
  Claim C5. \<open>progressToNextFloor\<close> always returns. It advances to the next floor exactly
  when its guard holds, and the guard of the source is
  \<open>enemies.length === 0 || (isBossFloor && bossDefeated)\<close>; when the guard fails the
  manager is returned unchanged. On a floor that is not a boss floor the guard is the
  emptiness of the enemy list, as the specification says.
\<close>

theorem progressToNextFloor_guard:
  assumes "rnd01 rnd" and "0 \<le> currentFloor (state m)"
  shows "\<exists>m'. progressToNextFloor structure rnd m = Some m' \<and>
           ((currentFloor (state m') = currentFloor (state m) + 1) =
              (enemies (state m) = [] \<or> (isBossFloor (state m) \<and> bossDefeated (state m)))) \<and>
           (\<not> (enemies (state m) = [] \<or> (isBossFloor (state m) \<and> bossDefeated (state m)))
              \<longrightarrow> m' = m) \<and>
           (\<not> isBossFloor (state m) \<longrightarrow>
              (currentFloor (state m') = currentFloor (state m) + 1) = (enemies (state m) = []))"
proof (cases "enemies (state m) = [] \<or> (isBossFloor (state m) \<and> bossDefeated (state m))")
  case True
  from progressToNextFloor_advances [OF assms True, of "structure"]
  obtain m' where "progressToNextFloor structure rnd m = Some m'"
    and "currentFloor (state m') = currentFloor (state m) + 1" by auto
  with True show ?thesis by auto
next
  case False
  then have "progressToNextFloor structure rnd m = Some m"
    by (auto simp: progressToNextFloor_def)
  with False show ?thesis by auto
qed

theorem progressToNextFloor_guard_witness:
  "currentFloor (state firstManager) = 1 \<and> enemies (state firstManager) = [] \<and>
   currentFloor (state (the (progressToNextFloor [] (\<lambda>_. 1 / 2) firstManager))) = 2"
proof -
  have "0 \<le> currentFloor (state firstManager)" by (simp add: firstManager_state)
  from progressToNextFloor_guard [OF rnd01_half this, of "[]"]
  show ?thesis by (auto simp: firstManager_state)
qed

text \<open>
  The first disjunct of the guard does not look at the floor: on the boss floor 5, with an
  empty enemy list and \<open>bossDefeated\<close> still false, the call advances to floor 6. So a boss
  floor does not require the boss-defeated flag.
\<close>

theorem progressToNextFloor_boss_floor_without_flag:
  "currentFloor (state (floorManager 4)) = 5 \<and>
   isBossFloor (state (floorManager 4)) \<and>
   enemies (state (floorManager 4)) = [] \<and>
   \<not> bossDefeated (state (floorManager 4)) \<and>
   currentFloor (state (the (progressToNextFloor [] (\<lambda>_. 1 / 2) (floorManager 4)))) = 6"
proof -
  have "the (progressToNextFloor [] (\<lambda>_. 1 / 2) (floorManager 4)) = floorManager 5"
    by (simp add: eval_nat_numeral)
  then show ?thesis
    using floorManager_props [of 4] floorManager_props [of 5] by simp
qed

section \<open>Leaving floor 5\<close>

text \<open>
  Claim C6. A successful progression from floor 5 leaves the manager on floor 6 with a
  world of size \<open>min (64 + (6 div 5) * 8) 96 = 72\<close>, adds 25 to the health up to the
  maximum, and adds 20, 10 and 30 rounds to pistol, shotgun and chaingun up to their
  maxima; the maxima themselves are unchanged.
\<close>

theorem floor5_progression:
  assumes "rnd01 rnd" and "currentFloor (state m) = 5"
    and "enemies (state m) = [] \<or> (isBossFloor (state m) \<and> bossDefeated (state m))"
  shows "\<exists>m'. progressToNextFloor structure rnd m = Some m' \<and>
           currentFloor (state m') = 6 \<and>
           worldSize (state m') = 72 \<and>
           p_health (player (state m')) =
             min (p_maxHealth (player (state m))) (p_health (player (state m)) + 25) \<and>
           p_ammo (player (state m')) Pistol =
             min (p_maxAmmo (player (state m)) Pistol) (p_ammo (player (state m)) Pistol + 20) \<and>
           p_ammo (player (state m')) Shotgun =
             min (p_maxAmmo (player (state m)) Shotgun) (p_ammo (player (state m)) Shotgun + 10) \<and>
           p_ammo (player (state m')) Chaingun =
             min (p_maxAmmo (player (state m)) Chaingun) (p_ammo (player (state m)) Chaingun + 30) \<and>
           p_maxHealth (player (state m')) = p_maxHealth (player (state m)) \<and>
           p_maxAmmo (player (state m')) = p_maxAmmo (player (state m))"
proof -
  have fl: "0 \<le> currentFloor (state m)" using assms(2) by simp
  from progressToNextFloor_advances [OF assms(1) fl assms(3), of "structure"]
  obtain newMap es ps np ne k where
    eq: "progressToNextFloor structure rnd m =
             Some \<lparr>state = (state m)
                     \<lparr>player := nextFloorPlayer (min (64 + ((currentFloor (state m) + 1) div 5) * 8) 96)
                                  (player (state m)),
                      enemies := es, pickups := ps, gameStatus := Playing, worldMap := newMap,
                      nextPickupId := np, nextEnemyId := ne,
                      worldSize := min (64 + ((currentFloor (state m) + 1) div 5) * 8) 96,
                      currentFloor := currentFloor (state m) + 1,
                      floorTheme := getFloorTheme (currentFloor (state m) + 1),
                      isBossFloor := ((currentFloor (state m) + 1) mod 5 = 0),
                      bossDefeated := False\<rparr>,
                   notifications = Suc (notifications m), randomCalls = k\<rparr>" by blast
  show ?thesis
    unfolding eq using assms(2) by (simp add: nextFloorPlayer_def)
qed

theorem floor5_progression_witness:
  "currentFloor (state (floorManager 4)) = 5 \<and> enemies (state (floorManager 4)) = [] \<and>
   currentFloor (state (the (progressToNextFloor [] (\<lambda>_. 1 / 2) (floorManager 4)))) = 6 \<and>
   p_health (player (state (the (progressToNextFloor [] (\<lambda>_. 1 / 2) (floorManager 4))))) = 100"
proof -
  have cf: "currentFloor (state (floorManager 4)) = 5"
    and en: "enemies (state (floorManager 4)) = []"
    and h: "p_health (player (state (floorManager 4))) = 100"
           "p_maxHealth (player (state (floorManager 4))) = 100"
    using floorManager_props [of 4] by simp_all
  from en have g: "enemies (state (floorManager 4)) = [] \<or>
                   (isBossFloor (state (floorManager 4)) \<and> bossDefeated (state (floorManager 4)))"
    by simp
  from floor5_progression [OF rnd01_half cf g, of "[]"] cf en h
  show ?thesis by auto
qed

text \<open>
  The size 72 of floor 6 is not larger than that of floor 5: floor 5 was itself generated
  with \<open>min (64 + (5 div 5) * 8) 96 = 72\<close>.
\<close>

theorem floor6_world_size_not_larger:
  "currentFloor (state (floorManager 4)) = 5 \<and>
   enemies (state (floorManager 4)) = [] \<and>
   worldSize (state (floorManager 4)) = 72 \<and>
   currentFloor (state (the (progressToNextFloor [] (\<lambda>_. 1 / 2) (floorManager 4)))) = 6 \<and>
   worldSize (state (the (progressToNextFloor [] (\<lambda>_. 1 / 2) (floorManager 4)))) = 72"
proof -
  have "the (progressToNextFloor [] (\<lambda>_. 1 / 2) (floorManager 4)) = floorManager 5"
    by (simp add: eval_nat_numeral)
  then show ?thesis
    using floorManager_props [of 4] floorManager_props [of 5] by simp
qed

section \<open>Shooting\<close>

text \<open>
  Claim C3. In a reachable state \<open>shoot\<close> returns false and changes nothing when the
  status is not \<open>playing\<close>, the game is paused, or the current weapon has no ammunition
  (the source tests \<open>ammo <= 0\<close>, and the ammunition of a reachable state is never
  negative). Otherwise it returns true, takes the weapon's \<open>ammoUse\<close> from the current
  weapon's ammunition and from no other, sets the attack timer and the muzzle-flash timer
  to the weapon's durations, and sets both flags.
\<close>

theorem shoot_guard:
  assumes "reachable m"
  shows "(gameStatus (state m) \<noteq> Playing \<or> isPaused (state m) \<or>
            p_ammo (player (state m)) (weapon (player (state m))) = 0
          \<longrightarrow> shoot m = (m, False)) \<and>
         (\<not> (gameStatus (state m) \<noteq> Playing \<or> isPaused (state m) \<or>
               p_ammo (player (state m)) (weapon (player (state m))) = 0)
          \<longrightarrow> snd (shoot m) = True \<and>
              p_ammo (player (state (fst (shoot m)))) =
                (p_ammo (player (state m)))
                  (weapon (player (state m)) :=
                     p_ammo (player (state m)) (weapon (player (state m)))
                       - ammoUse (WEAPON_STATS (weapon (player (state m))))) \<and>
              attackTimer (player (state (fst (shoot m)))) =
                attackDuration (WEAPON_STATS (weapon (player (state m)))) \<and>
              muzzleFlashTimer (player (state (fst (shoot m)))) =
                muzzleDuration (WEAPON_STATS (weapon (player (state m)))) \<and>
              isAttacking (player (state (fst (shoot m)))) \<and>
              muzzleFlash (player (state (fst (shoot m)))) \<and>
              weapon (player (state (fst (shoot m)))) = weapon (player (state m)) \<and>
              p_health (player (state (fst (shoot m)))) = p_health (player (state m)) \<and>
              enemies (state (fst (shoot m))) = enemies (state m) \<and>
              notifications (fst (shoot m)) = Suc (notifications m))"
proof -
  from reachable_stateInv [OF assms]
  have "0 \<le> p_ammo (player (state m)) (weapon (player (state m)))"
    by (simp add: stateInv_def)
  then have "(p_ammo (player (state m)) (weapon (player (state m))) \<le> 0) =
             (p_ammo (player (state m)) (weapon (player (state m))) = 0)" by auto
  then show ?thesis
    by (simp add: shoot_def Let_def notifyListeners_def)
qed

theorem shoot_guard_witness:
  "reachable firstManager \<and>
   snd (shoot firstManager) = True \<and>
   p_ammo (player (state firstManager)) Pistol = 50 \<and>
   p_ammo (player (state (fst (shoot firstManager)))) Pistol = 49 \<and>
   attackTimer (player (state (fst (shoot firstManager)))) = 15 \<and>
   muzzleFlashTimer (player (state (fst (shoot firstManager)))) = 8 \<and>
   reachable (pause firstManager) \<and>
   shoot (pause firstManager) = (pause firstManager, False)"
proof -
  have p: "isPaused (state (pause firstManager))"
    by (simp add: pause_def firstManager_state notifyListeners_def)
  from shoot_guard [OF reachable_firstManager]
       shoot_guard [OF do_pause [OF reachable_firstManager]] p
  show ?thesis
    by (simp add: firstManager_state initialPlayer_def reachable_firstManager
                  do_pause [OF reachable_firstManager])
qed

section \<open>Dead enemies\<close>



section \<open>Enemy ids\<close>

text \<open>
  Claim C7. \<open>generateBossEnemy\<close> gives the boss the id \<open>nextEnemyId\<close> and leaves the
  counter where it is, while \<open>generateRandomEnemies\<close> and \<open>spawnBossMinion\<close> advance
  it. On floor 5, reached with no regular enemy placed, the boss has id \<open>1\<close> and the
  counter is still \<open>1\<close>; the first minion, created by the next call of
  \<open>updateEnemies\<close>, takes \<open>nextEnemyId++\<close>, which is \<open>1\<close> again. The live set then
  holds two enemies with the same id, and the later one's id is not greater than the
  earlier one's.
\<close>

theorem boss_and_first_minion_share_id:
  "reachable bossFloorManager \<and>
   map e_id (enemies (state bossFloorManager)) = [1] \<and>
   nextEnemyId (state bossFloorManager) = 1 \<and>
   reachable minionManager \<and>
   map e_id (enemies (state minionManager)) = [1, 1] \<and>
   map isBoss (enemies (state minionManager)) = [True, False] \<and>
   nextEnemyId (state minionManager) = 2"
proof -
  note b = bossFloorManager_props and mm = minionManager_props
  show ?thesis
    by (simp add: b(1,3,6) mm(1,3,6) shared_id boss_fields spawnedBoss_def firstMinion_def
                  newMinion_def)
qed

section \<open>Health and ammunition bounds\<close>

text \<open>
  Claim C2, amended. In every reachable state the player's health is at most the
  maximum, and the ammunition of every weapon lies between \<open>0\<close> and its maximum. The
  health has no lower bound: the attacking branch of \<open>updateEnemies\<close> subtracts the
  damage and clamps nothing.
\<close>

theorem reachable_health_ammo_bounds:
  assumes "reachable m"
  shows "p_health (player (state m)) \<le> p_maxHealth (player (state m)) \<and>
         (\<forall>w. 0 \<le> p_ammo (player (state m)) w \<and>
              p_ammo (player (state m)) w \<le> p_maxAmmo (player (state m)) w)"
  using reachable_stateInv [OF assms] by (simp add: stateInv_def)

theorem reachable_health_ammo_bounds_witness:
  "reachable (fst (shoot firstManager)) \<and>
   p_health (player (state (fst (shoot firstManager)))) = 100 \<and>
   p_maxHealth (player (state (fst (shoot firstManager)))) = 100 \<and>
   p_ammo (player (state (fst (shoot firstManager)))) Pistol = 49 \<and>
   p_maxAmmo (player (state (fst (shoot firstManager)))) Pistol = 200 \<and>
   0 \<le> p_ammo (player (state (fst (shoot firstManager)))) Pistol \<and>
   p_ammo (player (state (fst (shoot firstManager)))) Pistol
     \<le> p_maxAmmo (player (state (fst (shoot firstManager)))) Pistol"
proof -
  have r: "reachable (fst (shoot firstManager))" by (rule do_shoot [OF reachable_firstManager])
  from reachable_health_ammo_bounds [OF r] r show ?thesis
    by (simp add: shoot_def Let_def firstManager_state initialPlayer_def notifyListeners_def)
qed

text \<open>
  The lower bound of the claim fails. On floor 5, with the boss killed and its first
  minion, a captain, standing on the player's cell, the captain attacks every 45th call of
  \<open>updateEnemies\<close> for 15 points. After six attacks the health is \<open>10\<close> and the game
  is still being played; the next call of \<open>updateEnemies\<close> leaves it at \<open>-5\<close>.
\<close>

theorem health_below_zero:
  "reachable (siegeManager 270) \<and>
   gameStatus (state (siegeManager 270)) = Playing \<and>
   \<not> isPaused (state (siegeManager 270)) \<and>
   p_health (player (state (siegeManager 270))) = 10 \<and>
   map enemyType (enemies (state (siegeManager 270))) = [Captain] \<and>
   map e_state (enemies (state (siegeManager 270))) = [Attacking] \<and>
   map attackCooldown (enemies (state (siegeManager 270))) = [1] \<and>
   updateEnemies (\<lambda>_ _ _. 100) (\<lambda>_. 1 / 2) (siegeManager 270) = Some (siegeManager 271) \<and>
   reachable (siegeManager 271) \<and>
   p_health (player (state (siegeManager 271))) = - 5"
proof -
  from siege_props [of 270] siegeState_values(1)
  have r: "reachable (siegeManager 270)" and a: "arena (siegeManager 270)"
    and px: "p_x (player (state (siegeManager 270))) = 15"
    and en: "enemies (state (siegeManager 270)) = [attacker 1]"
    and h: "p_health (player (state (siegeManager 270))) = 10" by simp_all
  from siege_props [of 271] siegeState_values(2)
  have r': "reachable (siegeManager 271)"
    and h': "p_health (player (state (siegeManager 271))) = - 5" by simp_all
  have "(1::int) \<ge> 0" by simp
  from siege_call [OF a en px this, of "\<lambda>_. 1 / 2"]
  have "\<exists>m'. updateEnemies (\<lambda>_ _ _. 100) (\<lambda>_. 1 / 2) (siegeManager 270) = Some m'" by simp
  then have call: "updateEnemies (\<lambda>_ _ _. 100) (\<lambda>_. 1 / 2) (siegeManager 270) =
                     Some (siegeManager 271)"
    by (auto simp: eval_nat_numeral)
  from a have "gameStatus (state (siegeManager 270)) = Playing"
    "\<not> isPaused (state (siegeManager 270))" by (simp_all add: arena_def)
  with r h en call r' h' show ?thesis by (simp add: attacker_fields)
qed

end
